(* ===== verification/Secfs_Prelude.thy ===== *)
theory Secfs_Prelude
  imports Main "HOL-Library.Word" "HOL-Library.Monad_Syntax" "HOL-Library.Signed_Division"
begin

text \<open>
  Shared vocabulary of the development: the machine types of \<^verbatim>\<open>include/bridge.hpp\<close>,
  raw memory as byte lists with reads and writes at an offset, little-endian integers (the
  target is x86-64), C strings, and the two list operations the directory code uses.

  An operation whose C++ behaviour is undefined, or that aborts the enclave (null pointer, access
  out of bounds, failed assertion), is modelled by \<^term>\<open>None\<close> of an option; every error the code
  reports by a return value is an ordinary value.  Blocks of \<open>do\<close> are those of the option monad.
\<close>

unbundle bit_operations_syntax

named_theorems buf_simps \<open>reads and writes of raw memory\<close>

section \<open>Machine types\<close>

type_synonym byte = "8 word"
type_synonym size_t = "64 word"
type_synonym off_t = "64 word"
type_synonym ino_t = "64 word"
type_synonym uid_t = "32 word"
type_synonym bytes = "byte list"

abbreviation soff :: "off_t \<Rightarrow> int" where
  "soff \<equiv> sint"

section \<open>Raw memory\<close>

definition rd :: "nat \<Rightarrow> nat \<Rightarrow> bytes \<Rightarrow> bytes" where
  "rd off n buf = take n (drop off buf)"

definition wr :: "nat \<Rightarrow> bytes \<Rightarrow> bytes \<Rightarrow> bytes" where
  "wr off bs buf = take off buf @ bs @ drop (off + length bs) buf"

lemma length_rd [buf_simps]: "off + n \<le> length buf \<Longrightarrow> length (rd off n buf) = n"
  by (simp add: rd_def)

lemma length_wr [buf_simps]: "off + length bs \<le> length buf \<Longrightarrow> length (wr off bs buf) = length buf"
  by (simp add: wr_def)

lemma rd_wr_same [buf_simps]:
  "off + length bs \<le> length buf \<Longrightarrow> n = length bs \<Longrightarrow> rd off n (wr off bs buf) = bs"
  by (simp add: rd_def wr_def min_def)

lemma rd_wr_before [buf_simps]:
  "off + length bs \<le> length buf \<Longrightarrow> o' + n \<le> off \<Longrightarrow> rd o' n (wr off bs buf) = rd o' n buf"
  by (simp add: rd_def wr_def take_drop min_def)

lemma rd_wr_after [buf_simps]:
  assumes "off + length bs \<le> length buf" and "off + length bs \<le> o'"
  shows "rd o' n (wr off bs buf) = rd o' n buf"
proof -
  have "drop o' (wr off bs buf) = drop o' buf"
    using assms by (simp add: wr_def drop_append)
  then show ?thesis by (simp add: rd_def)
qed

lemma rd_whole: "length buf = n \<Longrightarrow> rd 0 n buf = buf"
  by (simp add: rd_def)

lemma wr_whole [simp]: "length bs = length buf \<Longrightarrow> wr 0 bs buf = bs"
  by (simp add: wr_def)

lemma wr_nil [simp]: "off \<le> length buf \<Longrightarrow> wr off [] buf = buf"
  by (simp add: wr_def)

lemma nth_wr:
  assumes "off + length bs \<le> length buf" and "i < length buf"
  shows "wr off bs buf ! i =
    (if off \<le> i \<and> i < off + length bs then bs ! (i - off) else buf ! i)"
  using assms by (auto simp: wr_def nth_append)

lemma wr_wr_adjacent:
  "off + length as \<le> length buf \<Longrightarrow> off + length as + length bs \<le> length buf \<Longrightarrow>
   wr (off + length as) bs (wr off as buf) = wr off (as @ bs) buf"
  by (simp add: wr_def drop_append add.commute add.left_commute)

lemma wr_wr_prefix [buf_simps]:
  assumes "length as \<le> length bs" and "off + length bs \<le> length buf"
  shows "wr off as (wr off bs buf) = wr off (as @ drop (length as) bs) buf"
proof -
  obtain b1 b2 where bs: "bs = b1 @ b2" and "length b1 = length as"
    using assms(1) by (metis append_take_drop_id length_take min_absorb2)
  moreover have "min (length buf) off = off" using assms(2) by simp
  ultimately show ?thesis
    using assms(2) by (simp add: wr_def add.assoc)
qed

lemma rd_rd: "k + n \<le> m \<Longrightarrow> rd k n (rd off m buf) = rd (off + k) n buf"
  by (simp add: rd_def drop_take take_take min_def add.commute)

lemma rd_sub: "rd off m buf = rd off m buf' \<Longrightarrow> k + n \<le> m \<Longrightarrow> rd (off + k) n buf = rd (off + k) n buf'"
  by (metis rd_rd)

section \<open>Little-endian integers\<close>

definition le_bytes :: "nat \<Rightarrow> 'a::len word \<Rightarrow> bytes" where
  "le_bytes n w = map (\<lambda>i. ucast (drop_bit (8 * i) w)) [0..<n]"

fun le_word :: "bytes \<Rightarrow> 'a::len word" where
  "le_word [] = 0"
| "le_word (b # bs) = ucast b OR push_bit 8 (le_word bs)"

lemma length_le_bytes [simp, buf_simps]: "length (le_bytes n w) = n"
  by (simp add: le_bytes_def)

lemma bit_le_bytes:
  "i < n \<Longrightarrow> bit (le_bytes n (w :: 'a::len word) ! i) k \<longleftrightarrow> k < 8 \<and> bit w (8 * i + k)"
  by (auto simp: le_bytes_def bit_ucast_iff bit_drop_bit_eq)

lemma bit_le_word:
  "bit (le_word bs :: 'a::len word) k \<longleftrightarrow>
     k < LENGTH('a) \<and> k div 8 < length bs \<and> bit (bs ! (k div 8)) (k mod 8)"
proof (induction bs arbitrary: k)
  case Nil
  then show ?case by simp
next
  case (Cons b bs)
  show ?case
  proof (cases "k < 8")
    case True
    then show ?thesis
      by (auto simp: bit_or_iff bit_push_bit_iff bit_ucast_iff)
  next
    case False
    then have "k div 8 = Suc ((k - 8) div 8)" and "k mod 8 = (k - 8) mod 8"
      by (simp_all add: le_div_geq le_mod_geq)
    moreover have "\<not> bit (ucast b :: 'a word) k"
      using False by (auto simp: bit_ucast_iff dest: bit_imp_le_length)
    ultimately show ?thesis
      using False Cons.IH [of "k - 8"]
      by (auto simp: bit_or_iff bit_push_bit_iff)
  qed
qed

lemma le_word_le_bytes [simp, buf_simps]:
  fixes w :: "'a::len word"
  assumes "LENGTH('a) \<le> 8 * n"
  shows "le_word (le_bytes n w) = w"
proof (rule bit_word_eqI)
  fix k
  assume k: "k < LENGTH('a)"
  then have "k div 8 < n" using assms by (simp add: div_less_iff_less_mult mult.commute)
  then show "bit (le_word (le_bytes n w) :: 'a word) k \<longleftrightarrow> bit w k"
    using k by (simp add: bit_le_word bit_le_bytes)
qed

lemma le_bytes_le_word:
  assumes "length bs = n" and "8 * n \<le> LENGTH('a::len)"
  shows "le_bytes n (le_word bs :: 'a word) = bs"
proof (rule nth_equalityI)
  show "length (le_bytes n (le_word bs :: 'a word)) = length bs"
    using assms by simp
next
  fix i
  assume "i < length (le_bytes n (le_word bs :: 'a word))"
  then have i: "i < n" by simp
  show "le_bytes n (le_word bs :: 'a word) ! i = bs ! i"
  proof (rule bit_word_eqI)
    fix k
    assume "k < LENGTH(8)"
    then have k: "k < 8" by simp
    have "8 * i + k < LENGTH('a)" using i k assms(2) by linarith
    moreover have "(8 * i + k) div 8 = i" "(8 * i + k) mod 8 = k"
      using k by (simp_all add: div_mult2_eq)
    ultimately show "bit (le_bytes n (le_word bs :: 'a word) ! i) k \<longleftrightarrow> bit (bs ! i) k"
      using i k assms(1) by (simp add: bit_le_bytes bit_le_word)
  qed
qed

lemma le_bytes_inject:
  fixes v w :: "'a::len word"
  assumes "LENGTH('a) \<le> 8 * n" and "le_bytes n v = le_bytes n w"
  shows "v = w"
  using assms by (metis le_word_le_bytes)

section \<open>C strings\<close>

definition byte_of_char :: "char \<Rightarrow> byte" where
  "byte_of_char c = of_nat (of_char c)"

definition char_of_byte :: "byte \<Rightarrow> char" where
  "char_of_byte b = char_of (unat b)"

lemma char_of_byte_of_char [simp]: "char_of_byte (byte_of_char c) = c"
  by (simp add: char_of_byte_def byte_of_char_def unat_of_nat take_bit_eq_mod [symmetric])

lemma byte_of_char_eq_0_iff [simp]: "byte_of_char c = 0 \<longleftrightarrow> c = CHR 0x00"
proof
  assume "byte_of_char c = 0"
  then have "char_of_byte (byte_of_char c) = char_of_byte 0" by (rule arg_cong)
  also have "char_of_byte 0 = CHR 0x00" by (simp add: char_of_byte_def char_of_def)
  finally show "c = CHR 0x00" by simp
qed (simp add: byte_of_char_def)

definition str_bytes :: "string \<Rightarrow> bytes" where
  "str_bytes s = map byte_of_char s"

definition str_of_bytes :: "bytes \<Rightarrow> string" where
  "str_of_bytes bs = map char_of_byte bs"

lemma length_str_bytes [simp, buf_simps]: "length (str_bytes s) = length s"
  by (simp add: str_bytes_def)

lemma str_of_bytes_str_bytes [simp]: "str_of_bytes (str_bytes s) = s"
  by (simp add: str_of_bytes_def str_bytes_def comp_def)

text \<open>
  Reading a C string at an offset: the bytes up to the first zero byte.  The read does not stop at
  the end of the array the pointer was declared with, only at the end of the allocation, where it
  is undefined.
\<close>

definition c_string :: "nat \<Rightarrow> bytes \<Rightarrow> string option" where
  "c_string off buf =
     (let bs = takeWhile (\<lambda>b. b \<noteq> 0) (drop off buf)
      in if off + length bs < length buf then Some (str_of_bytes bs) else None)"

definition no_nul :: "string \<Rightarrow> bool" where
  "no_nul s \<longleftrightarrow> CHR 0x00 \<notin> set s"

lemma no_nul_str_bytes: "no_nul s \<longleftrightarrow> 0 \<notin> set (str_bytes s)"
  by (auto simp: no_nul_def str_bytes_def)

lemma takeWhile_stop: "0 \<notin> set as \<Longrightarrow> takeWhile (\<lambda>b. b \<noteq> 0) (as @ (0::byte) # r) = as"
  by (induction as) auto

lemma c_string_padded:
  assumes "no_nul s" and "0 < n" and "off \<le> length buf"
    and "take (length s + n) (drop off buf) = str_bytes s @ replicate n 0"
  shows "c_string off buf = Some s"
proof -
  obtain m where n: "n = Suc m" using assms(2) by (cases n) auto
  have d: "drop off buf =
      str_bytes s @ 0 # (replicate m 0 @ drop (length s + n) (drop off buf))"
    using append_take_drop_id [of "length s + n" "drop off buf"] assms(4) n by simp
  have tw: "takeWhile (\<lambda>b. b \<noteq> 0) (drop off buf) = str_bytes s"
    by (subst d, rule takeWhile_stop) (use assms(1) in \<open>simp add: no_nul_str_bytes\<close>)
  have "length (drop off buf) = length s + Suc (m + length (drop (length s + n) (drop off buf)))"
    by (subst d) simp
  then have "length s < length (drop off buf)" by simp
  then have "off + length s < length buf" by simp
  then show ?thesis by (simp add: c_string_def tw Let_def)
qed

section \<open>Lists\<close>

fun erase_first :: "('a \<Rightarrow> bool) \<Rightarrow> 'a list \<Rightarrow> 'a list" where
  "erase_first P [] = []"
| "erase_first P (x # xs) = (if P x then xs else x # erase_first P xs)"

lemma set_erase_first_subset: "set (erase_first P xs) \<subseteq> set xs"
  by (induction xs) auto

lemma erase_first_id [simp]: "\<forall>x\<in>set xs. \<not> P x \<Longrightarrow> erase_first P xs = xs"
  by (induction xs) auto

lemma distinct_map_erase_first: "distinct (map f xs) \<Longrightarrow> distinct (map f (erase_first P xs))"
  by (induction xs) (use set_erase_first_subset in \<open>fastforce\<close>)+

lemma erase_first_key:
  "distinct (map f xs) \<Longrightarrow> erase_first (\<lambda>x. f x = k) xs = filter (\<lambda>x. f x \<noteq> k) xs"
proof (induction xs)
  case (Cons x xs)
  have "filter (\<lambda>y. f y \<noteq> f x) xs = xs"
    using Cons.prems by (simp add: filter_id_conv) (metis image_eqI)
  then show ?case using Cons by auto
qed simp

lemma find_None_iff_all: "find P xs = None \<longleftrightarrow> (\<forall>x\<in>set xs. \<not> P x)"
  by (auto simp: find_None_iff)

lemma find_SomeD: "find P xs = Some x \<Longrightarrow> x \<in> set xs \<and> P x"
  by (auto simp: find_Some_iff)

lemma find_key_unique:
  "distinct (map f xs) \<Longrightarrow> x \<in> set xs \<Longrightarrow> f x = k \<Longrightarrow> find (\<lambda>y. f y = k) xs = Some x"
  by (induction xs) (auto simp: rev_image_eqI)

lemma find_append: "find P (xs @ ys) = (case find P xs of None \<Rightarrow> find P ys | Some x \<Rightarrow> Some x)"
  by (induction xs) auto

lemma find_filter_neq:
  "k \<noteq> k' \<Longrightarrow> find (\<lambda>x. f x = k) (filter (\<lambda>x. f x \<noteq> k') xs) = find (\<lambda>x. f x = k) xs"
  by (induction xs) auto

lemma find_filter_eq: "find (\<lambda>x. f x = k) (filter (\<lambda>x. f x \<noteq> k) xs) = None"
  by (induction xs) auto

end
