(* ===== verification/Uuid.thy ===== *)
theory Uuid
  imports Secfs_Prelude
begin

text \<open>
  Class \<open>UUID\<close> of \<^verbatim>\<open>enclave/uuid.cpp\<close>.  Its only field is an array of sixteen bytes;
  the model packs the array into a 128-bit word, least significant byte first, so that
  \<open>data[i]\<close> is byte \<open>i\<close> of \<open>le_bytes 16\<close>.  Comparison of the arrays is equality of the words.
  The random constructor \<open>gen_rand\<close> is modelled with the outside world in \<open>Host\<close>.
\<close>

type_synonym uuid = "128 word"

definition UUID_zero :: uuid where
  "UUID_zero = 0"

definition UUID_load :: "bytes \<Rightarrow> uuid" where
  "UUID_load inp = le_word (take 16 inp)"

definition UUID_dump :: "uuid \<Rightarrow> bytes" where
  "UUID_dump u = le_bytes 16 u"

definition hex_digit :: "nat \<Rightarrow> char" where
  "hex_digit n = ''0123456789abcdef'' ! n"

text \<open>The conversion \<^verbatim>\<open>%02x\<close> of one byte.\<close>

definition hex2 :: "byte \<Rightarrow> string" where
  "hex2 b = [hex_digit (unat b div 16), hex_digit (unat b mod 16)]"

definition UUID_unparse :: "uuid \<Rightarrow> string" where
  "UUID_unparse u =
     (let d = UUID_dump u; h = (\<lambda>i j. concat (map (\<lambda>k. hex2 (d ! k)) [i..<j]))
      in h 0 4 @ ''-'' @ h 4 6 @ ''-'' @ h 6 8 @ ''-'' @ h 8 10 @ ''-'' @ h 10 16)"

definition UUID_hash :: "uuid \<Rightarrow> size_t" where
  "UUID_hash u = ucast u + ucast (drop_bit 64 u)"

lemma length_UUID_dump [simp, buf_simps]: "length (UUID_dump u) = 16"
  by (simp add: UUID_dump_def)

lemma UUID_load_dump [simp, buf_simps]: "UUID_load (UUID_dump u) = u"
  by (simp add: UUID_load_def UUID_dump_def)

lemma UUID_dump_load: "length bs = 16 \<Longrightarrow> UUID_dump (UUID_load bs) = bs"
  by (simp add: UUID_load_def UUID_dump_def le_bytes_le_word)

lemma UUID_dump_inject: "UUID_dump u = UUID_dump v \<longleftrightarrow> u = v"
  by (metis UUID_load_dump)

lemma hex_digit_inject:
  assumes "m < 16" "n < 16" "hex_digit m = hex_digit n"
  shows "m = n"
proof -
  have "distinct ''0123456789abcdef''" by simp
  with assms show ?thesis
    by (simp add: hex_digit_def nth_eq_iff_index_eq)
qed

lemma hex2_inject: "hex2 b = hex2 c \<longleftrightarrow> b = c"
proof
  assume eq: "hex2 b = hex2 c"
  have "unat b < 2 ^ LENGTH(8)" "unat c < 2 ^ LENGTH(8)"
    by (rule unsigned_less)+
  then have lt: "unat b div 16 < 16" "unat c div 16 < 16" by simp_all
  have "unat b div 16 = unat c div 16" "unat b mod 16 = unat c mod 16"
    using eq lt by (auto simp: hex2_def intro: hex_digit_inject)
  then have "unat b = unat c" by (metis div_mult_mod_eq)
  then show "b = c" by (simp only: word_unat_eq_iff)
qed simp

lemma hex2_append_inject: "hex2 b @ xs = hex2 c @ ys \<longleftrightarrow> b = c \<and> xs = ys"
  using hex2_inject [of b c] by (auto simp: hex2_def)

lemma length_hex2 [simp]: "length (hex2 b) = 2"
  by (simp add: hex2_def)

lemma UUID_unparse_unfold:
  "UUID_unparse u = (let d = UUID_dump u in
     hex2 (d ! 0) @ hex2 (d ! 1) @ hex2 (d ! 2) @ hex2 (d ! 3) @ ''-'' @
     hex2 (d ! 4) @ hex2 (d ! 5) @ ''-'' @ hex2 (d ! 6) @ hex2 (d ! 7) @ ''-'' @
     hex2 (d ! 8) @ hex2 (d ! 9) @ ''-'' @ hex2 (d ! 10) @ hex2 (d ! 11) @
     hex2 (d ! 12) @ hex2 (d ! 13) @ hex2 (d ! 14) @ hex2 (d ! 15))"
  by (simp add: UUID_unparse_def Let_def upt_rec [of _ 4] upt_rec [of _ 6] upt_rec [of _ 8]
    upt_rec [of _ 10] upt_rec [of _ 16] eval_nat_numeral)

lemma length_UUID_unparse [simp]: "length (UUID_unparse u) = 36"
  by (simp add: UUID_unparse_unfold Let_def)

lemma UUID_unparse_inject: "UUID_unparse u = UUID_unparse v \<longleftrightarrow> u = v"
proof
  assume eq: "UUID_unparse u = UUID_unparse v"
  have "list_all (\<lambda>i. UUID_dump u ! i = UUID_dump v ! i) [0..<16]"
    using eq by (simp add: UUID_unparse_unfold Let_def hex2_append_inject hex2_inject upt_rec
      eval_nat_numeral)
  then have "\<forall>i<16. UUID_dump u ! i = UUID_dump v ! i"
    by (simp add: list_all_iff)
  then have "UUID_dump u = UUID_dump v" by (intro nth_equalityI) simp_all
  then show "u = v" by (simp add: UUID_dump_inject)
qed simp

end
