(* ===== verification/Metadata.thy ===== *)
theory Metadata
  imports Uuid
begin

text \<open>
  The common part of all metadata objects (\<^verbatim>\<open>enclave/metadata.hpp\<close>) with the constants
  and plain structs of \<^verbatim>\<open>include/bridge.hpp\<close> and \<^verbatim>\<open>enclave/internal.hpp\<close>.  The C++
  classes derive from one another; the records extend one another in the same way.

  The locale \<open>metadata_codec\<close> is the contract between a metadata class and the code that stores
  it: what the two virtual functions \<open>dump\<close> and \<open>load\<close> promise to \<open>save_metadata\<close> and
  \<open>load_metadata\<close>.  It is interpreted for each class in the theory of that class.
\<close>

section \<open>Constants\<close>

definition MAX_PATH_LEN :: nat where "MAX_PATH_LEN = 256"

definition VOLKEYSIZE :: nat where "VOLKEYSIZE = 256"

definition MAX_CACHE_NUM :: nat where "MAX_CACHE_NUM = 8"

definition CHUNKSIZE :: nat where "CHUNKSIZE = 4096"

definition T_ST_DIR :: "32 word" where "T_ST_DIR = 0x4000"

definition T_ST_REG :: "32 word" where "T_ST_REG = 0x8000"

definition T_DT_DIR :: "32 word" where "T_DT_DIR = 4"

definition T_DT_REG :: "32 word" where "T_DT_REG = 8"

definition T_DT_LNK :: "32 word" where "T_DT_LNK = 10"

definition OF_TRUNC :: "32 word" where "OF_TRUNC = 0x200"

lemmas fs_consts = MAX_PATH_LEN_def VOLKEYSIZE_def MAX_CACHE_NUM_def CHUNKSIZE_def
  T_ST_DIR_def T_ST_REG_def T_DT_DIR_def T_DT_REG_def T_DT_LNK_def OF_TRUNC_def

section \<open>Plain structs and base classes\<close>

record stat_buffer_t =
  st_ino :: ino_t
  st_mode :: "32 word"
  st_nlink :: "64 word"
  st_size :: size_t

record metadata =
  md_uuid :: uuid

definition Metadata_ctor :: "uuid \<Rightarrow> metadata" where
  "Metadata_ctor u = \<lparr>md_uuid = u\<rparr>"

record inode = metadata +
  in_ino :: ino_t
  in_refcount :: "32 word"

text \<open>
  The constructor of \<open>Inode\<close> sets the reference count and leaves the inode number
  uninitialised; the argument \<open>junk\<close> stands for that value.
\<close>

definition Inode_ctor :: "uuid \<Rightarrow> ino_t \<Rightarrow> inode" where
  "Inode_ctor u junk = metadata.extend (Metadata_ctor u) \<lparr>in_ino = junk, in_refcount = 0\<rparr>"

text \<open>
  The virtual functions take a buffer pointer (\<^term>\<open>None\<close> for the null pointer, else the contents
  of the memory) and its size.  The result is the returned size and the buffer after the call.
\<close>

type_synonym 'm dump_fun = "'m \<Rightarrow> bytes option \<Rightarrow> size_t \<Rightarrow> size_t \<times> bytes option"
type_synonym 'm load_fun = "'m \<Rightarrow> bytes \<Rightarrow> (bool \<times> 'm) option"

section \<open>The contract of a metadata class\<close>

locale metadata_codec =
  fixes dump :: "'m dump_fun"
    and load :: "'m load_fun"
    and storable :: "'m \<Rightarrow> bool"
    and fresh :: "'m \<Rightarrow> 'm \<Rightarrow> bool"
    and bytes_of :: "'m \<Rightarrow> nat"
  assumes bytes_of_bound: "storable m \<Longrightarrow> 0 < bytes_of m \<and> bytes_of m < 2 ^ 32"
    and dump_size: "storable m \<Longrightarrow> dump m None sz = (of_nat (bytes_of m), None)"
    and dump_load: "storable m \<Longrightarrow> length buf = bytes_of m \<Longrightarrow>
      \<exists>img. dump m (Some buf) (of_nat (length buf)) = (of_nat (bytes_of m), Some img) \<and>
        length img = bytes_of m \<and> (\<forall>m0. fresh m0 m \<longrightarrow> load m0 img = Some (True, m))"
begin

lemma unat_bytes_of: "storable m \<Longrightarrow> unat (of_nat (bytes_of m) :: size_t) = bytes_of m"
  using bytes_of_bound [of m] by (simp add: unat_of_nat take_bit_eq_mod)

lemma dump_nonzero: "storable m \<Longrightarrow> (of_nat (bytes_of m) :: size_t) \<noteq> 0"
  using bytes_of_bound [of m] unat_bytes_of [of m] by (metis less_irrefl unat_0)

end

end
