(* ===== verification/Crypto.thy ===== *)
theory Crypto
  imports Metadata
begin

text \<open>
  The two functions \<open>encrypt_buffer\<close> and \<open>decrypt_buffer\<close> of \<^verbatim>\<open>enclave/storage.cpp\<close>.
  They drive the cipher interface of mbedTLS, which is not part of the repository: the record
  \<open>mbedtls\<close> holds its functions as parameters, over an abstract context type, with the status code
  each returns.  A call that writes an output buffer returns the bytes it has written.

  \<open>gcm_lawful\<close> states what the documentation of the library says of AES-256-GCM: it encrypts byte by
  byte and reversibly, it produces a tag of sixteen bytes, and a check succeeds exactly on the tag
  that encryption of the same plaintext under the same parameters gives.
\<close>

datatype mbedtls_operation = MBEDTLS_ENCRYPT | MBEDTLS_DECRYPT

record 'c mbedtls =
  mb_cipher_info :: bool
  mb_setup :: "int \<times> 'c"
  mb_setkey :: "'c \<Rightarrow> bytes \<Rightarrow> nat \<Rightarrow> mbedtls_operation \<Rightarrow> int \<times> 'c"
  mb_set_iv :: "'c \<Rightarrow> bytes \<Rightarrow> int \<times> 'c"
  mb_reset :: "'c \<Rightarrow> int \<times> 'c"
  mb_update_ad :: "'c \<Rightarrow> bytes \<Rightarrow> int \<times> 'c"
  mb_update :: "'c \<Rightarrow> bytes \<Rightarrow> int \<times> bytes \<times> 'c"
  mb_finish :: "'c \<Rightarrow> int \<times> bytes \<times> 'c"
  mb_write_tag :: "'c \<Rightarrow> nat \<Rightarrow> int \<times> bytes \<times> 'c"
  mb_check_tag :: "'c \<Rightarrow> bytes \<Rightarrow> int"

text \<open>
  The calls both functions begin with.  The key length handed to the library is \<open>sizeof(volkey)\<close>,
  256 bytes, which the library reads as 256 bits.
\<close>

definition cipher_start :: "'c mbedtls \<Rightarrow> mbedtls_operation \<Rightarrow> bytes \<Rightarrow> bytes \<Rightarrow> bytes \<Rightarrow> 'c option" where
  "cipher_start M op volkey iv aad =
     (if \<not> mb_cipher_info M then None
      else case mb_setup M of (r, ctx) \<Rightarrow> if r \<noteq> 0 then None
      else case mb_setkey M ctx volkey VOLKEYSIZE op of (r, ctx) \<Rightarrow> if r \<noteq> 0 then None
      else case mb_set_iv M ctx iv of (r, ctx) \<Rightarrow> if r \<noteq> 0 then None
      else case mb_reset M ctx of (r, ctx) \<Rightarrow> if r \<noteq> 0 then None
      else case mb_update_ad M ctx aad of (r, ctx) \<Rightarrow> if r \<noteq> 0 then None
      else Some ctx)"

text \<open>Results: success, the destination buffer, the tag buffer.\<close>

definition encrypt_buffer ::
    "'c mbedtls \<Rightarrow> bytes \<Rightarrow> bytes \<Rightarrow> bytes \<Rightarrow> bytes \<Rightarrow> bytes \<Rightarrow> bytes \<Rightarrow> bool \<times> bytes \<times> bytes" where
  "encrypt_buffer M volkey iv aad src dst tag =
     (if length dst < length src then (False, dst, tag)
      else case cipher_start M MBEDTLS_ENCRYPT volkey iv aad of None \<Rightarrow> (False, dst, tag)
      | Some ctx \<Rightarrow>
        case mb_update M ctx src of (r, out, ctx) \<Rightarrow>
        let dst = wr 0 out dst in if r \<noteq> 0 then (False, dst, tag)
      else case mb_finish M ctx of (r, out', ctx) \<Rightarrow>
        let dst = wr (length out) out' dst in if r \<noteq> 0 then (False, dst, tag)
      else case mb_write_tag M ctx (length tag) of (r, t, ctx) \<Rightarrow>
        let tag = wr 0 t tag in if r \<noteq> 0 then (False, dst, tag)
      else (True, dst, tag))"

text \<open>
  Results: success and the destination buffer, which holds the decrypted bytes also when the check
  of the tag fails.
\<close>

definition decrypt_buffer ::
    "'c mbedtls \<Rightarrow> bytes \<Rightarrow> bytes \<Rightarrow> bytes \<Rightarrow> bytes \<Rightarrow> bytes \<Rightarrow> bytes \<Rightarrow> bool \<times> bytes" where
  "decrypt_buffer M volkey iv aad src dst tag =
     (if length dst < length src then (False, dst)
      else case cipher_start M MBEDTLS_DECRYPT volkey iv aad of None \<Rightarrow> (False, dst)
      | Some ctx \<Rightarrow>
        case mb_update M ctx src of (r, out, ctx) \<Rightarrow>
        let dst = wr 0 out dst in if r \<noteq> 0 then (False, dst)
      else case mb_finish M ctx of (r, out', ctx) \<Rightarrow>
        let dst = wr (length out) out' dst in if r \<noteq> 0 then (False, dst)
      else if mb_check_tag M ctx tag \<noteq> 0 then (False, dst)
      else (True, dst))"

section \<open>What the library documents\<close>

definition gcm_run ::
    "'c mbedtls \<Rightarrow> mbedtls_operation \<Rightarrow> bytes \<Rightarrow> bytes \<Rightarrow> bytes \<Rightarrow> bytes \<Rightarrow> (bytes \<times> 'c) option" where
  "gcm_run M op key iv aad src =
     (case cipher_start M op key iv aad of None \<Rightarrow> None
      | Some ctx \<Rightarrow>
        case mb_update M ctx src of (r, out, ctx) \<Rightarrow> if r \<noteq> 0 then None
      else case mb_finish M ctx of (r, out', ctx) \<Rightarrow> if r \<noteq> 0 then None
      else Some (out @ out', ctx))"

definition gcm_params :: "bytes \<Rightarrow> bytes \<Rightarrow> bytes \<Rightarrow> bytes \<Rightarrow> bool" where
  "gcm_params key iv aad src \<longleftrightarrow>
     length key = VOLKEYSIZE \<and> length iv = 12 \<and> length aad = 16 \<and> length src < 2 ^ 32"

definition gcm_ct :: "'c mbedtls \<Rightarrow> bytes \<Rightarrow> bytes \<Rightarrow> bytes \<Rightarrow> bytes \<Rightarrow> bytes" where
  "gcm_ct M key iv aad p = fst (the (gcm_run M MBEDTLS_ENCRYPT key iv aad p))"

definition gcm_pt :: "'c mbedtls \<Rightarrow> bytes \<Rightarrow> bytes \<Rightarrow> bytes \<Rightarrow> bytes \<Rightarrow> bytes" where
  "gcm_pt M key iv aad c = fst (the (gcm_run M MBEDTLS_DECRYPT key iv aad c))"

definition gcm_tag :: "'c mbedtls \<Rightarrow> bytes \<Rightarrow> bytes \<Rightarrow> bytes \<Rightarrow> bytes \<Rightarrow> bytes" where
  "gcm_tag M key iv aad p =
     fst (snd (mb_write_tag M (snd (the (gcm_run M MBEDTLS_ENCRYPT key iv aad p))) 16))"

definition gcm_lawful :: "'c mbedtls \<Rightarrow> bool" where
  "gcm_lawful M \<longleftrightarrow> (\<forall>key iv aad src. gcm_params key iv aad src \<longrightarrow>
     (\<exists>c ctx ctx'. gcm_run M MBEDTLS_ENCRYPT key iv aad src = Some (c, ctx) \<and> length c = length src \<and>
        mb_write_tag M ctx 16 = (0, gcm_tag M key iv aad src, ctx') \<and>
        length (gcm_tag M key iv aad src) = 16 \<and> gcm_pt M key iv aad c = src) \<and>
     (\<exists>p ctx. gcm_run M MBEDTLS_DECRYPT key iv aad src = Some (p, ctx) \<and> length p = length src \<and>
        gcm_ct M key iv aad p = src \<and>
        (\<forall>t. length t = 16 \<longrightarrow> (mb_check_tag M ctx t = 0 \<longleftrightarrow> t = gcm_tag M key iv aad p))))"

section \<open>The contract of the two functions\<close>

text \<open>
  An authenticated channel: sealing a plaintext gives its ciphertext and its tag, opening gives the
  plaintext of a ciphertext and accepts exactly the tag of that plaintext.
\<close>

locale sealed_channel =
  fixes seal :: "'m \<Rightarrow> bytes \<Rightarrow> bytes \<Rightarrow> bytes \<Rightarrow> bytes \<Rightarrow> bytes \<Rightarrow> bytes \<Rightarrow> bool \<times> bytes \<times> bytes"
    and unseal :: "'m \<Rightarrow> bytes \<Rightarrow> bytes \<Rightarrow> bytes \<Rightarrow> bytes \<Rightarrow> bytes \<Rightarrow> bytes \<Rightarrow> bool \<times> bytes"
    and ct pt tg :: "'m \<Rightarrow> bytes \<Rightarrow> bytes \<Rightarrow> bytes \<Rightarrow> bytes \<Rightarrow> bytes"
    and lawful :: "'m \<Rightarrow> bool"
    and params :: "bytes \<Rightarrow> bytes \<Rightarrow> bytes \<Rightarrow> bytes \<Rightarrow> bool"
  assumes seal_eq: "lawful M \<Longrightarrow> params key iv aad src \<Longrightarrow> length src \<le> length dst \<Longrightarrow> length tag = 16 \<Longrightarrow>
      seal M key iv aad src dst tag = (True, wr 0 (ct M key iv aad src) dst, tg M key iv aad src)"
    and unseal_eq: "lawful M \<Longrightarrow> params key iv aad src \<Longrightarrow> length src \<le> length dst \<Longrightarrow> length tag = 16 \<Longrightarrow>
      unseal M key iv aad src dst tag =
        (tag = tg M key iv aad (pt M key iv aad src), wr 0 (pt M key iv aad src) dst)"
    and ct_pt: "lawful M \<Longrightarrow> params key iv aad src \<Longrightarrow> ct M key iv aad (pt M key iv aad src) = src"
    and pt_ct: "lawful M \<Longrightarrow> params key iv aad src \<Longrightarrow> pt M key iv aad (ct M key iv aad src) = src"
    and length_ct: "lawful M \<Longrightarrow> params key iv aad src \<Longrightarrow> length (ct M key iv aad src) = length src"
    and length_pt: "lawful M \<Longrightarrow> params key iv aad src \<Longrightarrow> length (pt M key iv aad src) = length src"
    and length_tg: "lawful M \<Longrightarrow> params key iv aad src \<Longrightarrow> length (tg M key iv aad src) = 16"
    and params_cong: "length src = length src' \<Longrightarrow> params key iv aad src \<longleftrightarrow> params key iv aad src'"
begin

lemma unseal_seal:
  assumes M: "lawful M" and p: "params key iv aad src" and "length src \<le> length dst"
  shows "unseal M key iv aad (ct M key iv aad src) dst (tg M key iv aad src) = (True, wr 0 src dst)"
proof -
  have "params key iv aad (ct M key iv aad src)"
    using params_cong [OF length_ct [OF M p]] p by simp
  then show ?thesis
    using assms by (simp add: unseal_eq length_tg length_ct pt_ct)
qed

text \<open>What is accepted has been sealed: the ciphertext and the tag are those of the plaintext.\<close>

lemma unseal_accepts:
  assumes M: "lawful M" and p: "params key iv aad src" and "length src \<le> length dst"
    and "length tag = 16" and "unseal M key iv aad src dst tag = (True, out)"
  shows "\<exists>pl. length pl = length src \<and> out = wr 0 pl dst \<and> src = ct M key iv aad pl \<and> tag = tg M key iv aad pl"
  using assms by (intro exI [of _ "pt M key iv aad src"]) (simp add: unseal_eq ct_pt length_pt)

lemma ct_inject:
  assumes "lawful M" "params key iv aad p" "params key iv aad q" "ct M key iv aad p = ct M key iv aad q"
  shows "p = q"
  using assms by (metis pt_ct)

end

lemma gcm_encD:
  assumes "gcm_lawful M" and "gcm_params key iv aad src"
  shows "\<exists>ctx ctx'. gcm_run M MBEDTLS_ENCRYPT key iv aad src = Some (gcm_ct M key iv aad src, ctx) \<and>
      mb_write_tag M ctx 16 = (0, gcm_tag M key iv aad src, ctx')"
    and "length (gcm_ct M key iv aad src) = length src"
    and "length (gcm_tag M key iv aad src) = 16"
    and "gcm_pt M key iv aad (gcm_ct M key iv aad src) = src"
  using assms unfolding gcm_lawful_def
  by (fastforce simp: gcm_ct_def)+

lemma gcm_decD:
  assumes "gcm_lawful M" and "gcm_params key iv aad src"
  shows "\<exists>ctx. gcm_run M MBEDTLS_DECRYPT key iv aad src = Some (gcm_pt M key iv aad src, ctx) \<and>
      (\<forall>t. length t = 16 \<longrightarrow>
        (mb_check_tag M ctx t = 0 \<longleftrightarrow> t = gcm_tag M key iv aad (gcm_pt M key iv aad src)))"
    and "length (gcm_pt M key iv aad src) = length src"
    and "gcm_ct M key iv aad (gcm_pt M key iv aad src) = src"
  using assms unfolding gcm_lawful_def
  by (fastforce simp: gcm_pt_def)+

lemma gcm_runE:
  assumes "gcm_run M op key iv aad src = Some (out, ctx)"
  obtains ctx0 o1 ctx1 o2 where "cipher_start M op key iv aad = Some ctx0"
    and "mb_update M ctx0 src = (0, o1, ctx1)" and "mb_finish M ctx1 = (0, o2, ctx)" and "out = o1 @ o2"
  using assms by (auto simp: gcm_run_def split: option.splits prod.splits if_splits)

lemma encrypt_buffer_eq:
  assumes "gcm_lawful M" and "gcm_params key iv aad src" and "length src \<le> length dst"
    and "length tag = 16"
  shows "encrypt_buffer M key iv aad src dst tag =
    (True, wr 0 (gcm_ct M key iv aad src) dst, gcm_tag M key iv aad src)"
proof -
  note enc = gcm_encD [OF assms(1,2)]
  from enc(1) obtain ctx ctx' where run: "gcm_run M MBEDTLS_ENCRYPT key iv aad src = Some (gcm_ct M key iv aad src, ctx)"
    and tag: "mb_write_tag M ctx 16 = (0, gcm_tag M key iv aad src, ctx')" by blast
  from run obtain ctx0 o1 ctx1 o2 where steps: "cipher_start M MBEDTLS_ENCRYPT key iv aad = Some ctx0"
    "mb_update M ctx0 src = (0, o1, ctx1)" "mb_finish M ctx1 = (0, o2, ctx)"
    and out: "gcm_ct M key iv aad src = o1 @ o2" by (rule gcm_runE)
  have "wr (0 + length o1) o2 (wr 0 o1 dst) = wr 0 (o1 @ o2) dst"
    using enc(2) out assms(3) by (intro wr_wr_adjacent) simp_all
  then show ?thesis
    using assms(3,4) steps tag enc(3) out by (simp add: encrypt_buffer_def Let_def)
qed

lemma decrypt_buffer_eq:
  assumes "gcm_lawful M" and "gcm_params key iv aad src" and "length src \<le> length dst"
    and "length tag = 16"
  shows "decrypt_buffer M key iv aad src dst tag =
    (tag = gcm_tag M key iv aad (gcm_pt M key iv aad src), wr 0 (gcm_pt M key iv aad src) dst)"
proof -
  note dec = gcm_decD [OF assms(1,2)]
  from dec(1) obtain ctx where run: "gcm_run M MBEDTLS_DECRYPT key iv aad src = Some (gcm_pt M key iv aad src, ctx)"
    and chk: "mb_check_tag M ctx tag = 0 \<longleftrightarrow> tag = gcm_tag M key iv aad (gcm_pt M key iv aad src)"
    using assms(4) by blast
  from run obtain ctx0 o1 ctx1 o2 where steps: "cipher_start M MBEDTLS_DECRYPT key iv aad = Some ctx0"
    "mb_update M ctx0 src = (0, o1, ctx1)" "mb_finish M ctx1 = (0, o2, ctx)"
    and out: "gcm_pt M key iv aad src = o1 @ o2" by (rule gcm_runE)
  have "wr (0 + length o1) o2 (wr 0 o1 dst) = wr 0 (o1 @ o2) dst"
    using dec(2) out assms(3) by (intro wr_wr_adjacent) simp_all
  then show ?thesis
    using assms(3) steps chk out by (simp add: decrypt_buffer_def Let_def)
qed

interpretation gcm: sealed_channel encrypt_buffer decrypt_buffer gcm_ct gcm_pt gcm_tag gcm_lawful gcm_params
  by unfold_locales
    (simp_all add: encrypt_buffer_eq decrypt_buffer_eq gcm_encD gcm_decD gcm_params_def)

end
