(* ===== verification/Host.thy ===== *)
theory Host
  imports Crypto
begin

text \<open>
  The untrusted side: the backend \<open>LocalStorage\<close> (\<^verbatim>\<open>app/backend/local.cpp\<close>) and the
  functions the enclave calls outside (\<^verbatim>\<open>app/ocall.cpp\<close>).  The file system below
  \<open>base_dir\<close> is a map from file names to contents.

  Whatever the repository does not decide is a parameter in the record \<open>env\<close>: the cipher library,
  random bytes, the contents of fresh memory, the bounded copy of the SGX library, whether a
  transition out of the enclave succeeds, whether a file operation succeeds and how many bytes of a
  write reach the file.  Outcomes are indexed by \<open>clock\<close>, which counts the calls made so far, so
  that no two calls are bound to fail or succeed together; random bytes are indexed by \<open>rnd\<close>.
\<close>

record 'c env =
  mbed :: "'c mbedtls"
  read_rand :: "nat \<Rightarrow> nat \<Rightarrow> bytes"
  new_bytes :: "nat \<Rightarrow> nat \<Rightarrow> bytes"
  memcpy_verw_s :: "bytes \<Rightarrow> nat \<Rightarrow> bytes \<Rightarrow> nat \<Rightarrow> bytes"
  sgx_ok :: "nat \<Rightarrow> bool"
  fs_open_w :: "nat \<Rightarrow> bool"
  fs_written :: "nat \<Rightarrow> nat \<Rightarrow> nat"
  fs_open_r :: "nat \<Rightarrow> bool"
  fs_stat :: "nat \<Rightarrow> bool"
  fs_remove :: "nat \<Rightarrow> bool"

record host =
  files :: "string \<rightharpoonup> bytes"
  clock :: nat
  rnd :: nat

definition tick :: "'x host_scheme \<Rightarrow> 'x host_scheme" where
  "tick w = w\<lparr>clock := Suc (clock w)\<rparr>"

text \<open>Memory from \<open>new uint8_t[n]\<close>, which is not initialised.\<close>

definition alloc :: "'c env \<Rightarrow> nat \<Rightarrow> 'x host_scheme \<Rightarrow> bytes \<times> 'x host_scheme" where
  "alloc e n w = (new_bytes e (clock w) n, tick w)"

definition UUID_gen_rand :: "'c env \<Rightarrow> 'x host_scheme \<Rightarrow> uuid \<times> 'x host_scheme" where
  "UUID_gen_rand e w = (UUID_load (read_rand e (rnd w) 16), w\<lparr>rnd := Suc (rnd w)\<rparr>)"

section \<open>The local backend\<close>

text \<open>
  The stream is opened with truncation, then written; the outcome of the write is not examined, so
  the result is the requested size also when fewer bytes have reached the file.
\<close>

definition LocalStorage_set_content ::
    "'c env \<Rightarrow> string \<Rightarrow> bytes \<Rightarrow> 'x host_scheme \<Rightarrow> int \<times> 'x host_scheme" where
  "LocalStorage_set_content e fname buf w =
     (if \<not> fs_open_w e (clock w) then (- 1, tick w)
      else (int (length buf), (tick w)\<lparr>files :=
        (files w)(fname \<mapsto> take (fs_written e (clock w) (length buf)) buf)\<rparr>))"

definition LocalStorage_get_content ::
    "'c env \<Rightarrow> string \<Rightarrow> nat \<Rightarrow> 'x host_scheme \<Rightarrow> (int \<times> bytes) \<times> 'x host_scheme" where
  "LocalStorage_get_content e fname sz w =
     (case files w fname of
        Some content \<Rightarrow>
          if fs_open_r e (clock w)
          then ((int (length (take sz content)), take sz content), tick w)
          else ((- 1, []), tick w)
      | None \<Rightarrow> ((- 1, []), tick w))"

definition LocalStorage_get_size :: "'c env \<Rightarrow> string \<Rightarrow> 'x host_scheme \<Rightarrow> int \<times> 'x host_scheme" where
  "LocalStorage_get_size e fname w =
     (case files w fname of
        Some content \<Rightarrow> (if fs_stat e (clock w) then int (length content) else - 1, tick w)
      | None \<Rightarrow> (- 1, tick w))"

definition LocalStorage_remove_file :: "'c env \<Rightarrow> string \<Rightarrow> 'x host_scheme \<Rightarrow> bool \<times> 'x host_scheme" where
  "LocalStorage_remove_file e fname w =
     (if files w fname \<noteq> None \<and> fs_remove e (clock w)
      then (True, (tick w)\<lparr>files := (files w)(fname := None)\<rparr>)
      else (False, tick w))"

section \<open>Calls out of the enclave\<close>

text \<open>
  The results are the size and the contents handed to the enclave.  After \<open>get_content\<close> the code
  tests \<open>*size\<close> once more and not \<open>getsize\<close>; a failed read therefore ends with the size
  \<^term>\<open>- 1 :: int\<close> through the last assignment.
\<close>

definition ocall_load_file ::
    "'c env \<Rightarrow> string \<Rightarrow> 'x host_scheme \<Rightarrow> (int \<times> bytes) \<times> 'x host_scheme" where
  "ocall_load_file e fname w =
     (case LocalStorage_get_size e fname w of (sz, w) \<Rightarrow>
        if sz < 0 then ((- 1, []), w)
        else case LocalStorage_get_content e fname (nat sz) w of ((getsize, content), w) \<Rightarrow>
          if sz < 0 then ((- 1, []), w) else ((getsize, content), w))"

definition ocall_save_file :: "'c env \<Rightarrow> string \<Rightarrow> bytes \<Rightarrow> 'x host_scheme \<Rightarrow> 'x host_scheme" where
  "ocall_save_file e fname content w = snd (LocalStorage_set_content e fname content w)"

definition ocall_remove_file :: "'c env \<Rightarrow> string \<Rightarrow> 'x host_scheme \<Rightarrow> int \<times> 'x host_scheme" where
  "ocall_remove_file e fname w =
     (case LocalStorage_remove_file e fname w of (ok, w) \<Rightarrow> (if ok then 0 else 1, w))"

text \<open>The transition of an ocall, whose status the enclave examines.\<close>

definition sgx_enter :: "'c env \<Rightarrow> 'x host_scheme \<Rightarrow> bool \<times> 'x host_scheme" where
  "sgx_enter e w = (sgx_ok e (clock w), tick w)"

section \<open>A reliable host, a lawful environment\<close>

definition host_reliable :: "'c env \<Rightarrow> bool" where
  "host_reliable e \<longleftrightarrow> (\<forall>t. sgx_ok e t \<and> fs_open_w e t \<and> fs_open_r e t \<and> fs_stat e t \<and>
     fs_remove e t \<and> (\<forall>n. fs_written e t n = n))"

definition env_lawful :: "'c env \<Rightarrow> bool" where
  "env_lawful e \<longleftrightarrow> gcm_lawful (mbed e) \<and>
     (\<forall>t n. length (read_rand e t n) = n \<and> length (new_bytes e t n) = n) \<and>
     (\<forall>dst dmax src count. count \<le> dmax \<and> dmax \<le> length dst \<and> count \<le> length src \<longrightarrow>
        memcpy_verw_s e dst dmax src count = take count src @ drop count dst)"

lemma env_lawfulD:
  assumes "env_lawful e"
  shows "gcm_lawful (mbed e)" "length (read_rand e t n) = n" "length (new_bytes e t n) = n"
    "count \<le> dmax \<Longrightarrow> dmax \<le> length dst \<Longrightarrow> count \<le> length src \<Longrightarrow>
      memcpy_verw_s e dst dmax src count = take count src @ drop count dst"
  using assms by (simp_all add: env_lawful_def)

section \<open>The contract of the store\<close>

text \<open>
  What the enclave may rely on when the host is reliable: contents are returned as they were
  written, and a call concerns the named file only.
\<close>

locale blob_store =
  fixes put :: "'e \<Rightarrow> string \<Rightarrow> bytes \<Rightarrow> 's \<Rightarrow> 's"
    and get :: "'e \<Rightarrow> string \<Rightarrow> 's \<Rightarrow> (int \<times> bytes) \<times> 's"
    and del :: "'e \<Rightarrow> string \<Rightarrow> 's \<Rightarrow> int \<times> 's"
    and contents :: "'s \<Rightarrow> string \<rightharpoonup> bytes"
    and reliable :: "'e \<Rightarrow> bool"
  assumes put_contents: "reliable e \<Longrightarrow> contents (put e f b s) = (contents s)(f \<mapsto> b)"
    and get_present: "reliable e \<Longrightarrow> contents s f = Some b \<Longrightarrow> fst (get e f s) = (int (length b), b)"
    and get_absent: "contents s f = None \<Longrightarrow> fst (get e f s) = (- 1, [])"
    and get_sound: "fst (get e f s) = (n, b) \<Longrightarrow> 0 \<le> n \<Longrightarrow>
      contents s f = Some b \<and> n = int (length b)"
    and get_frame: "contents (snd (get e f s)) = contents s"
    and del_contents: "reliable e \<Longrightarrow> contents s f \<noteq> None \<Longrightarrow>
      fst (del e f s) = 0 \<and> contents (snd (del e f s)) = (contents s)(f := None)"
    and del_absent: "contents s f = None \<Longrightarrow> fst (del e f s) = 1 \<and> contents (snd (del e f s)) = contents s"
    and put_other: "g \<noteq> f \<Longrightarrow> contents (put e f b s) g = contents s g"
    and del_other: "g \<noteq> f \<Longrightarrow> contents (snd (del e f s)) g = contents s g"
begin

lemma get_put:
  assumes "reliable e"
  shows "fst (get e f (put e f b s)) = (int (length b), b)"
  using assms by (intro get_present) (simp_all add: put_contents)

lemma get_put_other:
  assumes "reliable e" and "contents s g = Some b'" and "g \<noteq> f"
  shows "fst (get e g (put e f b s)) = (int (length b'), b')"
  using assms by (intro get_present) (simp_all add: put_contents)

lemma get_del:
  assumes "reliable e" and "contents s f \<noteq> None"
  shows "fst (get e f (snd (del e f s))) = (- 1, [])"
  using del_contents [OF assms] by (intro get_absent) simp

end

lemma tick_simps [simp]:
  "files (tick w) = files w" "rnd (tick w) = rnd w" "clock (tick w) = Suc (clock w)"
  "host.more (tick w) = host.more w"
  by (simp_all add: tick_def)

lemma ocall_load_file_eq:
  "ocall_load_file e f w =
    (case files w f of
       None \<Rightarrow> ((- 1, []), tick w)
     | Some c \<Rightarrow> if \<not> fs_stat e (clock w) then ((- 1, []), tick w)
         else if \<not> fs_open_r e (Suc (clock w)) then ((- 1, []), tick (tick w))
         else ((int (length c), c), tick (tick w)))"
  by (simp add: ocall_load_file_def LocalStorage_get_size_def LocalStorage_get_content_def
      split: option.splits)

interpretation store: blob_store ocall_save_file ocall_load_file ocall_remove_file files host_reliable
proof
  fix e :: "'c env" and s :: "'x host_scheme" and f :: string and n b
  assume "fst (ocall_load_file e f s) = (n, b)" and "0 \<le> n"
  then show "files s f = Some b \<and> n = int (length b)"
    by (auto simp: ocall_load_file_eq split: option.splits if_splits)
qed (auto simp: ocall_load_file_eq ocall_save_file_def ocall_remove_file_def host_reliable_def
    LocalStorage_set_content_def LocalStorage_remove_file_def split: option.splits if_splits)

end
