(* ===== verification/Superinfo.thy ===== *)
theory Superinfo
  imports Metadata
begin

text \<open>
  Class \<open>Superinfo\<close> (\<^verbatim>\<open>enclave/superinfo.cpp\<close>): the root metadata object of a volume and
  its image, the struct \<open>superinfo_buffer_t\<close> of 104 bytes (fields at offsets 0, 16, 32, 64, 96).
\<close>

record Superinfo = metadata +
  si_root_dirnode :: uuid
  si_user_table :: uuid
  si_hash_root_dirnode :: "256 word"
  si_hash_user_table :: "256 word"
  si_max_ino :: ino_t

definition sizeof_superinfo :: nat where "sizeof_superinfo = 104"

definition Superinfo_load :: "Superinfo \<Rightarrow> bytes \<Rightarrow> (bool \<times> Superinfo) option" where
  "Superinfo_load si obuf =
     (if length obuf \<noteq> sizeof_superinfo then Some (False, si)
      else Some (True, si\<lparr>
        si_root_dirnode := UUID_load (rd 0 16 obuf),
        si_user_table := UUID_load (rd 16 16 obuf),
        si_hash_root_dirnode := le_word (rd 32 32 obuf),
        si_hash_user_table := le_word (rd 64 32 obuf),
        si_max_ino := le_word (rd 96 8 obuf)\<rparr>))"

definition Superinfo_dump :: "Superinfo \<Rightarrow> bytes option \<Rightarrow> size_t \<Rightarrow> size_t \<times> bytes option" where
  "Superinfo_dump si buf bsize =
     (let rqsize = of_nat sizeof_superinfo in
      case buf of
        None \<Rightarrow> (rqsize, None)
      | Some obuf \<Rightarrow>
          if bsize < rqsize then (0, Some obuf)
          else (rqsize, Some
            (wr 96 (le_bytes 8 (si_max_ino si))
            (wr 64 (le_bytes 32 (si_hash_user_table si))
            (wr 32 (le_bytes 32 (si_hash_root_dirnode si))
            (wr 16 (UUID_dump (si_user_table si))
            (wr 0 (UUID_dump (si_root_dirnode si)) obuf)))))))"

text \<open>A blank object that agrees with \<open>m\<close> on what an image does not hold.\<close>

definition Superinfo_fresh :: "Superinfo \<Rightarrow> Superinfo \<Rightarrow> bool" where
  "Superinfo_fresh m0 m \<longleftrightarrow> md_uuid m0 = md_uuid m"

lemma Superinfo_load_dump:
  assumes "Superinfo_fresh m0 m" and "length obuf = 104"
    and "img = wr 96 (le_bytes 8 (si_max_ino m)) (wr 64 (le_bytes 32 (si_hash_user_table m))
      (wr 32 (le_bytes 32 (si_hash_root_dirnode m)) (wr 16 (UUID_dump (si_user_table m))
      (wr 0 (UUID_dump (si_root_dirnode m)) obuf))))"
  shows "Superinfo_load m0 img = Some (True, m)"
proof -
  have "length img = 104" using assms(2,3) by (simp add: buf_simps)
  moreover have "UUID_load (rd 0 16 img) = si_root_dirnode m"
    "UUID_load (rd 16 16 img) = si_user_table m"
    "le_word (rd 32 32 img) = si_hash_root_dirnode m"
    "le_word (rd 64 32 img) = si_hash_user_table m"
    "le_word (rd 96 8 img) = si_max_ino m"
    using assms(2,3) by (simp_all add: buf_simps)
  ultimately show ?thesis
    using assms(1) by (simp add: Superinfo_load_def sizeof_superinfo_def Superinfo_fresh_def)
qed

interpretation superinfo: metadata_codec Superinfo_dump Superinfo_load "\<lambda>_. True" Superinfo_fresh
  "\<lambda>_. sizeof_superinfo"
proof
  fix m :: Superinfo and buf :: bytes
  assume "length buf = sizeof_superinfo"
  then show "\<exists>img. Superinfo_dump m (Some buf) (of_nat (length buf)) = (of_nat sizeof_superinfo, Some img) \<and>
      length img = sizeof_superinfo \<and> (\<forall>m0. Superinfo_fresh m0 m \<longrightarrow> Superinfo_load m0 img = Some (True, m))"
    using Superinfo_load_dump [of _ m buf, OF _ _ refl]
    by (simp add: Superinfo_dump_def sizeof_superinfo_def buf_simps)
qed (simp_all add: Superinfo_dump_def sizeof_superinfo_def)

end
