(* ===== verification/Dirnode.thy ===== *)
theory Dirnode
  imports Metadata
begin

text \<open>
  Classes \<open>Dirent\<close> and \<open>Dirnode\<close> (\<^verbatim>\<open>enclave/dirnode.cpp\<close>).  An image is a
  \<open>dirnode_buffer_t\<close> (inode number at 0, name at 8, entry count at 264, entries from 272 on),
  followed by \<open>dirent_t\<close> structs of 288 bytes (name at 0, UUID at 256, inode number at 272, type
  at 280, four bytes of padding).

  A name is written with at most 256 bytes and no terminating zero of its own, and read as a C
  string: the round trip needs names of at most 255 characters, which the lemmas state.
\<close>

record Dirent =
  de_ino :: ino_t
  de_name :: string
  de_type :: "32 word"
  de_uuid :: uuid

record dirnode = inode +
  dn_name :: string
  dn_dirent :: "Dirent list"

definition sizeof_dirnode_buffer :: nat where "sizeof_dirnode_buffer = 272"

definition sizeof_dirent :: nat where "sizeof_dirent = 288"

text \<open>The constructor \<open>Dirent(const dirent_t*)\<close>, reading a struct at offset \<open>off\<close>.\<close>

definition Dirent_ctor :: "nat \<Rightarrow> bytes \<Rightarrow> Dirent option" where
  "Dirent_ctor off buf =
     (if length buf < off + sizeof_dirent then None
      else do {
        name \<leftarrow> c_string off buf;
        Some \<lparr>de_ino = le_word (rd (off + 272) 8 buf), de_name = name,
          de_type = le_word (rd (off + 280) 4 buf), de_uuid = UUID_load (rd (off + 256) 16 buf)\<rparr>
      })"

definition Dirent_dump :: "Dirent \<Rightarrow> nat \<Rightarrow> bytes \<Rightarrow> bytes" where
  "Dirent_dump d off buf =
     wr (off + 256) (UUID_dump (de_uuid d))
     (wr (off + 280) (le_bytes 4 (de_type d))
     (wr off (str_bytes (take MAX_PATH_LEN (de_name d)))
     (wr off (replicate MAX_PATH_LEN 0)
     (wr (off + 272) (le_bytes 8 (de_ino d)) buf))))"

fun Dirnode_load_entries :: "nat \<Rightarrow> nat \<Rightarrow> bytes \<Rightarrow> Dirent list option" where
  "Dirnode_load_entries i 0 buf = Some []"
| "Dirnode_load_entries i (Suc n) buf = do {
     d \<leftarrow> Dirent_ctor (sizeof_dirnode_buffer + sizeof_dirent * i) buf;
     ds \<leftarrow> Dirnode_load_entries (Suc i) n buf;
     Some (d # ds)
   }"

text \<open>
  \<open>load\<close> reads the entry count before it compares sizes, so a buffer shorter than the header is
  read out of bounds.  The product and sum of the required size are computed in \<open>size_t\<close>.
\<close>

definition Dirnode_load :: "dirnode \<Rightarrow> bytes \<Rightarrow> (bool \<times> dirnode) option" where
  "Dirnode_load dn obuf =
     (if length obuf < sizeof_dirnode_buffer then None
      else let entnum = le_word (rd 264 8 obuf) :: size_t;
               rqsize = of_nat sizeof_dirnode_buffer + of_nat sizeof_dirent * entnum
      in if of_nat (length obuf) \<noteq> rqsize then Some (False, dn)
      else do {
        name \<leftarrow> c_string 8 obuf;
        entries \<leftarrow> Dirnode_load_entries 0 (unat entnum) obuf;
        Some (True, dn\<lparr>dn_name := name, dn_dirent := entries, in_ino := le_word (rd 0 8 obuf)\<rparr>)
      })"

fun Dirnode_dump_entries :: "nat \<Rightarrow> Dirent list \<Rightarrow> bytes \<Rightarrow> bytes" where
  "Dirnode_dump_entries i [] buf = buf"
| "Dirnode_dump_entries i (d # ds) buf =
     Dirnode_dump_entries (Suc i) ds (Dirent_dump d (sizeof_dirnode_buffer + sizeof_dirent * i) buf)"

definition Dirnode_dump :: "dirnode \<Rightarrow> bytes option \<Rightarrow> size_t \<Rightarrow> size_t \<times> bytes option" where
  "Dirnode_dump dn buf bsize =
     (let rqsize = of_nat sizeof_dirnode_buffer + of_nat sizeof_dirent * of_nat (length (dn_dirent dn)) in
      case buf of
        None \<Rightarrow> (rqsize, None)
      | Some obuf \<Rightarrow>
          if bsize < rqsize then (0, Some obuf)
          else (rqsize, Some
            (Dirnode_dump_entries 0 (dn_dirent dn)
            (wr 264 (le_bytes 8 (of_nat (length (dn_dirent dn)) :: size_t))
            (wr 8 (str_bytes (take (MAX_PATH_LEN - 1) (dn_name dn)))
            (wr 8 (replicate MAX_PATH_LEN 0)
            (wr 0 (le_bytes 8 (in_ino dn)) obuf)))))))"

fun count_subdirs :: "Dirent list \<Rightarrow> size_t \<Rightarrow> size_t" where
  "count_subdirs [] cnt = cnt"
| "count_subdirs (d # ds) cnt = count_subdirs ds (if de_type d = T_DT_DIR then cnt + 1 else cnt)"

definition Dirnode_nlink :: "dirnode \<Rightarrow> size_t" where
  "Dirnode_nlink dn = count_subdirs (dn_dirent dn) 2"

definition Dirnode_dump_stat :: "dirnode \<Rightarrow> stat_buffer_t" where
  "Dirnode_dump_stat dn = \<lparr>st_ino = in_ino dn, st_mode = T_ST_DIR, st_nlink = Dirnode_nlink dn,
     st_size = fst (Dirnode_dump dn None 0)\<rparr>"

definition Dirnode_ctor :: "uuid \<Rightarrow> ino_t \<Rightarrow> dirnode" where
  "Dirnode_ctor u junk = inode.extend (Inode_ctor u junk) \<lparr>dn_name = [], dn_dirent = []\<rparr>"

section \<open>Round trip of one entry\<close>

definition Dirent_storable :: "Dirent \<Rightarrow> bool" where
  "Dirent_storable d \<longleftrightarrow> no_nul (de_name d) \<and> length (de_name d) < MAX_PATH_LEN"

lemma length_Dirent_dump [simp]:
  "off + sizeof_dirent \<le> length buf \<Longrightarrow> length (Dirent_dump d off buf) = length buf"
  by (simp add: Dirent_dump_def sizeof_dirent_def MAX_PATH_LEN_def buf_simps)

lemma rd_Dirent_dump_before:
  "off + sizeof_dirent \<le> length buf \<Longrightarrow> o' + n \<le> off \<Longrightarrow> rd o' n (Dirent_dump d off buf) = rd o' n buf"
  by (simp add: Dirent_dump_def sizeof_dirent_def MAX_PATH_LEN_def buf_simps)

lemma rd_Dirent_dump_fields:
  assumes "off + sizeof_dirent \<le> length buf"
  shows "rd (off + 272) 8 (Dirent_dump d off buf) = le_bytes 8 (de_ino d)"
    and "rd (off + 280) 4 (Dirent_dump d off buf) = le_bytes 4 (de_type d)"
    and "rd (off + 256) 16 (Dirent_dump d off buf) = UUID_dump (de_uuid d)"
    and "rd off 256 (Dirent_dump d off buf) =
      str_bytes (take 256 (de_name d)) @ replicate (256 - length (take 256 (de_name d))) 0"
  using assms by (simp_all add: Dirent_dump_def sizeof_dirent_def MAX_PATH_LEN_def buf_simps)

text \<open>Only the 288 bytes of the struct matter for reading it back.\<close>

lemma Dirent_ctor_dump:
  assumes d: "Dirent_storable d" and buf: "off + sizeof_dirent \<le> length buf"
    and buf': "off + sizeof_dirent \<le> length buf'"
    and same: "rd off sizeof_dirent buf' = rd off sizeof_dirent (Dirent_dump d off buf)"
  shows "Dirent_ctor off buf' = Some d"
proof -
  have sub: "rd (off + k) n buf' = rd (off + k) n (Dirent_dump d off buf)" if "k + n \<le> sizeof_dirent" for k n
    using same that by (rule rd_sub)
  have "rd off 256 buf' = str_bytes (de_name d) @ replicate (256 - length (de_name d)) 0"
    using sub [of 0 256] d rd_Dirent_dump_fields(4) [OF buf]
    by (simp add: sizeof_dirent_def Dirent_storable_def MAX_PATH_LEN_def)
  then have "c_string off buf' = Some (de_name d)"
    using d buf' by (intro c_string_padded [where n = "256 - length (de_name d)"])
      (simp_all add: Dirent_storable_def MAX_PATH_LEN_def rd_def)
  then show ?thesis
    using buf' sub [of 272 8] sub [of 280 4] sub [of 256 16] rd_Dirent_dump_fields [OF buf, of d]
    by (simp add: Dirent_ctor_def sizeof_dirent_def)
qed

section \<open>Round trip of a directory\<close>

lemma Dirnode_dump_entries_frame:
  assumes "sizeof_dirnode_buffer + sizeof_dirent * (i + length ds) \<le> length buf"
  shows "length (Dirnode_dump_entries i ds buf) = length buf \<and>
    (\<forall>o' n. o' + n \<le> sizeof_dirnode_buffer + sizeof_dirent * i \<longrightarrow>
      rd o' n (Dirnode_dump_entries i ds buf) = rd o' n buf)"
  using assms
proof (induction ds arbitrary: i buf)
  case (Cons d ds)
  let ?off = "sizeof_dirnode_buffer + sizeof_dirent * i"
  have fits: "?off + sizeof_dirent \<le> length buf"
    using Cons.prems by (simp add: sizeof_dirent_def)
  have "sizeof_dirnode_buffer + sizeof_dirent * (Suc i + length ds) \<le> length (Dirent_dump d ?off buf)"
    using Cons.prems fits by simp
  from Cons.IH [OF this] show ?case
    using fits by (simp add: rd_Dirent_dump_before)
qed simp

lemma Dirnode_load_dump_entries:
  assumes "sizeof_dirnode_buffer + sizeof_dirent * (i + length ds) \<le> length buf"
    and "\<forall>d\<in>set ds. Dirent_storable d"
  shows "Dirnode_load_entries i (length ds) (Dirnode_dump_entries i ds buf) = Some ds"
  using assms
proof (induction ds arbitrary: i buf)
  case (Cons d ds)
  let ?off = "sizeof_dirnode_buffer + sizeof_dirent * i"
  let ?buf = "Dirent_dump d ?off buf"
  have fits: "?off + sizeof_dirent \<le> length buf"
    using Cons.prems by (simp add: sizeof_dirent_def)
  have rest: "sizeof_dirnode_buffer + sizeof_dirent * (Suc i + length ds) \<le> length ?buf"
    using Cons.prems fits by simp
  from Dirnode_dump_entries_frame [OF rest]
  have "Dirent_ctor ?off (Dirnode_dump_entries (Suc i) ds ?buf) = Some d"
    using fits Cons.prems(2) by (intro Dirent_ctor_dump [OF _ fits]) simp_all
  with Cons.IH [OF rest] Cons.prems(2) show ?case by simp
qed simp

definition Dirnode_bytes :: "dirnode \<Rightarrow> nat" where
  "Dirnode_bytes dn = sizeof_dirnode_buffer + sizeof_dirent * length (dn_dirent dn)"

definition Dirnode_storable :: "dirnode \<Rightarrow> bool" where
  "Dirnode_storable dn \<longleftrightarrow> no_nul (dn_name dn) \<and> length (dn_name dn) < MAX_PATH_LEN \<and>
     (\<forall>d\<in>set (dn_dirent dn). Dirent_storable d) \<and> Dirnode_bytes dn < 2 ^ 32"

definition Dirnode_fresh :: "dirnode \<Rightarrow> dirnode \<Rightarrow> bool" where
  "Dirnode_fresh m0 m \<longleftrightarrow> md_uuid m0 = md_uuid m \<and> in_refcount m0 = in_refcount m"

lemma Dirnode_dump_image:
  assumes dn: "Dirnode_storable dn" and buf: "length obuf = Dirnode_bytes dn"
    and img: "img = Dirnode_dump_entries 0 (dn_dirent dn)
      (wr 264 (le_bytes 8 (of_nat (length (dn_dirent dn)) :: size_t))
      (wr 8 (str_bytes (take (MAX_PATH_LEN - 1) (dn_name dn)))
      (wr 8 (replicate MAX_PATH_LEN 0) (wr 0 (le_bytes 8 (in_ino dn)) obuf))))"
      (is "_ = Dirnode_dump_entries 0 _ ?hdr")
  shows "length img = Dirnode_bytes dn"
    and "rd 264 8 img = le_bytes 8 (of_nat (length (dn_dirent dn)) :: size_t)"
    and "c_string 8 img = Some (dn_name dn)"
    and "rd 0 8 img = le_bytes 8 (in_ino dn)"
    and "Dirnode_load_entries 0 (length (dn_dirent dn)) img = Some (dn_dirent dn)"
proof -
  have len: "272 \<le> length obuf"
    using buf by (simp add: Dirnode_bytes_def sizeof_dirnode_buffer_def)
  have hdr: "sizeof_dirnode_buffer + sizeof_dirent * (0 + length (dn_dirent dn)) \<le> length ?hdr"
    using buf len by (simp add: Dirnode_bytes_def MAX_PATH_LEN_def buf_simps)
  note frame = Dirnode_dump_entries_frame [OF hdr, folded img, unfolded sizeof_dirnode_buffer_def]
  show leni: "length img = Dirnode_bytes dn"
    using frame buf len by (simp add: MAX_PATH_LEN_def buf_simps)
  show "rd 264 8 img = le_bytes 8 (of_nat (length (dn_dirent dn)) :: size_t)"
    and "rd 0 8 img = le_bytes 8 (in_ino dn)"
    using frame len by (simp_all add: MAX_PATH_LEN_def buf_simps)
  have "rd 8 256 img = str_bytes (dn_name dn) @ replicate (256 - length (dn_name dn)) 0"
    using frame len dn by (simp add: MAX_PATH_LEN_def Dirnode_storable_def buf_simps)
  then show "c_string 8 img = Some (dn_name dn)"
    using dn len leni buf by (intro c_string_padded [where n = "256 - length (dn_name dn)"])
      (simp_all add: Dirnode_storable_def MAX_PATH_LEN_def rd_def)
  show "Dirnode_load_entries 0 (length (dn_dirent dn)) img = Some (dn_dirent dn)"
    unfolding img using dn hdr by (intro Dirnode_load_dump_entries) (simp_all add: Dirnode_storable_def)
qed

lemma Dirnode_rqsize:
  "(of_nat sizeof_dirnode_buffer + of_nat sizeof_dirent * of_nat (length (dn_dirent dn)) :: size_t) =
   of_nat (Dirnode_bytes dn)"
  by (simp add: Dirnode_bytes_def)

lemma Dirnode_entnum:
  "Dirnode_storable dn \<Longrightarrow> unat (of_nat (length (dn_dirent dn)) :: size_t) = length (dn_dirent dn)"
  by (simp add: Dirnode_storable_def Dirnode_bytes_def sizeof_dirent_def unat_of_nat take_bit_eq_mod)

interpretation dirnode: metadata_codec Dirnode_dump Dirnode_load Dirnode_storable Dirnode_fresh
  Dirnode_bytes
proof
  fix m :: dirnode and buf :: bytes
  assume m: "Dirnode_storable m" and buf: "length buf = Dirnode_bytes m"
  note image = Dirnode_dump_image [OF m buf refl]
  have "Dirnode_load m0 (the (snd (Dirnode_dump m (Some buf) (of_nat (length buf))))) = Some (True, m)"
    if "Dirnode_fresh m0 m" for m0
    using that image Dirnode_entnum [OF m]
    by (simp add: Dirnode_load_def Dirnode_dump_def Dirnode_rqsize [simplified] buf Let_def
        Dirnode_fresh_def Dirnode_bytes_def [of m] sizeof_dirnode_buffer_def)
  then show "\<exists>img. Dirnode_dump m (Some buf) (of_nat (length buf)) = (of_nat (Dirnode_bytes m), Some img) \<and>
      length img = Dirnode_bytes m \<and> (\<forall>m0. Dirnode_fresh m0 m \<longrightarrow> Dirnode_load m0 img = Some (True, m))"
    using image(1) by (simp add: Dirnode_dump_def Dirnode_rqsize buf)
qed (simp_all add: Dirnode_dump_def Dirnode_rqsize Dirnode_storable_def,
     simp add: Dirnode_bytes_def sizeof_dirnode_buffer_def)

end
