(* ===== verification/Keyed_List.thy ===== *)
theory Keyed_List
  imports Secfs_Prelude
begin

text \<open>
  The data structure under both chunk caches of the repository: a \<open>std::list\<close> together with an
  \<open>std::unordered_map\<close> from keys to iterators of the list.  A node of the list is a number paired
  with its value; the number plays the role of the iterator, stays the same while the node lives
  and is not used again.  Following an iterator to a node that has been erased is undefined.

  The locale \<open>chunk_queue\<close> is the contract the clients of such a cache use: a queue without
  duplicate keys from which a value can also be taken by key.
\<close>

record ('k, 'v) keyed_list =
  kl_nodes :: "(nat \<times> 'v) list"
  kl_map :: "'k \<rightharpoonup> nat"
  kl_next :: nat

definition kl_empty :: "('k, 'v) keyed_list" where
  "kl_empty = \<lparr>kl_nodes = [], kl_map = Map.empty, kl_next = 0\<rparr>"

definition kl_values :: "('k, 'v) keyed_list \<Rightarrow> 'v list" where
  "kl_values q = map snd (kl_nodes q)"

definition kl_deref :: "nat \<Rightarrow> ('k, 'v) keyed_list \<Rightarrow> 'v option" where
  "kl_deref i q = map_of (kl_nodes q) i"

text \<open>The iterator after a node, \<^term>\<open>None\<close> for \<open>end()\<close>.\<close>

fun node_after :: "nat \<Rightarrow> (nat \<times> 'v) list \<Rightarrow> nat option" where
  "node_after i [] = None"
| "node_after i [(j, v)] = None"
| "node_after i ((j, v) # (k, u) # ns) = (if i = j then Some k else node_after i ((k, u) # ns))"

fun node_insert :: "nat option \<Rightarrow> nat \<times> 'v \<Rightarrow> (nat \<times> 'v) list \<Rightarrow> (nat \<times> 'v) list" where
  "node_insert pos n [] = [n]"
| "node_insert pos n (m # ns) = (if pos = Some (fst m) then n # m # ns else m # node_insert pos n ns)"

text \<open>\<open>std::list::erase\<close> of one iterator; erasing a node that is gone is undefined.\<close>

definition kl_erase_node :: "nat \<Rightarrow> ('k, 'v) keyed_list \<Rightarrow> ('k, 'v) keyed_list option" where
  "kl_erase_node i q =
     (if kl_deref i q = None then None
      else Some (q\<lparr>kl_nodes := filter (\<lambda>n. fst n \<noteq> i) (kl_nodes q)\<rparr>))"

definition kl_erase_key :: "'k \<Rightarrow> ('k, 'v) keyed_list \<Rightarrow> ('k, 'v) keyed_list" where
  "kl_erase_key k q = q\<lparr>kl_map := (kl_map q)(k := None)\<rparr>"

text \<open>\<open>_map[k] = std::list::insert(pos, v)\<close>, with the new iterator as result.\<close>

definition kl_insert :: "nat option \<Rightarrow> 'k \<Rightarrow> 'v \<Rightarrow> ('k, 'v) keyed_list \<Rightarrow> (nat \<times> ('k, 'v) keyed_list) option" where
  "kl_insert pos k v q =
     (if (\<exists>i. pos = Some i \<and> kl_deref i q = None) then None
      else Some (kl_next q, q\<lparr>kl_nodes := node_insert pos (kl_next q, v) (kl_nodes q),
        kl_map := (kl_map q)(k \<mapsto> kl_next q), kl_next := Suc (kl_next q)\<rparr>))"

text \<open>The node that the map has for a key, if any, is erased.\<close>

definition kl_unlink :: "'k \<Rightarrow> ('k, 'v) keyed_list \<Rightarrow> ('k, 'v) keyed_list option" where
  "kl_unlink k q = (case kl_map q k of None \<Rightarrow> Some q | Some i \<Rightarrow> kl_erase_node i q)"

section \<open>Well-formed caches\<close>

text \<open>
  The map and the list agree: every node is reached by its key, every entry of the map leads to a
  node with that key.
\<close>

definition kl_inv :: "('v \<Rightarrow> 'k) \<Rightarrow> ('k, 'v) keyed_list \<Rightarrow> bool" where
  "kl_inv key q \<longleftrightarrow> distinct (map fst (kl_nodes q)) \<and>
     (\<forall>(i, v)\<in>set (kl_nodes q). i < kl_next q \<and> kl_map q (key v) = Some i) \<and>
     (\<forall>k i. kl_map q k = Some i \<longrightarrow> (\<exists>v. (i, v) \<in> set (kl_nodes q) \<and> key v = k))"

lemma kl_inv_empty [simp]: "kl_inv key kl_empty"
  by (simp add: kl_inv_def kl_empty_def)

lemma kl_inv_distinct_keys:
  assumes "kl_inv key q"
  shows "distinct (map key (kl_values q))"
proof -
  have "map (\<lambda>n. kl_map q (key (snd n))) (kl_nodes q) = map (\<lambda>n. Some (fst n)) (kl_nodes q)"
    using assms by (auto simp: kl_inv_def)
  then have "map (kl_map q) (map key (kl_values q)) = map Some (map fst (kl_nodes q))"
    by (simp add: kl_values_def comp_def)
  moreover have "distinct (map Some (map fst (kl_nodes q)))"
    using assms by (simp add: kl_inv_def distinct_map inj_on_def)
  ultimately show ?thesis by (metis distinct_map)
qed

lemma kl_inv_key_at:
  "kl_inv key q \<Longrightarrow> (i, v) \<in> set (kl_nodes q) \<Longrightarrow> kl_map q (key v) = Some i"
  by (auto simp: kl_inv_def)

lemma kl_inv_deref:
  "kl_inv key q \<Longrightarrow> kl_map q k = Some i \<Longrightarrow> \<exists>v. kl_deref i q = Some v \<and> key v = k \<and> (i, v) \<in> set (kl_nodes q)"
  by (force simp: kl_inv_def kl_deref_def intro: map_of_is_SomeI)

lemma kl_find:
  assumes "kl_inv key q"
  shows "find (\<lambda>v. key v = k) (kl_values q) = (case kl_map q k of None \<Rightarrow> None | Some i \<Rightarrow> kl_deref i q)"
proof (cases "kl_map q k")
  case None
  with assms have "\<forall>v\<in>set (kl_values q). key v \<noteq> k"
    by (force simp: kl_values_def kl_inv_def)
  with None show ?thesis by (simp add: find_None_iff_all)
next
  case (Some i)
  from kl_inv_deref [OF assms Some] obtain v where v: "kl_deref i q = Some v" "key v = k"
    "(i, v) \<in> set (kl_nodes q)" by blast
  then have "v \<in> set (kl_values q)" by (force simp: kl_values_def)
  with v Some kl_inv_distinct_keys [OF assms] show ?thesis
    by (simp add: find_key_unique)
qed

lemma kl_nodes_key_iff:
  assumes "kl_inv key q" and "kl_map q k = Some i" and "(j, v) \<in> set (kl_nodes q)"
  shows "j = i \<longleftrightarrow> key v = k"
  using assms kl_inv_deref [OF assms(1,2)]
  by (auto simp: kl_inv_def dest: eq_key_imp_eq_value)

lemma filter_node_key:
  assumes "kl_inv key q" and "kl_map q k = Some i"
  shows "filter (\<lambda>n. fst n \<noteq> i) (kl_nodes q) = filter (\<lambda>n. key (snd n) \<noteq> k) (kl_nodes q)"
  using kl_nodes_key_iff [OF assms] by (intro filter_cong) auto

lemma filter_node_absent:
  assumes "kl_inv key q" and "kl_map q k = None"
  shows "filter (\<lambda>n. key (snd n) \<noteq> k) (kl_nodes q) = kl_nodes q"
  using assms by (intro filter_True) (force simp: kl_inv_def)

text \<open>Erasing the node of a key leaves the other values in order.\<close>

lemma kl_unlink_eq:
  assumes "kl_inv key q"
  shows "kl_unlink k q = Some (q\<lparr>kl_nodes := filter (\<lambda>n. key (snd n) \<noteq> k) (kl_nodes q)\<rparr>)"
proof (cases "kl_map q k")
  case None
  then show ?thesis using filter_node_absent [OF assms] by (simp add: kl_unlink_def)
next
  case (Some i)
  then show ?thesis
    using filter_node_key [OF assms Some] kl_inv_deref [OF assms Some]
    by (auto simp: kl_unlink_def kl_erase_node_def)
qed

lemma values_filter:
  "map snd (filter (\<lambda>n. P (snd n)) ns) = filter P (map snd ns)"
  by (induction ns) auto

lemma kl_inv_remove:
  assumes "kl_inv key q"
  shows "kl_inv key (kl_erase_key k (q\<lparr>kl_nodes := filter (\<lambda>n. key (snd n) \<noteq> k) (kl_nodes q)\<rparr>))"
  using assms by (fastforce simp: kl_inv_def kl_erase_key_def intro: distinct_map_filter)

lemma node_insert_end: "node_insert None n ns = ns @ [n]"
  by (induction ns) auto

lemma kl_inv_append:
  assumes "kl_inv key q" and "key v = k"
  shows "kl_inv key (q\<lparr>kl_nodes := filter (\<lambda>n. key (snd n) \<noteq> k) (kl_nodes q) @ [(kl_next q, v)],
     kl_map := (kl_map q)(k \<mapsto> kl_next q), kl_next := Suc (kl_next q)\<rparr>)"
proof -
  have "kl_next q \<notin> fst ` set (kl_nodes q)"
    using assms(1) by (force simp: kl_inv_def)
  with assms show ?thesis
    by (fastforce simp: kl_inv_def intro: distinct_map_filter less_SucI)
qed

section \<open>The contract\<close>

locale chunk_queue =
  fixes push :: "'v \<Rightarrow> 'q \<Rightarrow> 'q option"
    and pop :: "'q \<Rightarrow> ('v \<times> 'q) option"
    and take_key :: "'k \<Rightarrow> 'q \<Rightarrow> ('v option \<times> 'q) option"
    and key :: "'v \<Rightarrow> 'k"
    and items :: "'q \<Rightarrow> 'v list"
    and inv :: "'q \<Rightarrow> bool"
  assumes push_ok: "inv q \<Longrightarrow> \<exists>q'. push v q = Some q' \<and> inv q' \<and>
      items q' = filter (\<lambda>x. key x \<noteq> key v) (items q) @ [v]"
    and pop_ok: "inv q \<Longrightarrow> items q = v # vs \<Longrightarrow> \<exists>q'. pop q = Some (v, q') \<and> inv q' \<and> items q' = vs"
    and take_ok: "inv q \<Longrightarrow> \<exists>q'. take_key k q = Some (find (\<lambda>x. key x = k) (items q), q') \<and> inv q' \<and>
      items q' = filter (\<lambda>x. key x \<noteq> k) (items q)"
    and distinct_keys: "inv q \<Longrightarrow> distinct (map key (items q))"
begin

lemma push_total: "inv q \<Longrightarrow> push v q \<noteq> None"
  using push_ok by fastforce

lemma lookup_push:
  assumes "inv q" and "push v q = Some q'"
  shows "find (\<lambda>x. key x = k) (items q') = (if k = key v then Some v else find (\<lambda>x. key x = k) (items q))"
proof -
  from push_ok [OF assms(1), of v] assms(2)
  have "items q' = filter (\<lambda>x. key x \<noteq> key v) (items q) @ [v]" by auto
  then show ?thesis
    by (auto simp: find_append find_filter_eq find_filter_neq split: option.splits)
qed

lemma length_push: "inv q \<Longrightarrow> push v q = Some q' \<Longrightarrow> length (items q') \<le> Suc (length (items q))"
  using push_ok [of q v] by (auto simp: le_SucI)

lemma lookup_pop:
  assumes "inv q" and "items q = v # vs" and "pop q = Some (v', q')"
  shows "find (\<lambda>x. key x = k) (items q') = (if k = key v then None else find (\<lambda>x. key x = k) (items q))"
proof -
  from pop_ok [OF assms(1,2)] assms(3) have "items q' = vs" by auto
  moreover have "k = key v \<Longrightarrow> find (\<lambda>x. key x = k) vs = None"
    using distinct_keys [OF assms(1)] assms(2) by (simp add: find_None_iff_all) (metis image_eqI)
  ultimately show ?thesis using assms(2) by auto
qed

lemma lookup_take:
  assumes "inv q" and "take_key k' q = Some (r, q')"
  shows "find (\<lambda>x. key x = k) (items q') = (if k = k' then None else find (\<lambda>x. key x = k) (items q))"
proof -
  from take_ok [OF assms(1), of k'] assms(2)
  have "items q' = filter (\<lambda>x. key x \<noteq> k') (items q)" by auto
  then show ?thesis by (auto simp: find_filter_eq find_filter_neq)
qed

text \<open>Taking a value and pushing it back keeps every value, with that one moved to the end.\<close>

lemma take_push:
  assumes "inv q" and "take_key k q = Some (Some v, q1)" and "push v q1 = Some q2"
  shows "find (\<lambda>x. key x = k') (items q2) = find (\<lambda>x. key x = k') (items q)"
proof -
  from take_ok [OF assms(1), of k] assms(2)
  have q1: "inv q1" and v: "find (\<lambda>x. key x = k) (items q) = Some v" by auto
  from find_SomeD [OF v] have "key v = k" by simp
  with v show ?thesis
    using lookup_push [OF q1 assms(3), of k'] lookup_take [OF assms(1,2), of k'] by auto
qed

end

end
