(* ===== verification/Filenode.thy ===== *)
theory Filenode
  imports Metadata
begin

text \<open>
  Classes \<open>Chunk\<close> and \<open>Filenode\<close> (\<^verbatim>\<open>enclave/filenode.cpp\<close>).  An image is a
  \<open>filenode_buffer_t\<close> (inode number at 0, size at 8, entry count at 16, entries from 24 on)
  followed by \<open>chunk_t\<close> structs of 44 bytes (UUID at 0, initialisation vector at 16, tag at 28).
  The twelve bytes of an initialisation vector and the sixteen of a tag are packed into words in
  the same way as a UUID.
\<close>

type_synonym iv_t = "96 word"
type_synonym tag_t = "128 word"

record Chunk =
  ck_uuid :: uuid
  ck_iv :: iv_t
  ck_tag :: tag_t

record filenode = inode +
  fn_size :: size_t
  fn_chunks :: "Chunk list"

definition sizeof_filenode_buffer :: nat where "sizeof_filenode_buffer = 24"

definition sizeof_chunk :: nat where "sizeof_chunk = 44"

text \<open>A value-initialised chunk, the element \<open>std::vector::resize\<close> appends.\<close>

definition Chunk_zero :: Chunk where
  "Chunk_zero = \<lparr>ck_uuid = UUID_zero, ck_iv = 0, ck_tag = 0\<rparr>"

definition Chunk_ctor :: "nat \<Rightarrow> bytes \<Rightarrow> Chunk option" where
  "Chunk_ctor off buf =
     (if length buf < off + sizeof_chunk then None
      else Some \<lparr>ck_uuid = UUID_load (rd off 16 buf), ck_iv = le_word (rd (off + 16) 12 buf),
        ck_tag = le_word (rd (off + 28) 16 buf)\<rparr>)"

definition Chunk_dump :: "Chunk \<Rightarrow> nat \<Rightarrow> bytes \<Rightarrow> bytes" where
  "Chunk_dump c off buf =
     wr (off + 28) (le_bytes 16 (ck_tag c))
     (wr (off + 16) (le_bytes 12 (ck_iv c))
     (wr off (UUID_dump (ck_uuid c)) buf))"

fun Filenode_load_entries :: "nat \<Rightarrow> nat \<Rightarrow> bytes \<Rightarrow> Chunk list option" where
  "Filenode_load_entries i 0 buf = Some []"
| "Filenode_load_entries i (Suc n) buf = do {
     c \<leftarrow> Chunk_ctor (sizeof_filenode_buffer + sizeof_chunk * i) buf;
     cs \<leftarrow> Filenode_load_entries (Suc i) n buf;
     Some (c # cs)
   }"

text \<open>The number of chunks for a size, computed as the code does, in \<open>size_t\<close>.\<close>

definition chunks_for :: "size_t \<Rightarrow> size_t" where
  "chunks_for sz = (sz + of_nat CHUNKSIZE - 1) div of_nat CHUNKSIZE"

definition Filenode_load :: "filenode \<Rightarrow> bytes \<Rightarrow> (bool \<times> filenode) option" where
  "Filenode_load fn obuf =
     (if length obuf < sizeof_filenode_buffer then None
      else let entnum = le_word (rd 16 8 obuf) :: size_t;
               osize = le_word (rd 8 8 obuf) :: size_t;
               rqsize = of_nat sizeof_filenode_buffer + of_nat sizeof_chunk * entnum
      in if of_nat (length obuf) \<noteq> rqsize then Some (False, fn)
      else if chunks_for osize \<noteq> entnum then Some (False, fn)
      else do {
        entries \<leftarrow> Filenode_load_entries 0 (unat entnum) obuf;
        Some (True, fn\<lparr>fn_size := osize, fn_chunks := entries, in_ino := le_word (rd 0 8 obuf)\<rparr>)
      })"

fun Filenode_dump_entries :: "nat \<Rightarrow> Chunk list \<Rightarrow> bytes \<Rightarrow> bytes" where
  "Filenode_dump_entries i [] buf = buf"
| "Filenode_dump_entries i (c # cs) buf =
     Filenode_dump_entries (Suc i) cs (Chunk_dump c (sizeof_filenode_buffer + sizeof_chunk * i) buf)"

definition Filenode_dump :: "filenode \<Rightarrow> bytes option \<Rightarrow> size_t \<Rightarrow> size_t \<times> bytes option" where
  "Filenode_dump fn buf bsize =
     (let rqsize = of_nat sizeof_filenode_buffer + of_nat sizeof_chunk * of_nat (length (fn_chunks fn)) in
      case buf of
        None \<Rightarrow> (rqsize, None)
      | Some obuf \<Rightarrow>
          if bsize < rqsize then (0, Some obuf)
          else (rqsize, Some
            (Filenode_dump_entries 0 (fn_chunks fn)
            (wr 16 (le_bytes 8 (of_nat (length (fn_chunks fn)) :: size_t))
            (wr 8 (le_bytes 8 (fn_size fn))
            (wr 0 (le_bytes 8 (in_ino fn)) obuf))))))"

definition Filenode_nlink :: "filenode \<Rightarrow> size_t" where
  "Filenode_nlink fn = 1"

definition Filenode_dump_stat :: "filenode \<Rightarrow> stat_buffer_t" where
  "Filenode_dump_stat fn = \<lparr>st_ino = in_ino fn, st_mode = T_ST_REG, st_nlink = Filenode_nlink fn,
     st_size = fn_size fn\<rparr>"

text \<open>The size is left uninitialised by the constructor, like the inode number.\<close>

definition Filenode_ctor :: "uuid \<Rightarrow> ino_t \<Rightarrow> size_t \<Rightarrow> filenode" where
  "Filenode_ctor u junk_ino junk_size =
     inode.extend (Inode_ctor u junk_ino) \<lparr>fn_size = junk_size, fn_chunks = []\<rparr>"

section \<open>Round trip\<close>

lemma length_Chunk_dump [simp]:
  "off + sizeof_chunk \<le> length buf \<Longrightarrow> length (Chunk_dump c off buf) = length buf"
  by (simp add: Chunk_dump_def sizeof_chunk_def buf_simps)

lemma rd_Chunk_dump_before:
  "off + sizeof_chunk \<le> length buf \<Longrightarrow> o' + n \<le> off \<Longrightarrow> rd o' n (Chunk_dump c off buf) = rd o' n buf"
  by (simp add: Chunk_dump_def sizeof_chunk_def buf_simps)

lemma rd_Chunk_dump_fields:
  assumes "off + sizeof_chunk \<le> length buf"
  shows "rd off 16 (Chunk_dump c off buf) = UUID_dump (ck_uuid c)"
    and "rd (off + 16) 12 (Chunk_dump c off buf) = le_bytes 12 (ck_iv c)"
    and "rd (off + 28) 16 (Chunk_dump c off buf) = le_bytes 16 (ck_tag c)"
  using assms by (simp_all add: Chunk_dump_def sizeof_chunk_def buf_simps)

lemma Chunk_ctor_dump:
  assumes buf: "off + sizeof_chunk \<le> length buf" and buf': "off + sizeof_chunk \<le> length buf'"
    and same: "rd off sizeof_chunk buf' = rd off sizeof_chunk (Chunk_dump c off buf)"
  shows "Chunk_ctor off buf' = Some c"
proof -
  have sub: "rd (off + k) n buf' = rd (off + k) n (Chunk_dump c off buf)" if "k + n \<le> sizeof_chunk" for k n
    using same that by (rule rd_sub)
  show ?thesis
    using buf' sub [of 0 16] sub [of 16 12] sub [of 28 16] rd_Chunk_dump_fields [OF buf, of c]
    by (simp add: Chunk_ctor_def sizeof_chunk_def)
qed

lemma Filenode_dump_entries_frame:
  assumes "sizeof_filenode_buffer + sizeof_chunk * (i + length cs) \<le> length buf"
  shows "length (Filenode_dump_entries i cs buf) = length buf \<and>
    (\<forall>o' n. o' + n \<le> sizeof_filenode_buffer + sizeof_chunk * i \<longrightarrow>
      rd o' n (Filenode_dump_entries i cs buf) = rd o' n buf)"
  using assms
proof (induction cs arbitrary: i buf)
  case (Cons c cs)
  let ?off = "sizeof_filenode_buffer + sizeof_chunk * i"
  have fits: "?off + sizeof_chunk \<le> length buf"
    using Cons.prems by (simp add: sizeof_chunk_def)
  have "sizeof_filenode_buffer + sizeof_chunk * (Suc i + length cs) \<le> length (Chunk_dump c ?off buf)"
    using Cons.prems fits by simp
  from Cons.IH [OF this] show ?case
    using fits by (simp add: rd_Chunk_dump_before)
qed simp

lemma Filenode_load_dump_entries:
  assumes "sizeof_filenode_buffer + sizeof_chunk * (i + length cs) \<le> length buf"
  shows "Filenode_load_entries i (length cs) (Filenode_dump_entries i cs buf) = Some cs"
  using assms
proof (induction cs arbitrary: i buf)
  case (Cons c cs)
  let ?off = "sizeof_filenode_buffer + sizeof_chunk * i"
  let ?buf = "Chunk_dump c ?off buf"
  have fits: "?off + sizeof_chunk \<le> length buf"
    using Cons.prems by (simp add: sizeof_chunk_def)
  have rest: "sizeof_filenode_buffer + sizeof_chunk * (Suc i + length cs) \<le> length ?buf"
    using Cons.prems fits by simp
  from Filenode_dump_entries_frame [OF rest]
  have "Chunk_ctor ?off (Filenode_dump_entries (Suc i) cs ?buf) = Some c"
    using fits by (intro Chunk_ctor_dump [OF fits]) simp_all
  with Cons.IH [OF rest] show ?case by simp
qed simp

definition Filenode_bytes :: "filenode \<Rightarrow> nat" where
  "Filenode_bytes fn = sizeof_filenode_buffer + sizeof_chunk * length (fn_chunks fn)"

text \<open>
  The image of a file is accepted by \<open>load\<close> when the number of chunks fits the size; a file that
  violates this can be stored and is then unreadable.
\<close>

definition Filenode_storable :: "filenode \<Rightarrow> bool" where
  "Filenode_storable fn \<longleftrightarrow> unat (chunks_for (fn_size fn)) = length (fn_chunks fn) \<and>
     Filenode_bytes fn < 2 ^ 32"

definition Filenode_fresh :: "filenode \<Rightarrow> filenode \<Rightarrow> bool" where
  "Filenode_fresh m0 m \<longleftrightarrow> md_uuid m0 = md_uuid m \<and> in_refcount m0 = in_refcount m"

lemma Filenode_rqsize:
  "(of_nat sizeof_filenode_buffer + of_nat sizeof_chunk * of_nat (length (fn_chunks fn)) :: size_t) =
   of_nat (Filenode_bytes fn)"
  by (simp add: Filenode_bytes_def)

lemma Filenode_dump_image:
  assumes buf: "length obuf = Filenode_bytes fn"
    and img: "img = Filenode_dump_entries 0 (fn_chunks fn)
      (wr 16 (le_bytes 8 (of_nat (length (fn_chunks fn)) :: size_t))
      (wr 8 (le_bytes 8 (fn_size fn)) (wr 0 (le_bytes 8 (in_ino fn)) obuf)))"
      (is "_ = Filenode_dump_entries 0 _ ?hdr")
  shows "length img = Filenode_bytes fn"
    and "rd 16 8 img = le_bytes 8 (of_nat (length (fn_chunks fn)) :: size_t)"
    and "rd 8 8 img = le_bytes 8 (fn_size fn)"
    and "rd 0 8 img = le_bytes 8 (in_ino fn)"
    and "Filenode_load_entries 0 (length (fn_chunks fn)) img = Some (fn_chunks fn)"
proof -
  have len: "24 \<le> length obuf"
    using buf by (simp add: Filenode_bytes_def sizeof_filenode_buffer_def)
  have hdr: "sizeof_filenode_buffer + sizeof_chunk * (0 + length (fn_chunks fn)) \<le> length ?hdr"
    using buf len by (simp add: Filenode_bytes_def buf_simps)
  note frame = Filenode_dump_entries_frame [OF hdr, folded img, unfolded sizeof_filenode_buffer_def]
  show "length img = Filenode_bytes fn"
    using frame buf len by (simp add: buf_simps)
  show "rd 16 8 img = le_bytes 8 (of_nat (length (fn_chunks fn)) :: size_t)"
    and "rd 8 8 img = le_bytes 8 (fn_size fn)" and "rd 0 8 img = le_bytes 8 (in_ino fn)"
    using frame len by (simp_all add: buf_simps)
  show "Filenode_load_entries 0 (length (fn_chunks fn)) img = Some (fn_chunks fn)"
    unfolding img using hdr by (rule Filenode_load_dump_entries)
qed

lemma Filenode_entnum:
  assumes "Filenode_storable fn"
  shows "unat (chunks_for (fn_size fn)) = length (fn_chunks fn)"
    and "(of_nat (length (fn_chunks fn)) :: size_t) = chunks_for (fn_size fn)"
proof -
  show "unat (chunks_for (fn_size fn)) = length (fn_chunks fn)"
    using assms by (simp add: Filenode_storable_def)
  then show "(of_nat (length (fn_chunks fn)) :: size_t) = chunks_for (fn_size fn)"
    by (metis of_nat_unat ucast_id)
qed

interpretation filenode: metadata_codec Filenode_dump Filenode_load Filenode_storable Filenode_fresh
  Filenode_bytes
proof
  fix m :: filenode and buf :: bytes
  assume m: "Filenode_storable m" and buf: "length buf = Filenode_bytes m"
  note image = Filenode_dump_image [OF buf refl]
  have "Filenode_load m0 (the (snd (Filenode_dump m (Some buf) (of_nat (length buf))))) = Some (True, m)"
    if "Filenode_fresh m0 m" for m0
    using that image Filenode_entnum [OF m]
    by (simp add: Filenode_load_def Filenode_dump_def Filenode_rqsize [simplified] buf Let_def
        Filenode_fresh_def Filenode_bytes_def [of m] sizeof_filenode_buffer_def)
  then show "\<exists>img. Filenode_dump m (Some buf) (of_nat (length buf)) = (of_nat (Filenode_bytes m), Some img) \<and>
      length img = Filenode_bytes m \<and> (\<forall>m0. Filenode_fresh m0 m \<longrightarrow> Filenode_load m0 img = Some (True, m))"
    using image(1) by (simp add: Filenode_dump_def Filenode_rqsize buf)
qed (simp_all add: Filenode_dump_def Filenode_rqsize Filenode_storable_def,
     simp add: Filenode_bytes_def sizeof_filenode_buffer_def)

end
