(* ===== verification/Chunk_Store.thy ===== *)
theory Chunk_Store
  imports Keyed_List Filenode
begin

text \<open>
  The chunk cache of the enclave, classes \<open>ChunkCache\<close> and \<open>ChunkStore\<close> of
  \<^verbatim>\<open>enclave/volume.cpp\<close>.  A cached chunk has a weak pointer to its file, here the
  address of the file object; the chunk itself is reached through the file, so every operation that
  begins with \<open>cache.chunk().uuid\<close> takes that UUID as an argument \<open>u\<close>, to be resolved by the caller,
  who has the heap.  The member functions run under the mutex of the store, each as one step.
\<close>

record ChunkCache =
  cc_uuid :: uuid
  cc_data :: bytes
  cc_modified :: bool
  cc_filenode :: nat
  cc_idx :: size_t

type_synonym ChunkStore = "(uuid, ChunkCache) keyed_list"

definition ChunkCache_ctor :: "nat \<Rightarrow> nat \<Rightarrow> size_t \<Rightarrow> ChunkCache" where
  "ChunkCache_ctor sz fn idx = \<lparr>cc_uuid = UUID_zero, cc_data = replicate sz 0, cc_modified = False,
     cc_filenode = fn, cc_idx = idx\<rparr>"

definition ChunkStore_push_back :: "uuid \<Rightarrow> ChunkCache \<Rightarrow> ChunkStore \<Rightarrow> ChunkStore option" where
  "ChunkStore_push_back u cache st = do {
     st \<leftarrow> kl_unlink u st;
     (it, st) \<leftarrow> kl_insert None u (cache\<lparr>cc_uuid := u\<rparr>) st;
     Some st
   }"

definition ChunkStore_pop_front :: "ChunkStore \<Rightarrow> ChunkStore option" where
  "ChunkStore_pop_front st =
     (case kl_nodes st of
        [] \<Rightarrow> None
      | n # ns \<Rightarrow> Some (kl_erase_key (cc_uuid (snd n)) (st\<lparr>kl_nodes := ns\<rparr>)))"

definition ChunkStore_push_get_back :: "uuid \<Rightarrow> ChunkCache \<Rightarrow> ChunkStore \<Rightarrow> (nat \<times> ChunkStore) option" where
  "ChunkStore_push_get_back u cache st = do {
     st \<leftarrow> kl_unlink u st;
     kl_insert None u (cache\<lparr>cc_uuid := u\<rparr>) st
   }"

definition ChunkStore_get_pop_front :: "ChunkStore \<Rightarrow> (ChunkCache \<times> ChunkStore) option" where
  "ChunkStore_get_pop_front st =
     (case kl_nodes st of
        [] \<Rightarrow> None
      | n # ns \<Rightarrow>
          if kl_map st (cc_uuid (snd n)) \<noteq> Some (fst n) then None
          else Some (snd n, kl_erase_key (cc_uuid (snd n)) (st\<lparr>kl_nodes := ns\<rparr>)))"

definition ChunkStore_get_erase :: "nat \<Rightarrow> ChunkStore \<Rightarrow> (ChunkCache \<times> ChunkStore) option" where
  "ChunkStore_get_erase it st = do {
     cache \<leftarrow> kl_deref it st;
     st \<leftarrow> kl_erase_node it (kl_erase_key (cc_uuid cache) st);
     Some (cache, st)
   }"

definition ChunkStore_insert ::
    "nat option \<Rightarrow> uuid \<Rightarrow> ChunkCache \<Rightarrow> ChunkStore \<Rightarrow> (nat \<times> ChunkStore) option" where
  "ChunkStore_insert pos u cache st = do {
     st \<leftarrow> kl_unlink u st;
     kl_insert pos u (cache\<lparr>cc_uuid := u\<rparr>) st
   }"

definition ChunkStore_erase :: "nat \<Rightarrow> ChunkStore \<Rightarrow> (nat option \<times> ChunkStore) option" where
  "ChunkStore_erase it st = do {
     cache \<leftarrow> kl_deref it st;
     i \<leftarrow> kl_map st (cc_uuid cache);
     st' \<leftarrow> kl_erase_node it (kl_erase_key (cc_uuid cache) st);
     Some (node_after it (kl_nodes st), st')
   }"

text \<open>The iterator found, or \<open>end()\<close>; a wrong key under the iterator fails the assertion.\<close>

definition ChunkStore_findbykey :: "uuid \<Rightarrow> ChunkStore \<Rightarrow> nat option option" where
  "ChunkStore_findbykey u st =
     (case kl_map st u of
        None \<Rightarrow> Some None
      | Some i \<Rightarrow> do {
          cache \<leftarrow> kl_deref i st;
          if cc_uuid cache \<noteq> u then None else Some (Some i)
        })"

definition ChunkStore_erasebykey :: "uuid \<Rightarrow> ChunkStore \<Rightarrow> (nat option \<times> ChunkStore) option" where
  "ChunkStore_erasebykey u st =
     (case kl_map st u of
        None \<Rightarrow> Some (None, st)
      | Some i \<Rightarrow> do {
          cache \<leftarrow> kl_deref i st;
          if cc_uuid cache \<noteq> u then None
          else do {
            st' \<leftarrow> kl_erase_node i st;
            Some (node_after i (kl_nodes st), kl_erase_key u st')
          }
        })"

definition ChunkStore_get_erase_by_key :: "uuid \<Rightarrow> ChunkStore \<Rightarrow> (ChunkCache option \<times> ChunkStore) option" where
  "ChunkStore_get_erase_by_key u st =
     (case kl_map st u of
        None \<Rightarrow> Some (None, st)
      | Some i \<Rightarrow> do {
          cache \<leftarrow> kl_deref i st;
          st \<leftarrow> kl_erase_node i st;
          Some (Some cache, kl_erase_key u st)
        })"

section \<open>The store is a queue without duplicate UUIDs\<close>

abbreviation cs_inv :: "ChunkStore \<Rightarrow> bool" where
  "cs_inv \<equiv> kl_inv cc_uuid"

definition cs_items :: "ChunkStore \<Rightarrow> ChunkCache list" where
  "cs_items = kl_values"

definition cs_lookup :: "uuid \<Rightarrow> ChunkStore \<Rightarrow> ChunkCache option" where
  "cs_lookup u st = find (\<lambda>c. cc_uuid c = u) (cs_items st)"

lemma push_get_back_eq:
  assumes "cs_inv st"
  shows "ChunkStore_push_get_back u cache st = Some (kl_next st,
    st\<lparr>kl_nodes := filter (\<lambda>n. cc_uuid (snd n) \<noteq> u) (kl_nodes st) @ [(kl_next st, cache\<lparr>cc_uuid := u\<rparr>)],
      kl_map := (kl_map st)(u \<mapsto> kl_next st), kl_next := Suc (kl_next st)\<rparr>)"
  by (simp add: ChunkStore_push_get_back_def kl_unlink_eq [OF assms] kl_insert_def node_insert_end)

lemma get_erase_by_key_eq:
  assumes "cs_inv st"
  shows "ChunkStore_get_erase_by_key u st = Some (cs_lookup u st,
    kl_erase_key u (st\<lparr>kl_nodes := filter (\<lambda>n. cc_uuid (snd n) \<noteq> u) (kl_nodes st)\<rparr>))"
proof (cases "kl_map st u")
  case None
  then show ?thesis
    using filter_node_absent [OF assms None] kl_find [OF assms, of u]
    by (simp add: ChunkStore_get_erase_by_key_def cs_lookup_def cs_items_def kl_erase_key_def fun_upd_idem)
next
  case (Some i)
  then show ?thesis
    using filter_node_key [OF assms Some] kl_inv_deref [OF assms Some] kl_find [OF assms, of u]
    by (auto simp: ChunkStore_get_erase_by_key_def cs_lookup_def cs_items_def kl_erase_node_def)
qed

lemma get_pop_front_eq:
  assumes "cs_inv st" and "cs_items st = c # cs"
  shows "\<exists>st'. ChunkStore_get_pop_front st = Some (c, st') \<and> cs_inv st' \<and> cs_items st' = cs"
proof -
  from assms(2) obtain i ns where nodes: "kl_nodes st = (i, c) # ns" and cs: "cs = map snd ns"
    by (auto simp: cs_items_def kl_values_def)
  have key: "kl_map st (cc_uuid c) = Some i"
    using assms(1) nodes by (auto simp: kl_inv_def)
  have "filter (\<lambda>n. cc_uuid (snd n) \<noteq> cc_uuid c) (kl_nodes st) = filter (\<lambda>n. fst n \<noteq> i) (kl_nodes st)"
    by (rule filter_node_key [OF assms(1) key, symmetric])
  also have "\<dots> = ns"
    using assms(1) nodes by (auto simp: kl_inv_def filter_id_conv)
  finally have "cs_inv (kl_erase_key (cc_uuid c) (st\<lparr>kl_nodes := ns\<rparr>))"
    using kl_inv_remove [OF assms(1), of "cc_uuid c"] by simp
  then show ?thesis
    using nodes key cs
    by (simp add: ChunkStore_get_pop_front_def cs_items_def kl_values_def kl_erase_key_def)
qed

text \<open>The push the contract speaks of, on a cached chunk that has its UUID already.\<close>

definition ChunkStore_push :: "ChunkCache \<Rightarrow> ChunkStore \<Rightarrow> ChunkStore option" where
  "ChunkStore_push c st = map_option snd (ChunkStore_push_get_back (cc_uuid c) c st)"

lemma push_get_back_push:
  "map_option snd (ChunkStore_push_get_back u cache st) = ChunkStore_push (cache\<lparr>cc_uuid := u\<rparr>) st"
  by (simp add: ChunkStore_push_def ChunkStore_push_get_back_def)

interpretation cs: chunk_queue ChunkStore_push ChunkStore_get_pop_front ChunkStore_get_erase_by_key
  cc_uuid cs_items cs_inv
proof
  fix st :: ChunkStore and c :: ChunkCache
  assume inv: "cs_inv st"
  show "\<exists>st'. ChunkStore_push c st = Some st' \<and> cs_inv st' \<and>
      cs_items st' = filter (\<lambda>x. cc_uuid x \<noteq> cc_uuid c) (cs_items st) @ [c]"
    using kl_inv_append [OF inv, of c]
    by (simp add: ChunkStore_push_def push_get_back_eq [OF inv] cs_items_def kl_values_def
        values_filter [where P = "\<lambda>v. cc_uuid v \<noteq> cc_uuid c"])
next
  fix st :: ChunkStore and u
  assume inv: "cs_inv st"
  show "\<exists>st'. ChunkStore_get_erase_by_key u st = Some (find (\<lambda>x. cc_uuid x = u) (cs_items st), st') \<and>
      cs_inv st' \<and> cs_items st' = filter (\<lambda>x. cc_uuid x \<noteq> u) (cs_items st)"
    using kl_inv_remove [OF inv, of u]
    by (simp add: get_erase_by_key_eq [OF inv] cs_lookup_def cs_items_def kl_values_def kl_erase_key_def
        values_filter [where P = "\<lambda>v. cc_uuid v \<noteq> u"])
next
  fix st :: ChunkStore
  assume "cs_inv st"
  then show "distinct (map cc_uuid (cs_items st))"
    unfolding cs_items_def by (rule kl_inv_distinct_keys)
qed (rule get_pop_front_eq)

lemma findbykey_eq:
  assumes "cs_inv st"
  shows "ChunkStore_findbykey u st = Some (kl_map st u)"
  using kl_inv_deref [OF assms, of u]
  by (auto simp: ChunkStore_findbykey_def split: option.splits)

lemma get_erase_eq:
  assumes "cs_inv st" and "kl_map st u = Some i"
  shows "ChunkStore_get_erase i st = map_option (\<lambda>(c, st'). (the c, st')) (ChunkStore_get_erase_by_key u st)"
proof -
  from kl_inv_deref [OF assms] obtain c where c: "kl_deref i st = Some c" "cc_uuid c = u" by blast
  then show ?thesis
    using assms(2)
    by (simp add: ChunkStore_get_erase_def ChunkStore_get_erase_by_key_def kl_erase_node_def
        kl_deref_def kl_erase_key_def)
qed

end
