(* ===== verification/Storage.thy ===== *)
theory Storage
  imports Host Superinfo Dirnode Chunk_Store
begin

text \<open>
  The state of the enclave (the globals of \<^verbatim>\<open>enclave/volume.cpp\<close>) and the functions of
  \<^verbatim>\<open>enclave/storage.cpp\<close> that move metadata and chunks between it and the untrusted store.

  \<open>inode_map\<close> has shared pointers to inode objects; an object is a cell of \<open>heap\<close>, a pointer is its
  address, and addresses are not used again.  A cell exists as long as \<open>inode_map\<close> points to it, so a
  weak pointer to a missing cell has expired.  The record extends the host of theory \<open>Host\<close>:
  the enclave's own part of a world is \<^const>\<open>host.more\<close>.
\<close>

datatype inode_obj = DirObj dirnode | FileObj filenode

record world = host +
  inode_map :: "ino_t \<rightharpoonup> nat"
  heap :: "nat \<rightharpoonup> inode_obj"
  next_addr :: nat
  superinfo :: "Superinfo option"
  volkey :: bytes
  local_cache :: ChunkStore

text \<open>\<open>cache.chunk()\<close>: through the weak pointer, then by index, neither of which is checked.\<close>

definition ChunkCache_chunk :: "world \<Rightarrow> ChunkCache \<Rightarrow> Chunk option" where
  "ChunkCache_chunk w cache =
     (case heap w (cc_filenode cache) of
        Some (FileObj fn) \<Rightarrow>
          if unat (cc_idx cache) < length (fn_chunks fn)
          then Some (fn_chunks fn ! unat (cc_idx cache)) else None
      | _ \<Rightarrow> None)"

text \<open>Assignment through a reference to \<open>fn->chunks[idx]\<close>.\<close>

definition set_chunk :: "nat \<Rightarrow> nat \<Rightarrow> Chunk \<Rightarrow> world \<Rightarrow> world" where
  "set_chunk a idx ck w =
     (case heap w a of
        Some (FileObj fn) \<Rightarrow>
          w\<lparr>heap := (heap w)(a \<mapsto> FileObj (fn\<lparr>fn_chunks := (fn_chunks fn)[idx := ck]\<rparr>))\<rparr>
      | _ \<Rightarrow> w)"

definition zero_iv :: bytes where
  "zero_iv = replicate 12 0"

section \<open>Metadata\<close>

text \<open>
  The virtual function of the metadata object is the argument \<open>vload\<close> or \<open>vdump\<close>.  A file shorter
  than a tag makes \<open>bsize\<close> negative, and the tag is then copied from before the buffer.
\<close>

definition load_metadata :: "'c env \<Rightarrow> 'm load_fun \<Rightarrow> uuid \<Rightarrow> 'm \<Rightarrow> world \<Rightarrow> (bool \<times> 'm \<times> world) option" where
  "load_metadata e vload u m w =
     (case sgx_enter e w of (ok, w) \<Rightarrow>
      if \<not> ok then Some (False, m, w)
      else case ocall_load_file e (UUID_unparse u) w of ((osize, obuf), w) \<Rightarrow>
      if osize < 0 then Some (False, m, w)
      else if osize < 16 then None
      else let bsize = nat osize - 16; tag = rd bsize 16 obuf in
      case alloc e bsize w of (ibuf, w) \<Rightarrow>
      case decrypt_buffer (mbed e) (volkey w) zero_iv (UUID_dump u) (take bsize obuf) ibuf tag of (ok, ibuf) \<Rightarrow>
      if \<not> ok then Some (False, m, w)
      else do {
        (ok, m) \<leftarrow> vload m ibuf;
        Some (ok, m, w)
      })"

definition save_metadata :: "'c env \<Rightarrow> 'm dump_fun \<Rightarrow> uuid \<Rightarrow> 'm \<Rightarrow> world \<Rightarrow> bool \<times> world" where
  "save_metadata e vdump u m w =
     (let isize = fst (vdump m None 0) in
      case alloc e (unat isize) w of (ibuf, w) \<Rightarrow>
      case vdump m (Some ibuf) isize of (n, img) \<Rightarrow>
      if n = 0 then (False, w)
      else case alloc e (unat (isize + 16)) w of (obuf, w) \<Rightarrow>
      case encrypt_buffer (mbed e) (volkey w) zero_iv (UUID_dump u) (the img)
          (take (unat isize) obuf) (fst (alloc e 16 w)) of (ok, ct, tag) \<Rightarrow>
      if \<not> ok then (False, w)
      else let obuf = wr (unat isize) tag (wr 0 ct obuf) in
      case sgx_enter e w of (ok, w) \<Rightarrow>
      if \<not> ok then (False, w)
      else (True, ocall_save_file e (UUID_unparse u) obuf w))"

definition remove_metadata :: "'c env \<Rightarrow> uuid \<Rightarrow> world \<Rightarrow> bool \<times> world" where
  "remove_metadata e u w =
     (case sgx_enter e w of (ok, w) \<Rightarrow>
      if \<not> ok then (False, w)
      else case ocall_remove_file e (UUID_unparse u) w of (err, w) \<Rightarrow>
      if err \<noteq> 0 then (False, w) else (True, w))"

section \<open>Chunks\<close>

text \<open>
  The result is success, the data vector and the world.  The vector is written before the tag is
  checked, so it holds unauthenticated bytes when the check fails.
\<close>

definition load_cache :: "'c env \<Rightarrow> Chunk \<Rightarrow> bytes \<Rightarrow> world \<Rightarrow> bool \<times> bytes \<times> world" where
  "load_cache e ck data w =
     (case sgx_enter e w of (ok, w) \<Rightarrow>
      if \<not> ok then (False, data, w)
      else case ocall_load_file e (UUID_unparse (ck_uuid ck)) w of ((sz, obuf), w) \<Rightarrow>
      if sz < 0 then (False, data, w)
      else if sz > int CHUNKSIZE then (False, data, w)
      else let data = take CHUNKSIZE data @ replicate (CHUNKSIZE - length data) 0 in
      case decrypt_buffer (mbed e) (volkey w) (le_bytes 12 (ck_iv ck)) (UUID_dump (ck_uuid ck)) obuf data
          (le_bytes 16 (ck_tag ck)) of (ok, data) \<Rightarrow>
      if \<not> ok then (False, data, w) else (True, data, w))"

definition save_cache :: "'c env \<Rightarrow> Chunk \<Rightarrow> bytes \<Rightarrow> world \<Rightarrow> bool \<times> Chunk \<times> world" where
  "save_cache e ck data w =
     (let ck = ck\<lparr>ck_iv := 0\<rparr> in
      case encrypt_buffer (mbed e) (volkey w) (le_bytes 12 (ck_iv ck)) (UUID_dump (ck_uuid ck)) data
          (replicate CHUNKSIZE 0) (le_bytes 16 (ck_tag ck)) of (ok, obuf, tag) \<Rightarrow>
      let ck = ck\<lparr>ck_tag := le_word tag\<rparr> in
      if \<not> ok then (False, ck, w)
      else case sgx_enter e w of (ok, w) \<Rightarrow>
      if \<not> ok then (False, ck, w)
      else (True, ck, ocall_save_file e (UUID_unparse (ck_uuid ck)) obuf w))"

definition load_chunk :: "'c env \<Rightarrow> ChunkCache \<Rightarrow> world \<Rightarrow> (bool \<times> ChunkCache \<times> world) option" where
  "load_chunk e cache w = do {
     ck \<leftarrow> ChunkCache_chunk w cache;
     (found, st) \<leftarrow> ChunkStore_get_erase_by_key (ck_uuid ck) (local_cache w);
     (case found of
        None \<Rightarrow>
          (case load_cache e ck (cc_data cache) w of (ok, data, w) \<Rightarrow>
             Some (ok, cache\<lparr>cc_data := data\<rparr>, w))
      | Some cache \<Rightarrow> Some (True, cache, w\<lparr>local_cache := st\<rparr>))
   }"

lemma get_pop_front_shorter:
  "ChunkStore_get_pop_front st = Some (c, st') \<Longrightarrow> length (kl_nodes st') < length (kl_nodes st)"
  by (auto simp: ChunkStore_get_pop_front_def kl_erase_key_def split: list.splits if_splits)

lemma more_world:
  assumes "host.more w' = host.more w"
  shows "inode_map w' = inode_map w" "heap w' = heap w" "next_addr w' = next_addr w"
    "superinfo w' = superinfo w" "volkey w' = volkey w" "local_cache w' = local_cache w"
  using assms by (cases w; cases w'; simp)+

lemma host_calls_more [simp]:
  "host.more (snd (sgx_enter e w)) = host.more w"
  "host.more (snd (alloc e n w)) = host.more w"
  "host.more (snd (ocall_load_file e f w)) = host.more w"
  "host.more (ocall_save_file e f b w) = host.more w"
  "host.more (snd (ocall_remove_file e f w)) = host.more w"
  by (auto simp: sgx_enter_def alloc_def ocall_load_file_eq ocall_save_file_def ocall_remove_file_def
      LocalStorage_set_content_def LocalStorage_remove_file_def tick_def split: option.splits)

lemma host_calls_rnd [simp]:
  "rnd (snd (sgx_enter e w)) = rnd w"
  "rnd (snd (alloc e n w)) = rnd w"
  "rnd (snd (ocall_load_file e f w)) = rnd w"
  "rnd (ocall_save_file e f b w) = rnd w"
  "rnd (snd (ocall_remove_file e f w)) = rnd w"
  by (auto simp: sgx_enter_def alloc_def ocall_load_file_eq ocall_save_file_def ocall_remove_file_def
      LocalStorage_set_content_def LocalStorage_remove_file_def tick_def split: option.splits)

lemma host_calls_files [simp]:
  "files (snd (sgx_enter e w)) = files w"
  "files (snd (alloc e n w)) = files w"
  "files (snd (ocall_load_file e f w)) = files w"
  by (auto simp: sgx_enter_def alloc_def ocall_load_file_eq split: option.splits)

lemma save_cache_frame:
  assumes "save_cache e ck data w = (ok, ck', w')"
  shows "host.more w' = host.more w" and "rnd w' = rnd w" and "ck_uuid ck' = ck_uuid ck"
    and "ck_iv ck' = 0"
    and "f \<noteq> UUID_unparse (ck_uuid ck) \<Longrightarrow> files w' f = files w f"
  using assms
  by (auto simp: save_cache_def Let_def sgx_enter_def store.put_other split: prod.splits if_splits)

text \<open>
  The loop of \<open>save_chunk\<close> that keeps the cache at \<open>MAX_CACHE_NUM\<close> chunks.  Line 355 of the source
  follows \<open>old_cache.chunk()\<close> for a message before the weak pointer is tested on line 362, so an
  expired pointer is undefined behaviour and the branch that reports it is never taken.  The local
  \<open>Chunk\<close> has uninitialised members that \<open>save_cache\<close> sets before they are read.
\<close>

function evict_chunks :: "'c env \<Rightarrow> world \<Rightarrow> (bool \<times> world) option" where
  "evict_chunks e w =
     (if length (kl_nodes (local_cache w)) \<le> MAX_CACHE_NUM then Some (True, w)
      else case ChunkStore_get_pop_front (local_cache w) of
        None \<Rightarrow> None
      | Some (old, st) \<Rightarrow>
        (case ChunkCache_chunk (w\<lparr>local_cache := st\<rparr>) old of
           None \<Rightarrow> None
         | Some ck \<Rightarrow>
           if \<not> cc_modified old then evict_chunks e (w\<lparr>local_cache := st\<rparr>)
           else (case save_cache e \<lparr>ck_uuid = ck_uuid ck, ck_iv = 0, ck_tag = 0\<rparr> (cc_data old)
                   (w\<lparr>local_cache := st\<rparr>) of
               (ok, ck', w') \<Rightarrow>
                 if \<not> ok then Some (False, w')
                 else evict_chunks e (set_chunk (cc_filenode old) (unat (cc_idx old)) ck' w'))))"
  by pat_completeness auto

lemma local_cache_set_chunk [simp]: "local_cache (set_chunk a i ck w) = local_cache w"
  by (simp add: set_chunk_def split: option.splits inode_obj.splits)

lemma local_cache_save_cache:
  "save_cache e ck data (w\<lparr>local_cache := st\<rparr>) = (ok, ck', w') \<Longrightarrow> local_cache w' = st"
  by (drule save_cache_frame(1), drule more_world(6)) simp

termination evict_chunks
  by (relation "measure (\<lambda>(e, w). length (kl_nodes (local_cache w)))")
    (auto dest: get_pop_front_shorter local_cache_save_cache [OF sym])

declare evict_chunks.simps [simp del]

definition save_chunk :: "'c env \<Rightarrow> ChunkCache \<Rightarrow> world \<Rightarrow> (bool \<times> world) option" where
  "save_chunk e cache w = do {
     ck \<leftarrow> ChunkCache_chunk w cache;
     (it, st) \<leftarrow> ChunkStore_push_get_back (ck_uuid ck) cache (local_cache w);
     evict_chunks e (w\<lparr>local_cache := st\<rparr>)
   }"

text \<open>The chunk is passed by reference: the result holds its value after the call.\<close>

definition flush_chunk :: "'c env \<Rightarrow> Chunk \<Rightarrow> world \<Rightarrow> (bool \<times> Chunk \<times> world) option" where
  "flush_chunk e ck w = do {
     it \<leftarrow> ChunkStore_findbykey (ck_uuid ck) (local_cache w);
     (case it of
        None \<Rightarrow> Some (True, ck, w)
      | Some i \<Rightarrow> do {
          (cache, st) \<leftarrow> ChunkStore_get_erase i (local_cache w);
          if cc_modified cache
          then (case save_cache e ck (cc_data cache) (w\<lparr>local_cache := st\<rparr>) of (ok, ck, w) \<Rightarrow>
            Some (ok, ck, w))
          else Some (True, ck, w\<lparr>local_cache := st\<rparr>)
        })
   }"

definition remove_chunk :: "'c env \<Rightarrow> uuid \<Rightarrow> world \<Rightarrow> bool \<times> world" where
  "remove_chunk e u w =
     (case sgx_enter e w of (ok, w) \<Rightarrow>
      if \<not> ok then (False, w)
      else case ocall_remove_file e (UUID_unparse u) w of (err, w) \<Rightarrow>
      if err \<noteq> 0 then (False, w) else (True, w))"

end
