(* ===== verification/Ecall_Fs.thy ===== *)
theory Ecall_Fs
  imports Storage
begin

text \<open>
  The file-system entry points of the enclave (\<^verbatim>\<open>enclave/ecall_fs.cpp\<close>): one definition per
  handler, with the code's guards in the code's order.  A handler that returns a status gives a
  value of \<open>rc\<close>, whose numbers are those of \<^verbatim>\<open>errno.h\<close>; output parameters are further
  components of the result.  Each handler runs as one step.

  A loop over directory entries that stops at the first entry with the wanted name is \<^const>\<open>find\<close>;
  a loop over chunk indices \<open>[chunk_st, chunk_en)\<close> recurses over the list of the indices.
\<close>

datatype rc = RC_OK | ENOENT | EIO | EACCES | EEXIST | ENOTDIR | EISDIR | EINVAL | ENOTEMPTY | ENONET

fun rc_code :: "rc \<Rightarrow> int" where
  "rc_code RC_OK = 0"
| "rc_code ENOENT = 2"
| "rc_code EIO = 5"
| "rc_code EACCES = 13"
| "rc_code EEXIST = 17"
| "rc_code ENOTDIR = 20"
| "rc_code EISDIR = 21"
| "rc_code EINVAL = 22"
| "rc_code ENOTEMPTY = 39"
| "rc_code ENONET = 64"

section \<open>Inode objects\<close>

fun obj_ino :: "inode_obj \<Rightarrow> ino_t" where
  "obj_ino (DirObj dn) = in_ino dn"
| "obj_ino (FileObj fn) = in_ino fn"

fun obj_refcount :: "inode_obj \<Rightarrow> 32 word" where
  "obj_refcount (DirObj dn) = in_refcount dn"
| "obj_refcount (FileObj fn) = in_refcount fn"

fun obj_set_refcount :: "32 word \<Rightarrow> inode_obj \<Rightarrow> inode_obj" where
  "obj_set_refcount n (DirObj dn) = DirObj (dn\<lparr>in_refcount := n\<rparr>)"
| "obj_set_refcount n (FileObj fn) = FileObj (fn\<lparr>in_refcount := n\<rparr>)"

fun obj_dump_stat :: "inode_obj \<Rightarrow> stat_buffer_t" where
  "obj_dump_stat (DirObj dn) = Dirnode_dump_stat dn"
| "obj_dump_stat (FileObj fn) = Filenode_dump_stat fn"

definition find_inode :: "world \<Rightarrow> ino_t \<Rightarrow> (nat \<times> inode_obj) option" where
  "find_inode w ino = do {
     a \<leftarrow> inode_map w ino;
     obj \<leftarrow> heap w a;
     Some (a, obj)
   }"

definition upd_obj :: "nat \<Rightarrow> inode_obj \<Rightarrow> world \<Rightarrow> world" where
  "upd_obj a obj w = w\<lparr>heap := (heap w)(a \<mapsto> obj)\<rparr>"

text \<open>
  \<open>inode_map[ino] = p\<close> for a new object; an object the entry pointed to before loses its only owner
  and is destroyed.
\<close>

definition bind_inode :: "ino_t \<Rightarrow> inode_obj \<Rightarrow> world \<Rightarrow> world" where
  "bind_inode ino obj w =
     (let h = (case inode_map w ino of None \<Rightarrow> heap w | Some a \<Rightarrow> (heap w)(a := None))
      in w\<lparr>inode_map := (inode_map w)(ino \<mapsto> next_addr w), heap := h(next_addr w \<mapsto> obj),
           next_addr := Suc (next_addr w)\<rparr>)"

definition erase_inode :: "ino_t \<Rightarrow> world \<Rightarrow> world" where
  "erase_inode ino w =
     (case inode_map w ino of None \<Rightarrow> w
      | Some a \<Rightarrow> w\<lparr>inode_map := (inode_map w)(ino := None), heap := (heap w)(a := None)\<rparr>)"

text \<open>The value of a member that a constructor leaves uninitialised.\<close>

definition junk64 :: "'c env \<Rightarrow> world \<Rightarrow> 64 word" where
  "junk64 e w = le_word (new_bytes e (clock w) 8)"

section \<open>Lookup, forget, attributes\<close>

text \<open>The inode of an entry, from the map or from storage.\<close>

definition lookup_fetch :: "'c env \<Rightarrow> Dirent \<Rightarrow> world \<Rightarrow> ((rc + nat \<times> inode_obj) \<times> world) option" where
  "lookup_fetch e dent w =
     (case find_inode w (de_ino dent) of
        Some p \<Rightarrow> Some (Inr p, w)
      | None \<Rightarrow>
          if de_type dent = T_DT_DIR then do {
            (ok, dn, w) \<leftarrow> load_metadata e Dirnode_load (de_uuid dent)
              (Dirnode_ctor (de_uuid dent) (junk64 e w)) w;
            if \<not> ok then Some (Inl ENONET, w)
            else Some (Inr (next_addr w, DirObj dn), bind_inode (de_ino dent) (DirObj dn) w)
          }
          else if de_type dent = T_DT_REG then do {
            (ok, fn, w) \<leftarrow> load_metadata e Filenode_load (de_uuid dent)
              (Filenode_ctor (de_uuid dent) (junk64 e w) (junk64 e w)) w;
            if \<not> ok then Some (Inl ENONET, w)
            else Some (Inr (next_addr w, FileObj fn), bind_inode (de_ino dent) (FileObj fn) w)
          }
          else Some (Inl ENOENT, w))"

definition ecall_fs_lookup ::
    "'c env \<Rightarrow> ino_t \<Rightarrow> string \<Rightarrow> world \<Rightarrow> (rc \<times> ino_t \<times> stat_buffer_t option \<times> world) option" where
  "ecall_fs_lookup e parent name w =
     (case find_inode w parent of
        Some (a, DirObj parent_dn) \<Rightarrow>
          (case find (\<lambda>d. de_name d = name) (dn_dirent parent_dn) of
             None \<Rightarrow> Some (ENOENT, 0, None, w)
           | Some dent \<Rightarrow> do {
               (r, w) \<leftarrow> lookup_fetch e dent w;
               (case r of
                  Inl err \<Rightarrow> Some (err, 0, None, w)
                | Inr (b, obj) \<Rightarrow>
                    if obj_ino obj \<noteq> de_ino dent then Some (ENOENT, 0, None, w)
                    else Some (RC_OK, de_ino dent, Some (obj_dump_stat obj),
                      upd_obj b (obj_set_refcount (obj_refcount obj + 1) obj) w))
             })
      | _ \<Rightarrow> Some (ENOENT, 0, None, w))"

text \<open>
  \<open>remain\<close> is an \<open>int\<close>: the difference is taken in 64 bits without sign and cut to 32 bits with
  sign.  The result is \<open>remain\<close>, or the number of \<open>ENOENT\<close>.
\<close>

definition ecall_fs_forget :: "ino_t \<Rightarrow> size_t \<Rightarrow> world \<Rightarrow> int \<times> world" where
  "ecall_fs_forget ino nlookup w =
     (case find_inode w ino of
        None \<Rightarrow> (rc_code ENOENT, w)
      | Some (a, obj) \<Rightarrow>
          let diff = ucast (obj_refcount obj) - nlookup :: size_t;
              remain = ucast diff :: 32 word
          in if sint remain \<le> 0 then (sint remain, erase_inode ino w)
             else (sint remain, upd_obj a (obj_set_refcount remain obj) w))"

definition ecall_fs_getattr :: "ino_t \<Rightarrow> world \<Rightarrow> rc \<times> stat_buffer_t option" where
  "ecall_fs_getattr ino w =
     (case find_inode w ino of
        None \<Rightarrow> (ENOENT, None)
      | Some (a, obj) \<Rightarrow> (RC_OK, Some (obj_dump_stat obj)))"

definition ecall_fs_access :: "ino_t \<Rightarrow> int \<Rightarrow> world \<Rightarrow> rc" where
  "ecall_fs_access ino amode w = (case find_inode w ino of None \<Rightarrow> ENOENT | Some _ \<Rightarrow> RC_OK)"

section \<open>Directories\<close>

definition ecall_fs_mkdir ::
    "'c env \<Rightarrow> ino_t \<Rightarrow> string \<Rightarrow> world \<Rightarrow> (rc \<times> ino_t \<times> stat_buffer_t option \<times> world) option" where
  "ecall_fs_mkdir e parent name w =
     (case find_inode w parent of
        None \<Rightarrow> Some (ENOENT, 0, None, w)
      | Some (a, FileObj _) \<Rightarrow> Some (ENOTDIR, 0, None, w)
      | Some (a, DirObj parent_dn) \<Rightarrow>
          if (\<exists>d\<in>set (dn_dirent parent_dn). de_name d = name) then Some (EEXIST, 0, None, w)
          else (case UUID_gen_rand e w of (new_uuid, w) \<Rightarrow> do {
            si \<leftarrow> superinfo w;
            let ino = si_max_ino si;
            let new_dn = (Dirnode_ctor new_uuid (junk64 e w))\<lparr>in_ino := ino, dn_name := name, dn_dirent := []\<rparr>;
            let new_dirent = \<lparr>de_ino = ino, de_name = name, de_type = T_DT_DIR, de_uuid = new_uuid\<rparr>;
            let parent_dn = parent_dn\<lparr>dn_dirent := dn_dirent parent_dn @ [new_dirent]\<rparr>;
            let w = upd_obj a (DirObj parent_dn) w;
            let w = snd (save_metadata e Dirnode_dump (md_uuid parent_dn) parent_dn w);
            let b = next_addr w;
            let w = bind_inode ino (DirObj new_dn) w;
            let si = si\<lparr>si_max_ino := ino + 1\<rparr>;
            let w = w\<lparr>superinfo := Some si\<rparr>;
            let statbuf = Dirnode_dump_stat new_dn;
            let new_dn = new_dn\<lparr>in_refcount := in_refcount new_dn + 1\<rparr>;
            let w = upd_obj b (DirObj new_dn) w;
            let w = snd (save_metadata e Superinfo_dump (md_uuid si) si w);
            let w = snd (save_metadata e Dirnode_dump (md_uuid new_dn) new_dn w);
            Some (RC_OK, ino, Some statbuf, w)
          }))"

definition ecall_fs_create ::
    "'c env \<Rightarrow> ino_t \<Rightarrow> string \<Rightarrow> world \<Rightarrow> (rc \<times> ino_t \<times> stat_buffer_t option \<times> world) option" where
  "ecall_fs_create e parent name w =
     (case find_inode w parent of
        None \<Rightarrow> Some (ENOENT, 0, None, w)
      | Some (a, FileObj _) \<Rightarrow> Some (ENOTDIR, 0, None, w)
      | Some (a, DirObj parent_dn) \<Rightarrow>
          if (\<exists>d\<in>set (dn_dirent parent_dn). de_name d = name) then Some (EEXIST, 0, None, w)
          else (case UUID_gen_rand e w of (new_uuid, w) \<Rightarrow> do {
            si \<leftarrow> superinfo w;
            let ino = si_max_ino si;
            let new_fn = (Filenode_ctor new_uuid (junk64 e w) (junk64 e w))\<lparr>in_ino := ino, fn_size := 0\<rparr>;
            let new_dirent = \<lparr>de_ino = ino, de_name = name, de_type = T_DT_REG, de_uuid = new_uuid\<rparr>;
            let parent_dn = parent_dn\<lparr>dn_dirent := dn_dirent parent_dn @ [new_dirent]\<rparr>;
            let w = upd_obj a (DirObj parent_dn) w;
            let w = snd (save_metadata e Dirnode_dump (md_uuid parent_dn) parent_dn w);
            let b = next_addr w;
            let w = bind_inode ino (FileObj new_fn) w;
            let si = si\<lparr>si_max_ino := ino + 1\<rparr>;
            let w = w\<lparr>superinfo := Some si\<rparr>;
            let statbuf = Filenode_dump_stat new_fn;
            let new_fn = new_fn\<lparr>in_refcount := in_refcount new_fn + 1\<rparr>;
            let w = upd_obj b (FileObj new_fn) w;
            let w = snd (save_metadata e Superinfo_dump (md_uuid si) si w);
            let w = snd (save_metadata e Filenode_dump (md_uuid new_fn) new_fn w);
            Some (RC_OK, ino, Some statbuf, w)
          }))"

text \<open>Chunks that were never written have the zero UUID and no file; failures are only logged.\<close>

fun remove_chunks :: "'c env \<Rightarrow> Chunk list \<Rightarrow> world \<Rightarrow> world" where
  "remove_chunks e [] w = w"
| "remove_chunks e (ck # cks) w =
     remove_chunks e cks (if ck_uuid ck \<noteq> UUID_zero then snd (remove_chunk e (ck_uuid ck) w) else w)"

text \<open>The entry is erased from the directory in memory before the directory is saved.\<close>

definition unlink_entry ::
    "'c env \<Rightarrow> nat \<Rightarrow> dirnode \<Rightarrow> string \<Rightarrow> world \<Rightarrow> rc \<times> world" where
  "unlink_entry e a parent_dn name w =
     (let parent_dn = parent_dn\<lparr>dn_dirent := erase_first (\<lambda>d. de_name d = name) (dn_dirent parent_dn)\<rparr>;
          w = upd_obj a (DirObj parent_dn) w
      in case save_metadata e Dirnode_dump (md_uuid parent_dn) parent_dn w of (ok, w) \<Rightarrow>
        if \<not> ok then (EACCES, w) else (RC_OK, w))"

definition ecall_fs_unlink :: "'c env \<Rightarrow> ino_t \<Rightarrow> string \<Rightarrow> world \<Rightarrow> (rc \<times> world) option" where
  "ecall_fs_unlink e parent name w =
     (case find_inode w parent of
        None \<Rightarrow> Some (ENOENT, w)
      | Some (a, FileObj _) \<Rightarrow> Some (ENOTDIR, w)
      | Some (a, DirObj parent_dn) \<Rightarrow>
          (case find (\<lambda>d. de_name d = name) (dn_dirent parent_dn) of
             None \<Rightarrow> Some (ENOENT, w)
           | Some dent \<Rightarrow>
               if de_type dent = T_DT_DIR then Some (EISDIR, w)
               else do {
                 (ok, file_p, w) \<leftarrow> load_metadata e Filenode_load (de_uuid dent)
                   (Filenode_ctor (de_uuid dent) (junk64 e w) (junk64 e w)) w;
                 if \<not> ok then Some (EACCES, w)
                 else case remove_metadata e (de_uuid dent) w of (ok, w) \<Rightarrow>
                   if \<not> ok then Some (EACCES, w)
                   else Some (unlink_entry e a parent_dn name (remove_chunks e (fn_chunks file_p) w))
               }))"

definition ecall_fs_rmdir :: "'c env \<Rightarrow> ino_t \<Rightarrow> string \<Rightarrow> world \<Rightarrow> (rc \<times> world) option" where
  "ecall_fs_rmdir e parent name w =
     (case find_inode w parent of
        None \<Rightarrow> Some (ENOENT, w)
      | Some (a, FileObj _) \<Rightarrow> Some (ENOTDIR, w)
      | Some (a, DirObj parent_dn) \<Rightarrow>
          (case find (\<lambda>d. de_name d = name) (dn_dirent parent_dn) of
             None \<Rightarrow> Some (ENOENT, w)
           | Some dent \<Rightarrow>
               if de_type dent \<noteq> T_DT_DIR then Some (ENOTDIR, w)
               else do {
                 (ok, dir_p, w) \<leftarrow> load_metadata e Dirnode_load (de_uuid dent)
                   (Dirnode_ctor (de_uuid dent) (junk64 e w)) w;
                 if \<not> ok then Some (EACCES, w)
                 else if length (dn_dirent dir_p) \<noteq> 0 then Some (ENOTEMPTY, w)
                 else case remove_metadata e (de_uuid dent) w of (ok, w) \<Rightarrow>
                   if \<not> ok then Some (EACCES, w)
                   else Some (unlink_entry e a parent_dn name w)
               }))"

definition ecall_fs_get_dirent_size :: "ino_t \<Rightarrow> world \<Rightarrow> rc \<times> size_t option" where
  "ecall_fs_get_dirent_size ino w =
     (case find_inode w ino of
        None \<Rightarrow> (ENOENT, None)
      | Some (a, FileObj _) \<Rightarrow> (ENOTDIR, None)
      | Some (a, DirObj dn) \<Rightarrow> (RC_OK, Some (of_nat (length (dn_dirent dn)))))"

text \<open>The count is compared after an entry has been written, also for the first one.\<close>

fun get_dirent_loop :: "nat \<Rightarrow> nat \<Rightarrow> Dirent list \<Rightarrow> bytes \<Rightarrow> bytes option" where
  "get_dirent_loop i count [] buf = Some buf"
| "get_dirent_loop i count (d # ds) buf =
     (if length buf < sizeof_dirent * i + sizeof_dirent then None
      else let buf = Dirent_dump d (sizeof_dirent * i) buf
      in if count \<le> Suc i then Some buf else get_dirent_loop (Suc i) count ds buf)"

definition ecall_fs_get_dirent :: "ino_t \<Rightarrow> bytes \<Rightarrow> size_t \<Rightarrow> world \<Rightarrow> (rc \<times> bytes) option" where
  "ecall_fs_get_dirent ino buf count w =
     (case find_inode w ino of
        None \<Rightarrow> Some (ENOENT, buf)
      | Some (a, FileObj _) \<Rightarrow> Some (ENOTDIR, buf)
      | Some (a, DirObj dn) \<Rightarrow> do {
          buf \<leftarrow> get_dirent_loop 0 (unat count) (dn_dirent dn) buf;
          Some (RC_OK, buf)
        })"

section \<open>Files\<close>

definition ecall_fs_open :: "'c env \<Rightarrow> ino_t \<Rightarrow> 32 word \<Rightarrow> world \<Rightarrow> rc \<times> world" where
  "ecall_fs_open e ino flags w =
     (case find_inode w ino of
        Some (a, FileObj fn) \<Rightarrow>
          if flags AND OF_TRUNC \<noteq> 0
          then let w = remove_chunks e (fn_chunks fn) w
            in (RC_OK, upd_obj a (FileObj (fn\<lparr>fn_chunks := [], fn_size := 0\<rparr>)) w)
          else (RC_OK, w)
      | _ \<Rightarrow> (EACCES, w))"

definition chunks_resize :: "nat \<Rightarrow> Chunk list \<Rightarrow> Chunk list" where
  "chunks_resize n cks = take n cks @ replicate (n - length cks) Chunk_zero"

text \<open>
  The first chunk of a request, and one past its last.  The offset has a sign and its quotient is
  rounded towards zero; the sum with the size is taken without sign.
\<close>

definition first_chunk :: "off_t \<Rightarrow> size_t" where
  "first_chunk offset = word_of_int (soff offset sdiv int CHUNKSIZE)"

definition end_chunk :: "off_t \<Rightarrow> size_t \<Rightarrow> size_t" where
  "end_chunk offset sz = (offset + sz + of_nat CHUNKSIZE - 1) div of_nat CHUNKSIZE"

text \<open>Where the request starts and ends inside chunk \<open>idx\<close>.\<close>

definition seg_start :: "off_t \<Rightarrow> size_t \<Rightarrow> nat \<Rightarrow> int" where
  "seg_start offset st idx = (if idx = unat st then soff offset smod int CHUNKSIZE else 0)"

definition seg_end :: "off_t \<Rightarrow> size_t \<Rightarrow> size_t \<Rightarrow> nat \<Rightarrow> int" where
  "seg_end offset sz en idx =
     (if idx = unat (en - 1) then uint ((offset + sz - 1) mod of_nat CHUNKSIZE + 1) else int CHUNKSIZE)"

text \<open>
  The bounded copy, with the destination and the source as allocation and offset.  It is undefined
  when the stated size of the destination exceeds the allocation, or when bytes are copied that the
  source does not have.
\<close>

definition mem_copy_s :: "'c env \<Rightarrow> bytes \<Rightarrow> nat \<Rightarrow> nat \<Rightarrow> bytes \<Rightarrow> nat \<Rightarrow> nat \<Rightarrow> bytes option" where
  "mem_copy_s e dst doff dmax src soff' count =
     (if length dst < doff + dmax \<or> length src < soff' \<or> count \<le> dmax \<and> length src < soff' + count
      then None
      else Some (take doff dst @ memcpy_verw_s e (drop doff dst) dmax (drop soff' src) count))"

fun read_loop ::
    "'c env \<Rightarrow> nat \<Rightarrow> off_t \<Rightarrow> size_t \<Rightarrow> size_t \<Rightarrow> size_t \<Rightarrow> nat list \<Rightarrow> size_t \<Rightarrow> bytes \<Rightarrow> world \<Rightarrow>
     (rc \<times> size_t \<times> bytes \<times> world) option" where
  "read_loop e a offset sz st en [] wsize buf w = Some (RC_OK, wsize, buf, w)"
| "read_loop e a offset sz st en (idx # idxs) wsize buf w =
     (case heap w a of
        Some (FileObj fn) \<Rightarrow>
          if length (fn_chunks fn) \<le> idx then None
          else let off_st = seg_start offset st idx; off_en = seg_end offset sz en idx;
                   n = word_of_int (off_en - off_st) :: size_t
          in if ck_uuid (fn_chunks fn ! idx) = UUID_zero
          then if length buf < unat wsize + unat n then None
            else read_loop e a offset sz st en idxs (wsize + n)
              (wr (unat wsize) (replicate (unat n) 0) buf) w
          else do {
            (ok, cache, w) \<leftarrow> load_chunk e (ChunkCache_ctor CHUNKSIZE a (of_nat idx)) w;
            if \<not> ok then Some (EINVAL, wsize, buf, w)
            else if off_st < 0 then None
            else do {
              buf \<leftarrow> mem_copy_s e buf (unat wsize) (unat (sz - wsize)) (cc_data cache) (nat off_st) (unat n);
              (ok, w) \<leftarrow> save_chunk e cache w;
              if \<not> ok then Some (EINVAL, wsize + n, buf, w)
              else read_loop e a offset sz st en idxs (wsize + n) buf w
            }
          }
      | _ \<Rightarrow> None)"

text \<open>The results are the status, the value left in \<open>*size\<close>, the caller's buffer and the world.\<close>

definition ecall_fs_read ::
    "'c env \<Rightarrow> ino_t \<Rightarrow> bytes \<Rightarrow> off_t \<Rightarrow> size_t \<Rightarrow> world \<Rightarrow> (rc \<times> size_t \<times> bytes \<times> world) option" where
  "ecall_fs_read e ino buf offset sz w =
     (case find_inode w ino of
        Some (a, FileObj fn) \<Rightarrow>
          let sz = min sz (fn_size fn - offset);
              chunk_st = first_chunk offset;
              chunk_en = end_chunk offset sz
          in if of_nat (length (fn_chunks fn)) < chunk_en then Some (EINVAL, sz, buf, w)
          else let chunk_en = min chunk_en (of_nat (length (fn_chunks fn))) in do {
            (r, wsize, buf, w) \<leftarrow> read_loop e a offset sz chunk_st chunk_en [unat chunk_st..<unat chunk_en] 0 buf w;
            if r \<noteq> RC_OK then Some (r, sz, buf, w)
            else if wsize \<noteq> sz then Some (EINVAL, sz, buf, w)
            else Some (RC_OK, sz, buf, w)
          }
      | _ \<Rightarrow> Some (EINVAL, sz, buf, w))"

fun write_loop ::
    "'c env \<Rightarrow> nat \<Rightarrow> bytes \<Rightarrow> off_t \<Rightarrow> size_t \<Rightarrow> size_t \<Rightarrow> size_t \<Rightarrow> nat \<Rightarrow> int \<Rightarrow> nat list \<Rightarrow> size_t \<Rightarrow> world \<Rightarrow>
     (rc \<times> size_t \<times> world) option" where
  "write_loop e a buf offset sz st en prev_size last_surplus [] wsize w = Some (RC_OK, wsize, w)"
| "write_loop e a buf offset sz st en prev_size last_surplus (idx # idxs) wsize w =
     (case heap w a of
        Some (FileObj fn) \<Rightarrow>
          if length (fn_chunks fn) \<le> idx then None
          else let off_st = seg_start offset st idx; off_en = seg_end offset sz en idx;
                   off_chunk_en = (if Suc idx = prev_size then last_surplus else int CHUNKSIZE);
                   n = word_of_int (off_en - off_st) :: size_t;
                   cache = ChunkCache_ctor CHUNKSIZE a (of_nat idx);
                   ck = fn_chunks fn ! idx
          in do {
            (cache, w) \<leftarrow>
              (if ck_uuid ck = UUID_zero
               then (case UUID_gen_rand e w of (u, w) \<Rightarrow> Some (cache, set_chunk a idx (ck\<lparr>ck_uuid := u\<rparr>) w))
               else if off_st \<noteq> 0 \<or> off_en \<noteq> off_chunk_en
               then (do {
                 (ok, cache, w) \<leftarrow> load_chunk e cache w;
                 Some (cache, w)
               })
               else Some (cache, w));
            if off_st < 0 then None
            else do {
              data \<leftarrow> mem_copy_s e (cc_data cache) (nat off_st) (CHUNKSIZE - nat off_st) buf (unat wsize) (unat n);
              (ok, w) \<leftarrow> save_chunk e (cache\<lparr>cc_data := data, cc_modified := True\<rparr>) w;
              if \<not> ok then Some (EINVAL, wsize + n, w)
              else write_loop e a buf offset sz st en prev_size last_surplus idxs (wsize + n) w
            }
          }
      | _ \<Rightarrow> None)"

definition ecall_fs_write ::
    "'c env \<Rightarrow> ino_t \<Rightarrow> bytes \<Rightarrow> off_t \<Rightarrow> size_t \<Rightarrow> world \<Rightarrow> (rc \<times> size_t \<times> world) option" where
  "ecall_fs_write e ino buf offset sz w =
     (case find_inode w ino of
        Some (a, FileObj fn) \<Rightarrow>
          let chunk_st = first_chunk offset;
              chunk_en = end_chunk offset sz;
              prev_size = length (fn_chunks fn);
              last_surplus = uint ((fn_size fn + of_nat CHUNKSIZE - 1) mod of_nat CHUNKSIZE);
              w = (if of_nat prev_size < chunk_en
                   then upd_obj a (FileObj (fn\<lparr>fn_chunks := chunks_resize (unat chunk_en) (fn_chunks fn)\<rparr>)) w
                   else w)
          in do {
            (r, wsize, w) \<leftarrow> write_loop e a buf offset sz chunk_st chunk_en prev_size last_surplus
              [unat chunk_st..<unat chunk_en] 0 w;
            if r \<noteq> RC_OK then Some (r, sz, w)
            else (case heap w a of
              Some (FileObj fn) \<Rightarrow>
                Some (RC_OK, wsize, upd_obj a (FileObj (fn\<lparr>fn_size := max (fn_size fn) (offset + wsize)\<rparr>)) w)
            | _ \<Rightarrow> None)
          }
      | _ \<Rightarrow> Some (EINVAL, sz, w))"

fun flush_loop :: "'c env \<Rightarrow> nat \<Rightarrow> nat list \<Rightarrow> world \<Rightarrow> (rc \<times> world) option" where
  "flush_loop e a [] w = Some (RC_OK, w)"
| "flush_loop e a (idx # idxs) w =
     (case heap w a of
        Some (FileObj fn) \<Rightarrow>
          if length (fn_chunks fn) \<le> idx then None
          else do {
            (ok, ck, w) \<leftarrow> flush_chunk e (fn_chunks fn ! idx) w;
            let w = set_chunk a idx ck w;
            if \<not> ok then Some (EIO, w) else flush_loop e a idxs w
          }
      | _ \<Rightarrow> None)"

definition ecall_fs_flush :: "'c env \<Rightarrow> ino_t \<Rightarrow> world \<Rightarrow> (rc \<times> world) option" where
  "ecall_fs_flush e ino w =
     (case find_inode w ino of
        Some (a, FileObj fn) \<Rightarrow> do {
          (r, w) \<leftarrow> flush_loop e a [0..<length (fn_chunks fn)] w;
          if r \<noteq> RC_OK then Some (r, w)
          else (case heap w a of
            Some (FileObj fn) \<Rightarrow>
              (case save_metadata e Filenode_dump (md_uuid fn) fn w of (ok, w) \<Rightarrow>
                 Some (if ok then RC_OK else EIO, w))
          | _ \<Rightarrow> None)
        }
      | _ \<Rightarrow> Some (EINVAL, w))"

definition ecall_fs_fallocate :: "ino_t \<Rightarrow> int \<Rightarrow> off_t \<Rightarrow> size_t \<Rightarrow> world \<Rightarrow> rc \<times> world" where
  "ecall_fs_fallocate ino mode offset len w =
     (case find_inode w ino of
        Some (a, FileObj fn) \<Rightarrow>
          let chunk_en = end_chunk offset len;
              cks = (if of_nat (length (fn_chunks fn)) < chunk_en
                     then chunks_resize (unat chunk_en) (fn_chunks fn) else fn_chunks fn)
          in (RC_OK, upd_obj a (FileObj (fn\<lparr>fn_chunks := cks, fn_size := max (fn_size fn) (offset + len)\<rparr>)) w)
      | _ \<Rightarrow> (EACCES, w))"

end
