(* ===== verification/Chunk_Path.thy ===== *)
theory Chunk_Path
  imports Ecall_Fs
begin

text \<open>
  What the chunk cache and the store hold together.  The content of a chunk is, by UUID: zeros for a
  chunk that was never written, the cached bytes, or else the decrypted file.  \<open>data_inv\<close> says how
  cache, heap and store agree; under it, moving chunks between cache and store changes no content.
\<close>

named_theorems path_simps \<open>contents of chunks and frames of the storage functions\<close>

section \<open>Contents\<close>

definition chunk_at :: "world \<Rightarrow> nat \<Rightarrow> nat \<Rightarrow> Chunk option" where
  "chunk_at w a i =
     (case heap w a of
        Some (FileObj fn) \<Rightarrow> if i < length (fn_chunks fn) then Some (fn_chunks fn ! i) else None
      | _ \<Rightarrow> None)"

text \<open>The plaintext of the file of a chunk, if the file is there and authentic.\<close>

definition stored_chunk :: "'c env \<Rightarrow> world \<Rightarrow> Chunk \<Rightarrow> bytes option" where
  "stored_chunk e w ck =
     (case files w (UUID_unparse (ck_uuid ck)) of
        None \<Rightarrow> None
      | Some f \<Rightarrow>
          let iv = le_bytes 12 (ck_iv ck); aad = UUID_dump (ck_uuid ck);
              d = gcm_pt (mbed e) (volkey w) iv aad f
          in if length f = CHUNKSIZE \<and> le_bytes 16 (ck_tag ck) = gcm_tag (mbed e) (volkey w) iv aad d
             then Some d else None)"

definition chunk_content :: "'c env \<Rightarrow> world \<Rightarrow> Chunk \<Rightarrow> bytes option" where
  "chunk_content e w ck =
     (if ck_uuid ck = UUID_zero then Some (replicate CHUNKSIZE 0)
      else case cs_lookup (ck_uuid ck) (local_cache w) of
        Some c \<Rightarrow> Some (cc_data c)
      | None \<Rightarrow> stored_chunk e w ck)"

definition loc_content :: "'c env \<Rightarrow> world \<Rightarrow> nat \<Rightarrow> nat \<Rightarrow> (uuid \<times> bytes option) option" where
  "loc_content e w a i = map_option (\<lambda>ck. (ck_uuid ck, chunk_content e w ck)) (chunk_at w a i)"

section \<open>The invariant\<close>

definition uuids_unique :: "world \<Rightarrow> bool" where
  "uuids_unique w \<longleftrightarrow> (\<forall>a i b j ck ck'. chunk_at w a i = Some ck \<and> chunk_at w b j = Some ck' \<and>
     ck_uuid ck = ck_uuid ck' \<and> ck_uuid ck \<noteq> UUID_zero \<longrightarrow> a = b \<and> i = j)"

definition cached_ok :: "'c env \<Rightarrow> world \<Rightarrow> ChunkCache \<Rightarrow> bool" where
  "cached_ok e w c \<longleftrightarrow> (\<exists>ck. chunk_at w (cc_filenode c) (unat (cc_idx c)) = Some ck \<and>
     ck_uuid ck = cc_uuid c \<and> cc_uuid c \<noteq> UUID_zero \<and> length (cc_data c) = CHUNKSIZE \<and>
     (cc_modified c \<or> stored_chunk e w ck = Some (cc_data c)))"

definition data_inv :: "'c env \<Rightarrow> world \<Rightarrow> bool" where
  "data_inv e w \<longleftrightarrow> cs_inv (local_cache w) \<and> uuids_unique w \<and> length (volkey w) = VOLKEYSIZE \<and>
     (\<forall>c\<in>set (cs_items (local_cache w)). cached_ok e w c)"

text \<open>The heap up to the vectors and tags of chunks, which saving a chunk changes.\<close>

fun obj_skel :: "inode_obj \<Rightarrow> inode_obj" where
  "obj_skel (DirObj dn) = DirObj dn"
| "obj_skel (FileObj fn) = FileObj (fn\<lparr>fn_chunks := map (\<lambda>ck. ck\<lparr>ck_iv := 0, ck_tag := 0\<rparr>) (fn_chunks fn)\<rparr>)"

definition heap_skel :: "world \<Rightarrow> nat \<rightharpoonup> inode_obj" where
  "heap_skel w a = map_option obj_skel (heap w a)"

definition frame_eq :: "world \<Rightarrow> world \<Rightarrow> bool" where
  "frame_eq w w' \<longleftrightarrow> inode_map w' = inode_map w \<and> next_addr w' = next_addr w \<and>
     superinfo w' = superinfo w \<and> volkey w' = volkey w \<and> rnd w' = rnd w \<and> heap_skel w' = heap_skel w"

lemma frame_eq_refl [simp]: "frame_eq w w"
  by (simp add: frame_eq_def)

lemma frame_eq_trans [trans]: "frame_eq w w' \<Longrightarrow> frame_eq w' w'' \<Longrightarrow> frame_eq w w''"
  by (simp add: frame_eq_def)

lemma ChunkCache_chunk_at: "ChunkCache_chunk w c = chunk_at w (cc_filenode c) (unat (cc_idx c))"
  by (simp add: ChunkCache_chunk_def chunk_at_def)

lemma chunk_at_cong: "heap w' = heap w \<Longrightarrow> chunk_at w' = chunk_at w"
  by (simp add: chunk_at_def fun_eq_iff)

lemma stored_chunk_cong:
  "files w' (UUID_unparse (ck_uuid ck)) = files w (UUID_unparse (ck_uuid ck)) \<Longrightarrow> volkey w' = volkey w \<Longrightarrow>
   stored_chunk e w' ck = stored_chunk e w ck"
  by (simp add: stored_chunk_def split: option.split)

lemma chunk_at_local_cache [simp]: "chunk_at (w\<lparr>local_cache := st\<rparr>) = chunk_at w"
  by (rule chunk_at_cong) simp

lemma stored_chunk_local_cache [simp]: "stored_chunk e (w\<lparr>local_cache := st\<rparr>) ck = stored_chunk e w ck"
  by (rule stored_chunk_cong) simp_all

lemma stored_chunk_length:
  assumes "env_lawful e" "length (volkey w) = VOLKEYSIZE" "stored_chunk e w ck = Some d"
  shows "length d = CHUNKSIZE"
  using assms by (auto simp: stored_chunk_def Let_def gcm_params_def CHUNKSIZE_def env_lawful_def gcm.length_pt
      split: option.splits if_splits)

section \<open>Loading and saving one chunk\<close>

lemma gcm_params_chunk:
  "length key = VOLKEYSIZE \<Longrightarrow> length d = CHUNKSIZE \<Longrightarrow> gcm_params key (le_bytes 12 (iv :: iv_t)) (UUID_dump u) d"
  by (simp add: gcm_params_def CHUNKSIZE_def)

lemma load_cache_stored:
  assumes e: "env_lawful e" "host_reliable e" and key: "length (volkey w) = VOLKEYSIZE"
    and st: "stored_chunk e w ck = Some d" and data: "length data = CHUNKSIZE"
  shows "\<exists>w'. load_cache e ck data w = (True, d, w') \<and> host.more w' = host.more w \<and>
    files w' = files w \<and> rnd w' = rnd w"
proof -
  from st obtain f where f: "files w (UUID_unparse (ck_uuid ck)) = Some f" and len: "length f = CHUNKSIZE"
    and d: "d = gcm_pt (mbed e) (volkey w) (le_bytes 12 (ck_iv ck)) (UUID_dump (ck_uuid ck)) f"
    and tag: "le_bytes 16 (ck_tag ck) = gcm_tag (mbed e) (volkey w) (le_bytes 12 (ck_iv ck)) (UUID_dump (ck_uuid ck)) d"
    by (auto simp: stored_chunk_def Let_def split: option.splits if_splits)
  note params = gcm_params_chunk [OF key len]
  have "decrypt_buffer (mbed e) (volkey w) (le_bytes 12 (ck_iv ck)) (UUID_dump (ck_uuid ck)) f data
      (le_bytes 16 (ck_tag ck)) = (True, d)"
    by (subst gcm.unseal_eq [OF env_lawfulD(1) [OF e(1)] params])
      (use tag [symmetric] d in \<open>simp_all add: gcm.length_pt [OF env_lawfulD(1) [OF e(1)] params] len data\<close>)
  then show ?thesis
    using e(2) f len data
    by (simp add: load_cache_def sgx_enter_def ocall_load_file_eq host_reliable_def Let_def)
      (simp add: tick_def)
qed

lemma save_cache_stored:
  assumes e: "env_lawful e" "host_reliable e" and key: "length (volkey w) = VOLKEYSIZE"
    and data: "length data = CHUNKSIZE"
  shows "\<exists>ck' w'. save_cache e ck data w = (True, ck', w') \<and> ck_uuid ck' = ck_uuid ck \<and>
    stored_chunk e w' ck' = Some data \<and> host.more w' = host.more w \<and> rnd w' = rnd w \<and>
    (\<forall>f. f \<noteq> UUID_unparse (ck_uuid ck) \<longrightarrow> files w' f = files w f)"
proof -
  let ?aad = "UUID_dump (ck_uuid ck)" and ?iv = "le_bytes 12 (0 :: iv_t)"
  let ?ct = "gcm_ct (mbed e) (volkey w) ?iv ?aad data" and ?tg = "gcm_tag (mbed e) (volkey w) ?iv ?aad data"
  note M = env_lawfulD(1) [OF e(1)]
  note params = gcm_params_chunk [OF key data, of 0 "ck_uuid ck"]
  have enc: "encrypt_buffer (mbed e) (volkey w) ?iv ?aad data (replicate CHUNKSIZE 0) (le_bytes 16 (ck_tag ck)) =
      (True, ?ct, ?tg)"
    by (subst gcm.seal_eq [OF M params]) (simp_all add: gcm.length_ct [OF M params] data)
  have tg: "le_bytes 16 (le_word ?tg :: tag_t) = ?tg"
    by (rule le_bytes_le_word) (simp_all add: gcm.length_tg [OF M params])
  let ?w1 = "snd (sgx_enter e w)"
  let ?w' = "ocall_save_file e (UUID_unparse (ck_uuid ck)) ?ct ?w1"
  let ?ck' = "ck\<lparr>ck_iv := 0, ck_tag := le_word ?tg\<rparr>"
  have sv: "save_cache e ck data w = (True, ?ck', ?w')"
    using enc e(2) by (simp add: save_cache_def Let_def sgx_enter_def host_reliable_def)
  have more: "host.more ?w' = host.more w" by simp
  have "files ?w' (UUID_unparse (ck_uuid ck)) = Some ?ct"
    by (simp add: store.put_contents [OF e(2)])
  then have "stored_chunk e ?w' ?ck' = Some data"
    using more_world(5) [OF more] tg gcm.length_ct [OF M params] gcm.pt_ct [OF M params] data
    by (simp add: stored_chunk_def Let_def)
  then show ?thesis
    using sv more save_cache_frame [OF sv] by auto
qed

section \<open>Frames of a changed chunk\<close>

lemma set_chunk_fields [simp]:
  "inode_map (set_chunk a i ck w) = inode_map w" "next_addr (set_chunk a i ck w) = next_addr w"
  "superinfo (set_chunk a i ck w) = superinfo w" "volkey (set_chunk a i ck w) = volkey w"
  "rnd (set_chunk a i ck w) = rnd w" "files (set_chunk a i ck w) = files w"
  by (simp_all add: set_chunk_def split: option.splits inode_obj.splits)

lemma chunk_at_SomeD:
  assumes "chunk_at w a i = Some ck"
  obtains fn where "heap w a = Some (FileObj fn)" and "i < length (fn_chunks fn)" and "fn_chunks fn ! i = ck"
  using assms by (auto simp: chunk_at_def split: option.splits inode_obj.splits if_splits)

lemma chunk_at_set_chunk:
  assumes "chunk_at w a i = Some ck"
  shows "chunk_at (set_chunk a i ck' w) b j = (if b = a \<and> j = i then Some ck' else chunk_at w b j)"
proof -
  from assms obtain fn where "heap w a = Some (FileObj fn)" "i < length (fn_chunks fn)"
    by (rule chunk_at_SomeD)
  then show ?thesis by (auto simp: set_chunk_def chunk_at_def)
qed

lemma heap_skel_set_chunk:
  assumes "chunk_at w a i = Some ck" and "ck_uuid ck' = ck_uuid ck"
  shows "heap_skel (set_chunk a i ck' w) = heap_skel w"
proof -
  from assms(1) obtain fn where fn: "heap w a = Some (FileObj fn)" "i < length (fn_chunks fn)"
    "fn_chunks fn ! i = ck" by (rule chunk_at_SomeD)
  let ?f = "\<lambda>ck :: Chunk. ck\<lparr>ck_iv := 0, ck_tag := 0\<rparr>"
  have "?f ck' = ?f ck" using assms(2) by simp
  then have "map ?f ((fn_chunks fn)[i := ck']) = map ?f (fn_chunks fn)"
    using fn by (simp add: map_update list_update_same_conv)
  then show ?thesis
    using fn by (auto simp: heap_skel_def set_chunk_def fun_eq_iff)
qed

lemma heap_skel_cong: "heap w' = heap w \<Longrightarrow> heap_skel w' = heap_skel w"
  by (simp add: heap_skel_def fun_eq_iff)

lemma heap_skel_local_cache [simp]: "heap_skel (w\<lparr>local_cache := st\<rparr>) = heap_skel w"
  by (rule heap_skel_cong) simp

lemma obj_skel_FileObj_uuids:
  assumes "obj_skel (FileObj f) = obj_skel (FileObj g)"
  shows "map ck_uuid (fn_chunks f) = map ck_uuid (fn_chunks g)"
proof -
  let ?z = "\<lambda>ck :: Chunk. ck\<lparr>ck_iv := 0, ck_tag := 0\<rparr>"
  have "map ?z (fn_chunks f) = map ?z (fn_chunks g)"
    using assms by (cases f; cases g; simp)
  from arg_cong [OF this, of "map ck_uuid"] show ?thesis by (simp add: comp_def)
qed

definition nth_opt :: "'a list \<Rightarrow> nat \<Rightarrow> 'a option" where
  "nth_opt xs i = (if i < length xs then Some (xs ! i) else None)"

lemma map_option_nth_opt: "map_option f (nth_opt xs i) = nth_opt (map f xs) i"
  by (simp add: nth_opt_def)

lemma chunk_at_nth_opt:
  "heap w a = Some (FileObj fn) \<Longrightarrow> chunk_at w a i = nth_opt (fn_chunks fn) i"
  by (simp add: chunk_at_def nth_opt_def)

lemma heap_skel_uuid_at:
  assumes "heap_skel w' = heap_skel w"
  shows "map_option ck_uuid (chunk_at w' a i) = map_option ck_uuid (chunk_at w a i)"
proof -
  have eq: "map_option obj_skel (heap w' a) = map_option obj_skel (heap w a)"
    using fun_cong [OF assms, of a] by (simp add: heap_skel_def)
  show ?thesis
  proof (cases "\<exists>f g. heap w' a = Some (FileObj f) \<and> heap w a = Some (FileObj g)")
    case True
    then obtain f g where h: "heap w' a = Some (FileObj f)" "heap w a = Some (FileObj g)" by blast
    with eq have "obj_skel (FileObj f) = obj_skel (FileObj g)" by simp
    from obj_skel_FileObj_uuids [OF this] show ?thesis
      by (simp add: chunk_at_nth_opt [OF h(1)] chunk_at_nth_opt [OF h(2)] map_option_nth_opt)
  next
    case False
    with eq show ?thesis
      by (auto simp: chunk_at_def map_option_case split: option.splits inode_obj.splits)
  qed
qed

section \<open>One step at one chunk\<close>

lemma chunk_content_other:
  assumes "ck_uuid c \<noteq> u" and "volkey w' = volkey w"
    and "\<And>f. f \<noteq> UUID_unparse u \<Longrightarrow> files w' f = files w f"
    and "\<And>v. v \<noteq> u \<Longrightarrow> cs_lookup v (local_cache w') = cs_lookup v (local_cache w)"
  shows "stored_chunk e w' c = stored_chunk e w c" and "chunk_content e w' c = chunk_content e w c"
proof -
  show "stored_chunk e w' c = stored_chunk e w c"
    using assms(1) by (intro stored_chunk_cong assms(2,3)) (simp add: UUID_unparse_inject)
  then show "chunk_content e w' c = chunk_content e w c"
    using assms(1,4) by (simp add: chunk_content_def split: option.split)
qed

text \<open>
  A step that concerns the chunk at one location: it may change the vector and tag of that chunk, its
  file and its entry in the cache, and nothing else that contents depend on.
\<close>

definition chunk_step :: "'c env \<Rightarrow> nat \<Rightarrow> nat \<Rightarrow> Chunk \<Rightarrow> Chunk \<Rightarrow> world \<Rightarrow> world \<Rightarrow> bool" where
  "chunk_step e a i ck ck' w w' \<longleftrightarrow>
     chunk_at w a i = Some ck \<and>
     (\<forall>b j. chunk_at w' b j = (if b = a \<and> j = i then Some ck' else chunk_at w b j)) \<and>
     ck_uuid ck' = ck_uuid ck \<and> volkey w' = volkey w \<and>
     (\<forall>f. f \<noteq> UUID_unparse (ck_uuid ck) \<longrightarrow> files w' f = files w f) \<and>
     cs_inv (local_cache w') \<and>
     (\<forall>v. v \<noteq> ck_uuid ck \<longrightarrow> cs_lookup v (local_cache w') = cs_lookup v (local_cache w)) \<and>
     (\<forall>c. cs_lookup (ck_uuid ck) (local_cache w') = Some c \<longrightarrow> cached_ok e w' c)"

lemma cs_lookup_iff:
  assumes "cs_inv st"
  shows "cs_lookup u st = Some c \<longleftrightarrow> c \<in> set (cs_items st) \<and> cc_uuid c = u"
  using cs.distinct_keys [OF assms] find_key_unique [of cc_uuid "cs_items st" c]
  by (auto simp: cs_lookup_def dest: find_SomeD)

lemma data_invD:
  assumes "data_inv e w"
  shows "cs_inv (local_cache w)" and "uuids_unique w" and "length (volkey w) = VOLKEYSIZE"
    and "cs_lookup u (local_cache w) = Some c \<Longrightarrow> cached_ok e w c"
  using assms cs_lookup_iff by (auto simp: data_inv_def)

lemma chunk_step_inv:
  assumes inv: "data_inv e w" and st: "chunk_step e a i ck ck' w w'"
  shows "data_inv e w'"
proof -
  let ?u = "ck_uuid ck"
  note D = data_invD [OF inv]
  from st have at: "chunk_at w a i = Some ck"
    and at': "\<And>b j. chunk_at w' b j = (if b = a \<and> j = i then Some ck' else chunk_at w b j)"
    and uuid: "ck_uuid ck' = ?u" and key: "volkey w' = volkey w"
    and fl: "\<And>f. f \<noteq> UUID_unparse ?u \<Longrightarrow> files w' f = files w f"
    and cs: "cs_inv (local_cache w')"
    and lk: "\<And>v. v \<noteq> ?u \<Longrightarrow> cs_lookup v (local_cache w') = cs_lookup v (local_cache w)"
    and own: "\<And>c. cs_lookup ?u (local_cache w') = Some c \<Longrightarrow> cached_ok e w' c"
    unfolding chunk_step_def by blast+
  have uq: "uuids_unique w'"
    unfolding uuids_unique_def
  proof (intro allI impI)
    fix b j b' j' k k'
    assume A: "chunk_at w' b j = Some k \<and> chunk_at w' b' j' = Some k' \<and>
      ck_uuid k = ck_uuid k' \<and> ck_uuid k \<noteq> UUID_zero"
    have "\<exists>l. chunk_at w b j = Some l \<and> ck_uuid l = ck_uuid k"
      and "\<exists>l. chunk_at w b' j' = Some l \<and> ck_uuid l = ck_uuid k'"
      using A at uuid by (auto simp: at' split: if_splits)
    with A D(2) show "b = b' \<and> j = j'" unfolding uuids_unique_def by metis
  qed
  have "cached_ok e w' c" if c: "c \<in> set (cs_items (local_cache w'))" for c
  proof (cases "cc_uuid c = ?u")
    case True
    with c have "cs_lookup ?u (local_cache w') = Some c" by (simp add: cs_lookup_iff [OF cs])
    then show ?thesis by (rule own)
  next
    case False
    from c have "cs_lookup (cc_uuid c) (local_cache w) = Some c"
      by (simp add: cs_lookup_iff [OF cs] flip: lk [OF False])
    then have "cached_ok e w c" by (rule D(4))
    then obtain k where k: "chunk_at w (cc_filenode c) (unat (cc_idx c)) = Some k" "ck_uuid k = cc_uuid c"
      "cc_uuid c \<noteq> UUID_zero" "length (cc_data c) = CHUNKSIZE"
      "cc_modified c \<or> stored_chunk e w k = Some (cc_data c)"
      by (auto simp: cached_ok_def)
    have "chunk_at w' (cc_filenode c) (unat (cc_idx c)) = Some k"
      using k(1,2) at at' False by auto
    moreover have "stored_chunk e w' k = stored_chunk e w k"
      using k(2) False by (intro chunk_content_other(1) [where u = "ck_uuid ck"] key fl lk) auto
    ultimately show ?thesis using k by (auto simp: cached_ok_def)
  qed
  with uq cs key D(3) show ?thesis by (simp add: data_inv_def)
qed

lemma chunk_step_content:
  assumes inv: "data_inv e w" and st: "chunk_step e a i ck ck' w w'"
  shows "loc_content e w' b j =
    (if b = a \<and> j = i then Some (ck_uuid ck, chunk_content e w' ck') else loc_content e w b j)"
proof (cases "b = a \<and> j = i")
  case True
  with st show ?thesis by (simp add: chunk_step_def loc_content_def)
next
  case False
  from st have at': "chunk_at w' b j = chunk_at w b j"
    using False by (auto simp: chunk_step_def)
  have "chunk_content e w' k = chunk_content e w k" if k: "chunk_at w b j = Some k" for k
  proof (cases "ck_uuid k = ck_uuid ck")
    case True
    have "ck_uuid k = UUID_zero"
      using data_invD(2) [OF inv] k st False True unfolding uuids_unique_def chunk_step_def by metis
    then show ?thesis by (simp add: chunk_content_def)
  next
    case False
    with st show ?thesis by (intro chunk_content_other(2) [OF False]) (auto simp: chunk_step_def)
  qed
  with False at' show ?thesis by (cases "chunk_at w b j") (auto simp: loc_content_def)
qed

section \<open>Eviction\<close>

lemma chunk_content_stored:
  "ck_uuid ck \<noteq> UUID_zero \<Longrightarrow> cs_lookup (ck_uuid ck) (local_cache w) = None \<Longrightarrow>
   chunk_content e w ck = stored_chunk e w ck"
  by (simp add: chunk_content_def)

lemma chunk_content_cached:
  "ck_uuid ck \<noteq> UUID_zero \<Longrightarrow> cs_lookup (ck_uuid ck) (local_cache w) = Some c \<Longrightarrow>
   chunk_content e w ck = Some (cc_data c)"
  by (simp add: chunk_content_def)

text \<open>What a storage function keeps: nothing but vectors, tags, files and the cache has changed.\<close>

definition same_contents :: "'c env \<Rightarrow> world \<Rightarrow> world \<Rightarrow> bool" where
  "same_contents e w w' \<longleftrightarrow> data_inv e w' \<and> frame_eq w w' \<and>
     (\<forall>b j. loc_content e w' b j = loc_content e w b j)"

lemma same_contents_refl: "data_inv e w \<Longrightarrow> same_contents e w w"
  by (simp add: same_contents_def)

lemma same_contents_trans [trans]:
  "same_contents e w w' \<Longrightarrow> same_contents e w' w'' \<Longrightarrow> same_contents e w w''"
  by (auto simp: same_contents_def intro: frame_eq_trans)

lemma loc_content_at: "chunk_at w a i = Some ck \<Longrightarrow> loc_content e w a i = Some (ck_uuid ck, chunk_content e w ck)"
  by (simp add: loc_content_def)

lemma same_contents_step:
  assumes inv: "data_inv e w" and st: "chunk_step e a i ck ck' w w'" and fr: "frame_eq w w'"
    and keep: "chunk_content e w' ck' = chunk_content e w ck"
  shows "same_contents e w w'"
proof -
  from st have "chunk_at w a i = Some ck" by (simp add: chunk_step_def)
  from loc_content_at [OF this, of e] show ?thesis
    using keep chunk_step_inv [OF inv st] chunk_step_content [OF inv st] fr
    by (auto simp: same_contents_def)
qed

text \<open>One turn of the loop: the oldest chunk leaves the cache, and its content stays.\<close>

lemma evict_old:
  assumes e: "env_lawful e" "host_reliable e" and inv: "data_inv e w"
    and old: "cs_items (local_cache w) = old # rest"
  obtains st ck where "ChunkStore_get_pop_front (local_cache w) = Some (old, st)"
    and "ChunkCache_chunk (w\<lparr>local_cache := st\<rparr>) old = Some ck" and "cs_inv st" and "cs_items st = rest"
    and "\<not> cc_modified old \<Longrightarrow> same_contents e w (w\<lparr>local_cache := st\<rparr>)"
    and "\<And>ok ck' w'. save_cache e \<lparr>ck_uuid = ck_uuid ck, ck_iv = 0, ck_tag = 0\<rparr> (cc_data old)
      (w\<lparr>local_cache := st\<rparr>) = (ok, ck', w') \<Longrightarrow>
      ok \<and> same_contents e w (set_chunk (cc_filenode old) (unat (cc_idx old)) ck' w')"
proof -
  note D = data_invD [OF inv]
  from get_pop_front_eq [OF D(1) old] obtain st where st:
    "ChunkStore_get_pop_front (local_cache w) = Some (old, st)" "cs_inv st" "cs_items st = rest" by blast
  have lk: "cs_lookup v st = (if v = cc_uuid old then None else cs_lookup v (local_cache w))" for v
    using cs.lookup_pop [OF D(1) old st(1)] by (simp add: cs_lookup_def)
  have lo: "cs_lookup (cc_uuid old) (local_cache w) = Some old"
    by (simp add: cs_lookup_def old)
  let ?a = "cc_filenode old" and ?i = "unat (cc_idx old)" and ?w = "w\<lparr>local_cache := st\<rparr>"
  from D(4) [OF lo] obtain ck where ck: "chunk_at w ?a ?i = Some ck" "ck_uuid ck = cc_uuid old"
    "cc_uuid old \<noteq> UUID_zero" "length (cc_data old) = CHUNKSIZE"
    "cc_modified old \<or> stored_chunk e w ck = Some (cc_data old)"
    by (auto simp: cached_ok_def)
  have content: "chunk_content e w ck = Some (cc_data old)"
    using ck lo by (simp add: chunk_content_cached)
  have at: "ChunkCache_chunk ?w old = Some ck"
    using ck(1) by (simp add: ChunkCache_chunk_at)
  have unmod: "same_contents e w ?w" if "\<not> cc_modified old"
  proof (rule same_contents_step [OF inv])
    show "chunk_step e ?a ?i ck ck w ?w"
      using ck(1,2) st(2) lk by (auto simp: chunk_step_def)
    show "chunk_content e ?w ck = chunk_content e w ck"
      using content that ck lk by (simp add: chunk_content_stored)
  qed (simp add: frame_eq_def)
  have "ok \<and> same_contents e w (set_chunk ?a ?i ck' w')"
    if sv: "save_cache e \<lparr>ck_uuid = ck_uuid ck, ck_iv = 0, ck_tag = 0\<rparr> (cc_data old) ?w = (ok, ck', w')"
    for ok ck' w'
  proof -
    let ?w' = "set_chunk ?a ?i ck' w'"
    from save_cache_stored [OF e _ ck(4), of ?w "\<lparr>ck_uuid = ck_uuid ck, ck_iv = 0, ck_tag = 0\<rparr>"] sv D(3)
    have S: "ok" "ck_uuid ck' = ck_uuid ck" "stored_chunk e w' ck' = Some (cc_data old)"
      "host.more w' = host.more ?w" "rnd w' = rnd w"
      "\<And>f. f \<noteq> UUID_unparse (ck_uuid ck) \<Longrightarrow> files w' f = files w f"
      by auto
    note M = more_world [OF S(4)]
    have at': "chunk_at w' ?a ?i = Some ck"
      using ck(1) chunk_at_cong [of w' w] M by simp
    have "same_contents e w ?w'"
    proof (rule same_contents_step [OF inv])
      show "chunk_step e ?a ?i ck ck' w ?w'"
        using ck(1,2) st(2) lk S M chunk_at_cong [of w' w]
        by (auto simp: chunk_step_def chunk_at_set_chunk [OF at'])
      have "stored_chunk e ?w' ck' = stored_chunk e w' ck'"
        by (rule stored_chunk_cong) simp_all
      then show "chunk_content e ?w' ck' = chunk_content e w ck"
        using content S M ck lk by (simp add: chunk_content_stored)
      show "frame_eq w ?w'"
        using M S(5) heap_skel_cong [of w' w] heap_skel_set_chunk [OF at' S(2)]
        by (simp add: frame_eq_def)
    qed
    with S(1) show ?thesis by simp
  qed
  with that st at unmod show thesis by blast
qed

lemma length_items: "length (cs_items st) = length (kl_nodes st)"
  by (simp add: cs_items_def kl_values_def)

lemma evict_chunks_ok:
  assumes e: "env_lawful e" "host_reliable e" and inv: "data_inv e w"
  shows "\<exists>w'. evict_chunks e w = Some (True, w') \<and> same_contents e w w' \<and>
    length (cs_items (local_cache w')) \<le> MAX_CACHE_NUM"
  using inv
proof (induction "length (cs_items (local_cache w))" arbitrary: w rule: less_induct)
  case (less w)
  show ?case
  proof (cases "length (kl_nodes (local_cache w)) \<le> MAX_CACHE_NUM")
    case True
    with less.prems show ?thesis
      by (subst evict_chunks.simps) (simp add: length_items same_contents_refl)
  next
    case False
    then obtain old rest where old: "cs_items (local_cache w) = old # rest"
      using length_items [of "local_cache w"] by (cases "cs_items (local_cache w)") auto
    from evict_old [OF e less.prems old] obtain st ck where
      pop: "ChunkStore_get_pop_front (local_cache w) = Some (old, st)"
      and ck: "ChunkCache_chunk (w\<lparr>local_cache := st\<rparr>) old = Some ck"
      and st: "cs_inv st" "cs_items st = rest"
      and unmod: "\<not> cc_modified old \<Longrightarrow> same_contents e w (w\<lparr>local_cache := st\<rparr>)"
      and md: "\<And>ok ck' w'. save_cache e \<lparr>ck_uuid = ck_uuid ck, ck_iv = 0, ck_tag = 0\<rparr> (cc_data old)
        (w\<lparr>local_cache := st\<rparr>) = (ok, ck', w') \<Longrightarrow>
        ok \<and> same_contents e w (set_chunk (cc_filenode old) (unat (cc_idx old)) ck' w')" by blast
    obtain ok ck' w1 where sv: "save_cache e \<lparr>ck_uuid = ck_uuid ck, ck_iv = 0, ck_tag = 0\<rparr> (cc_data old)
        (w\<lparr>local_cache := st\<rparr>) = (ok, ck', w1)" by (metis prod_cases3)
    define w2 where "w2 = (if cc_modified old then set_chunk (cc_filenode old) (unat (cc_idx old)) ck' w1
      else w\<lparr>local_cache := st\<rparr>)"
    have lc: "local_cache w2 = st"
      using local_cache_save_cache [OF sv] by (simp add: w2_def)
    have sc: "same_contents e w w2" using unmod md [OF sv] by (simp add: w2_def)
    have step: "evict_chunks e w = evict_chunks e w2"
      using False pop ck sv md [OF sv] by (subst evict_chunks.simps) (simp add: w2_def)
    have "\<exists>w'. evict_chunks e w2 = Some (True, w') \<and> same_contents e w2 w' \<and>
        length (cs_items (local_cache w')) \<le> MAX_CACHE_NUM"
      using sc lc st(2) old by (intro less.hyps) (auto simp: same_contents_def)
    with step sc show ?thesis by (metis same_contents_trans)
  qed
qed

section \<open>Loading and saving through the cache\<close>

text \<open>A change of the content at one location only.\<close>

definition content_upd :: "'c env \<Rightarrow> nat \<Rightarrow> nat \<Rightarrow> uuid \<times> bytes option \<Rightarrow> world \<Rightarrow> world \<Rightarrow> bool" where
  "content_upd e a i x w w' \<longleftrightarrow> data_inv e w' \<and> frame_eq w w' \<and>
     (\<forall>b j. loc_content e w' b j = (if b = a \<and> j = i then Some x else loc_content e w b j))"

lemma content_upd_same:
  "content_upd e a i x w w' \<Longrightarrow> same_contents e w' w'' \<Longrightarrow> content_upd e a i x w w''"
  by (auto simp: content_upd_def same_contents_def intro: frame_eq_trans)

lemma content_upd_upd:
  "content_upd e a i x w w' \<Longrightarrow> content_upd e a i y w' w'' \<Longrightarrow> content_upd e a i y w w''"
  by (auto simp: content_upd_def intro: frame_eq_trans)

lemma content_upd_id: "content_upd e a i x w w' \<Longrightarrow> loc_content e w a i = Some x \<Longrightarrow> same_contents e w w'"
  by (auto simp: content_upd_def same_contents_def)

lemma content_upd_step:
  assumes "data_inv e w" and st: "chunk_step e a i ck ck' w w'" and "frame_eq w w'"
  shows "content_upd e a i (ck_uuid ck, chunk_content e w' ck') w w'"
  using assms chunk_step_inv [OF assms(1) st] chunk_step_content [OF assms(1) st]
  by (simp add: content_upd_def)

lemma save_chunk_ok:
  assumes e: "env_lawful e" "host_reliable e" and inv: "data_inv e w"
    and at: "chunk_at w (cc_filenode c) (unat (cc_idx c)) = Some ck" and u: "ck_uuid ck \<noteq> UUID_zero"
    and len: "length (cc_data c) = CHUNKSIZE"
    and md: "cc_modified c \<or> stored_chunk e w ck = Some (cc_data c)"
  shows "\<exists>w'. save_chunk e c w = Some (True, w') \<and>
    content_upd e (cc_filenode c) (unat (cc_idx c)) (ck_uuid ck, Some (cc_data c)) w w' \<and>
    length (cs_items (local_cache w')) \<le> MAX_CACHE_NUM"
proof -
  let ?u = "ck_uuid ck" and ?c = "c\<lparr>cc_uuid := ck_uuid ck\<rparr>"
  note D = data_invD [OF inv]
  obtain it st where push: "ChunkStore_push_get_back ?u c (local_cache w) = Some (it, st)"
    using push_get_back_eq [OF D(1)] by blast
  then have push': "ChunkStore_push ?c (local_cache w) = Some st"
    using push_get_back_push [of ?u c "local_cache w"] by simp
  have st: "cs_inv st" using cs.push_ok [OF D(1), of ?c] push' by simp
  have lk: "cs_lookup v st = (if v = ?u then Some ?c else cs_lookup v (local_cache w))" for v
    using cs.lookup_push [OF D(1) push', of v] by (simp add: cs_lookup_def)
  let ?w = "w\<lparr>local_cache := st\<rparr>"
  have step: "chunk_step e (cc_filenode c) (unat (cc_idx c)) ck ck w ?w"
    using at st lk u len md by (auto simp: chunk_step_def cached_ok_def)
  have upd: "content_upd e (cc_filenode c) (unat (cc_idx c)) (?u, Some (cc_data c)) w ?w"
    using content_upd_step [OF inv step] lk u by (simp add: chunk_content_def frame_eq_def)
  then have "data_inv e ?w" by (simp add: content_upd_def)
  from evict_chunks_ok [OF e this] obtain w' where "evict_chunks e ?w = Some (True, w')"
    and "same_contents e ?w w'" and "length (cs_items (local_cache w')) \<le> MAX_CACHE_NUM" by blast
  with content_upd_same [OF upd] push at show ?thesis
    by (auto simp: save_chunk_def ChunkCache_chunk_at)
qed

lemma load_chunk_ok:
  assumes e: "env_lawful e" "host_reliable e" and inv: "data_inv e w"
    and at: "chunk_at w a (unat idx) = Some ck" and u: "ck_uuid ck \<noteq> UUID_zero"
    and content: "chunk_content e w ck = Some d"
  shows "\<exists>c w'. load_chunk e (ChunkCache_ctor CHUNKSIZE a idx) w = Some (True, c, w') \<and>
    cc_data c = d \<and> length d = CHUNKSIZE \<and> cc_filenode c = a \<and> cc_idx c = idx \<and>
    (cc_modified c \<or> stored_chunk e w' ck = Some d) \<and> chunk_at w' = chunk_at w \<and>
    (\<exists>x. content_upd e a (unat idx) (ck_uuid ck, x) w w') \<and>
    length (cs_items (local_cache w')) \<le> length (cs_items (local_cache w))"
proof -
  let ?u = "ck_uuid ck" and ?c0 = "ChunkCache_ctor CHUNKSIZE a idx"
  note D = data_invD [OF inv]
  from cs.take_ok [OF D(1), of ?u] obtain st where
    tk: "ChunkStore_get_erase_by_key ?u (local_cache w) = Some (cs_lookup ?u (local_cache w), st)"
    and st: "cs_inv st" "cs_items st = filter (\<lambda>c. cc_uuid c \<noteq> ?u) (cs_items (local_cache w))"
    by (auto simp: cs_lookup_def)
  have lk: "cs_lookup v st = (if v = ?u then None else cs_lookup v (local_cache w))" for v
    using cs.lookup_take [OF D(1) tk] by (simp add: cs_lookup_def)
  have at0: "ChunkCache_chunk w ?c0 = Some ck"
    using at by (simp add: ChunkCache_chunk_at ChunkCache_ctor_def)
  show ?thesis
  proof (cases "cs_lookup ?u (local_cache w)")
    case (Some c)
    let ?w = "w\<lparr>local_cache := st\<rparr>"
    have cu: "cc_uuid c = ?u" using Some cs_lookup_iff [OF D(1)] by simp
    from D(4) [OF Some] obtain k where k: "chunk_at w (cc_filenode c) (unat (cc_idx c)) = Some k"
      "ck_uuid k = ?u" "length (cc_data c) = CHUNKSIZE" "cc_modified c \<or> stored_chunk e w k = Some (cc_data c)"
      by (auto simp: cached_ok_def cu)
    have "cc_filenode c = a \<and> unat (cc_idx c) = unat idx"
      using D(2) at k(1,2) u unfolding uuids_unique_def by metis
    then have loc: "cc_filenode c = a \<and> cc_idx c = idx" using unsigned_word_eqI by blast
    have "chunk_step e a (unat idx) ck ck w ?w"
      using at st(1) lk by (auto simp: chunk_step_def)
    from content_upd_step [OF inv this] have "content_upd e a (unat idx) (?u, chunk_content e ?w ck) w ?w"
      by (simp add: frame_eq_def)
    moreover have "load_chunk e ?c0 w = Some (True, c, ?w)"
      using at0 tk Some by (simp add: load_chunk_def)
    ultimately show ?thesis
      using content u Some k loc at st(2) by (auto simp: chunk_content_cached)
  next
    case None
    with content u have stored: "stored_chunk e w ck = Some d" by (simp add: chunk_content_stored)
    have "length (cc_data ?c0) = CHUNKSIZE" by (simp add: ChunkCache_ctor_def)
    from load_cache_stored [OF e D(3) stored this] obtain w' where
      w': "load_cache e ck (cc_data ?c0) w = (True, d, w')" "host.more w' = host.more w"
      "files w' = files w" "rnd w' = rnd w" by blast
    note M = more_world [OF w'(2)]
    have atw: "chunk_at w' = chunk_at w" by (rule chunk_at_cong [OF M(2)])
    have stw: "stored_chunk e w' k = stored_chunk e w k" for k
      by (rule stored_chunk_cong) (simp_all add: w'(3) M)
    have "chunk_step e a (unat idx) ck ck w w'"
      using at D(1) None by (auto simp: chunk_step_def atw M w'(3))
    moreover have "frame_eq w w'"
      using M w'(4) heap_skel_cong [OF M(2)] by (simp add: frame_eq_def)
    ultimately have "content_upd e a (unat idx) (?u, chunk_content e w' ck) w w'"
      by (rule content_upd_step [OF inv])
    moreover have "load_chunk e ?c0 w = Some (True, ?c0\<lparr>cc_data := d\<rparr>, w')"
      using at0 tk None w'(1) by (simp add: load_chunk_def)
    moreover have "length d = CHUNKSIZE" by (rule stored_chunk_length [OF e(1) D(3) stored])
    ultimately show ?thesis
      using stored atw M(6) by (auto simp: ChunkCache_ctor_def stw)
  qed
qed

end
