(* ===== verification/File_Segments.thy ===== *)
theory File_Segments
  imports Chunk_Path
begin

text \<open>
  The arithmetic of the loops of \<open>ecall_fs_read\<close> and \<open>ecall_fs_write\<close>: the request
  \<open>[o, o + n)\<close> meets chunk \<open>k\<close> in the bytes from \<open>seg_lo o k\<close> up to \<open>seg_hi (o + n) k\<close>, positions
  counted from the start of the file.  The bounds below rule out the wrap-around of 64-bit sums.
\<close>

definition seg_lo :: "nat \<Rightarrow> nat \<Rightarrow> nat" where
  "seg_lo p k = max p (CHUNKSIZE * k)"

definition seg_hi :: "nat \<Rightarrow> nat \<Rightarrow> nat" where
  "seg_hi q k = min q (CHUNKSIZE * Suc k)"

text \<open>No sum of a request wraps, and the offset is not negative.\<close>

definition request_ok :: "off_t \<Rightarrow> size_t \<Rightarrow> bool" where
  "request_ok offset sz \<longleftrightarrow> unat offset + unat sz + CHUNKSIZE < 2 ^ 63"

lemma sint_small:
  assumes "unat (x :: 64 word) < 2 ^ 63"
  shows "sint x = int (unat x)"
proof -
  have "uint x < 2 ^ 63" using assms by (metis of_nat_less_iff of_nat_numeral of_nat_power uint_nat)
  moreover have "- (2 ^ 63) \<le> uint x" by (rule order_trans [OF _ uint_ge_0]) simp
  ultimately have "sint x = uint x"
    unfolding sint_uint by (intro signed_take_bit_int_eq_self) simp_all
  then show ?thesis by (simp only: uint_nat)
qed

lemma sdiv_nat: "int a sdiv int b = int (a div b)"
  by (simp add: signed_divide_int_def sgn_if zdiv_int)

lemma smod_nat: "int a smod int b = int (a mod b)"
  by (simp add: signed_modulo_int_def sgn_if zmod_int)

lemma unat_add_small: "unat (x :: 64 word) + unat y < 2 ^ 64 \<Longrightarrow> unat (x + y) = unat x + unat y"
  by (simp add: unat_word_ariths)

lemma unat_first_chunk:
  assumes "request_ok offset sz"
  shows "unat (first_chunk offset) = unat offset div CHUNKSIZE"
proof -
  have "sint offset = int (unat offset)"
    using assms by (intro sint_small) (simp add: request_ok_def)
  then have "first_chunk offset = word_of_int (int (unat offset div CHUNKSIZE))"
    by (simp add: first_chunk_def signed_divide_int_def zdiv_int)
  then have "first_chunk offset = (of_nat (unat offset div CHUNKSIZE) :: size_t)" by simp
  moreover have "unat offset div CHUNKSIZE < 2 ^ 64"
    by (rule le_less_trans [OF div_le_dividend]) (use assms in \<open>simp add: request_ok_def\<close>)
  ultimately show ?thesis by (simp add: unat_of_nat take_bit_eq_mod)
qed

lemma unat_end_chunk:
  assumes "request_ok offset sz"
  shows "unat (end_chunk offset sz) = (unat offset + unat sz + 4095) div 4096"
proof -
  have s: "unat (offset + sz) = unat offset + unat sz"
    using assms by (intro unat_add_small) (simp add: request_ok_def)
  have "unat (offset + sz + 4095) = unat offset + unat sz + 4095"
    using assms s by (subst unat_add_small) (simp_all add: request_ok_def CHUNKSIZE_def)
  then show ?thesis
    by (simp add: end_chunk_def CHUNKSIZE_def unat_div add_diff_eq [symmetric])
qed

lemma seg_lo_offset:
  assumes "p div CHUNKSIZE \<le> k"
  shows "seg_lo p k - CHUNKSIZE * k = (if k = p div CHUNKSIZE then p mod CHUNKSIZE else 0)"
proof -
  have "p < CHUNKSIZE * k" if "k \<noteq> p div CHUNKSIZE"
    using assms that div_less_iff_less_mult [of CHUNKSIZE p k]
    by (simp add: CHUNKSIZE_def mult.commute)
  moreover have "p mod CHUNKSIZE = p - CHUNKSIZE * (p div CHUNKSIZE)"
    by (simp add: minus_mult_div_eq_mod)
  ultimately show ?thesis
    by (cases "k = p div CHUNKSIZE") (simp_all add: seg_lo_def max_def)
qed

lemma seg_hi_offset:
  assumes "0 < q" and "k \<le> (q - 1) div CHUNKSIZE"
  shows "seg_hi q k - CHUNKSIZE * k = (if k = (q - 1) div CHUNKSIZE then (q - 1) mod CHUNKSIZE + 1 else CHUNKSIZE)"
proof -
  define t r where "t = (q - 1) div 4096" and "r = (q - 1) mod 4096"
  have q: "q = 4096 * t + r + 1" and r: "r < 4096"
    using assms(1) by (simp_all add: t_def r_def)
  show ?thesis
    using assms(2) r by (auto simp: seg_hi_def CHUNKSIZE_def min_def q simp flip: t_def r_def)
qed

lemma seg_start_eq:
  assumes "request_ok offset sz" and "unat offset div CHUNKSIZE \<le> k"
  shows "seg_start offset (first_chunk offset) k = int (seg_lo (unat offset) k - CHUNKSIZE * k)"
proof -
  have "sint offset = int (unat offset)"
    using assms by (intro sint_small) (simp add: request_ok_def)
  then have "seg_start offset (first_chunk offset) k =
      int (if k = unat offset div CHUNKSIZE then unat offset mod CHUNKSIZE else 0)"
    by (simp only: seg_start_def unat_first_chunk [OF assms(1)] smod_nat) simp
  then show ?thesis using seg_lo_offset [OF assms(2)] by simp
qed

lemma seg_end_eq:
  assumes "request_ok offset sz" and "k < unat (end_chunk offset sz)"
  shows "seg_end offset sz (end_chunk offset sz) k =
    int (seg_hi (unat offset + unat sz) k - CHUNKSIZE * k)"
proof -
  let ?q = "unat offset + unat sz"
  note en = unat_end_chunk [OF assms(1)]
  have s: "unat (offset + sz) = ?q"
    using assms by (intro unat_add_small) (simp add: request_ok_def)
  have pos: "0 < ?q" using assms(2) by (cases "?q = 0") (simp_all add: en)
  have q1: "unat (offset + sz - 1) = ?q - 1"
    using pos s by (subst unat_minus_one) auto
  have "unat ((offset + sz - 1) mod 4096 + 1) = (?q - 1) mod 4096 + 1"
    by (subst unat_add_small) (simp_all add: unat_mod q1 less_imp_le [OF less_le_trans [OF mod_less_divisor]])
  then have last: "uint ((offset + sz - 1) mod of_nat CHUNKSIZE + 1) = int ((?q - 1) mod 4096 + 1)"
    by (simp add: uint_nat CHUNKSIZE_def)
  have "end_chunk offset sz \<noteq> 0" using assms(2) by auto
  then have e1: "unat (end_chunk offset sz - 1) = (?q - 1) div 4096"
    using pos by (subst unat_minus_one) (simp_all add: en)
  have k: "k \<le> (?q - 1) div 4096" using assms(2) pos by (simp add: en)
  show ?thesis
    unfolding seg_end_def e1 last seg_hi_offset [OF pos k [folded CHUNKSIZE_def]] by (simp add: CHUNKSIZE_def)
qed

text \<open>
  The position a loop has reached when chunk \<open>k\<close> is next: the request's part in that chunk is from
  \<open>seg_pos p q k\<close> to \<open>seg_pos p q (Suc k)\<close>.
\<close>

definition seg_pos :: "nat \<Rightarrow> nat \<Rightarrow> nat \<Rightarrow> nat" where
  "seg_pos p q k = min q (max p (CHUNKSIZE * k))"

lemma seg_pos_mono: "seg_pos p q k \<le> seg_pos p q (Suc k)"
  by (simp add: seg_pos_def)

lemma seg_pos_le: "seg_pos p q k \<le> q"
  by (simp add: seg_pos_def)

lemma seg_pos_ge: "p \<le> q \<Longrightarrow> p \<le> seg_pos p q k"
  by (simp add: seg_pos_def)

lemma seg_pos_first: "p \<le> q \<Longrightarrow> seg_pos p q (p div CHUNKSIZE) = p"
  using times_div_less_eq_dividend [of CHUNKSIZE p] by (simp add: seg_pos_def)

lemma ceil_chunks:
  fixes q :: nat
  obtains r where "4096 * ((q + 4095) div 4096) = q + r" and "r < 4096"
proof
  show "4096 * ((q + 4095) div 4096) = q + (4095 - (q + 4095) mod 4096)"
    using mult_div_mod_eq [of 4096 "q + 4095"] mod_less_divisor [of 4096 "q + 4095"] by linarith
qed simp

lemma seg_pos_last: "seg_pos p q ((q + 4095) div 4096) = q"
  using ceil_chunks [of q] by (auto simp: seg_pos_def CHUNKSIZE_def)

lemma seg_pos_chunk:
  assumes "p \<le> q" and "p div CHUNKSIZE \<le> k" and "k < (q + 4095) div 4096"
  shows "seg_pos p q k = seg_lo p k" and "seg_pos p q (Suc k) = seg_hi q k"
    and "CHUNKSIZE * k \<le> seg_pos p q k" and "seg_pos p q (Suc k) \<le> CHUNKSIZE * k + CHUNKSIZE"
proof -
  have "4096 * Suc k \<le> 4096 * ((q + 4095) div 4096)" using assms(3) by simp
  moreover obtain r where "4096 * ((q + 4095) div 4096) = q + r" "r < 4096" by (rule ceil_chunks)
  ultimately have "4096 * k < q" by simp
  moreover have "p < 4096 * Suc k"
    using assms(2) div_less_iff_less_mult [of 4096 p "Suc k"] by (simp add: CHUNKSIZE_def)
  ultimately show "seg_pos p q k = seg_lo p k" and "seg_pos p q (Suc k) = seg_hi q k"
    and "CHUNKSIZE * k \<le> seg_pos p q k" and "seg_pos p q (Suc k) \<le> CHUNKSIZE * k + CHUNKSIZE"
    using assms(1) by (auto simp: seg_pos_def seg_lo_def seg_hi_def CHUNKSIZE_def)
qed

lemma unat_lt64: "unat (x :: 64 word) < 18446744073709551616"
  using unsigned_less [of x, where ?'a = nat] by simp

lemma unat_segment:
  assumes "x \<le> y" and "y < 2 ^ 64"
  shows "unat (word_of_int (int y - int x) :: size_t) = y - x"
proof -
  have "int y - int x = int (y - x)" using assms(1) by simp
  then have "(word_of_int (int y - int x) :: size_t) = of_nat (y - x)" by (simp only: of_int_of_nat_eq)
  moreover have "y - x < 2 ^ 64" using assms by simp
  ultimately show ?thesis by (simp only: unat_of_nat) (simp add: take_bit_eq_mod)
qed

lemma segment_advance:
  assumes "unat (wsize :: size_t) = x - p" and "unat n = y - x" and "p \<le> x" and "x \<le> y"
  shows "wsize + n = of_nat (y - p)"
proof -
  have "wsize + n = of_nat (unat wsize) + of_nat (unat n)" by simp
  also have "\<dots> = of_nat ((x - p) + (y - x))" by (simp only: assms(1,2) of_nat_add)
  also have "(x - p) + (y - x) = y - p" using assms(3,4) by simp
  finally show ?thesis .
qed

text \<open>What the loops compute for chunk \<open>k\<close>, all in one.\<close>

lemma segment:
  fixes offset :: off_t and sz :: size_t
  defines "p \<equiv> unat offset" and "q \<equiv> unat offset + unat sz"
  assumes ok: "request_ok offset sz" and k: "p div CHUNKSIZE \<le> k" "k < unat (end_chunk offset sz)"
  shows "seg_start offset (first_chunk offset) k = int (seg_pos p q k - CHUNKSIZE * k)"
    and "seg_end offset sz (end_chunk offset sz) k = int (seg_pos p q (Suc k) - CHUNKSIZE * k)"
    and "CHUNKSIZE * k \<le> seg_pos p q k" and "seg_pos p q (Suc k) \<le> CHUNKSIZE * k + CHUNKSIZE"
    and "unat (word_of_int (seg_end offset sz (end_chunk offset sz) k -
      seg_start offset (first_chunk offset) k) :: size_t) = seg_pos p q (Suc k) - seg_pos p q k"
proof -
  have k': "k < (q + 4095) div 4096"
    using k(2) by (simp add: unat_end_chunk [OF ok] q_def)
  note P = seg_pos_chunk [of p q k, OF _ k(1) k']
  show s: "seg_start offset (first_chunk offset) k = int (seg_pos p q k - CHUNKSIZE * k)"
    using seg_start_eq [OF ok] k(1) P(1) by (simp add: p_def q_def)
  show t: "seg_end offset sz (end_chunk offset sz) k = int (seg_pos p q (Suc k) - CHUNKSIZE * k)"
    using seg_end_eq [OF ok k(2)] P(2) by (simp add: p_def q_def)
  show b: "CHUNKSIZE * k \<le> seg_pos p q k" "seg_pos p q (Suc k) \<le> CHUNKSIZE * k + CHUNKSIZE"
    using P(3,4) by (simp_all add: p_def q_def)
  have "seg_pos p q (Suc k) < 2 ^ 63"
    using ok seg_pos_le [of p q "Suc k"] by (simp add: request_ok_def p_def q_def)
  then show "unat (word_of_int (seg_end offset sz (end_chunk offset sz) k -
      seg_start offset (first_chunk offset) k) :: size_t) = seg_pos p q (Suc k) - seg_pos p q k"
    unfolding s t using b(1) seg_pos_mono [of p q k] by (subst unat_segment) auto
qed

section \<open>Files as lists of blocks\<close>

definition block :: "nat \<Rightarrow> bytes \<Rightarrow> bytes" where
  "block k bs = take CHUNKSIZE (drop (CHUNKSIZE * k) bs)"

lemma length_concat_blocks:
  "\<forall>d\<in>set ds. length d = n \<Longrightarrow> length (concat ds) = n * length ds"
  by (induction ds) auto

lemma take_drop_concat_blocks:
  assumes "\<forall>d\<in>set ds. length d = n" and "k < length ds" and "s + m \<le> n"
  shows "take m (drop (n * k + s) (concat ds)) = take m (drop s (ds ! k))"
  using assms
proof (induction ds arbitrary: k)
  case (Cons d ds)
  then show ?case by (cases k) (auto simp: add.assoc)
qed simp

lemma mem_copy_s_eq:
  assumes "env_lawful e" and "doff + dmax \<le> length dst" and "count \<le> dmax" and "so + count \<le> length src"
  shows "mem_copy_s e dst doff dmax src so count = Some (wr doff (rd so count src) dst)"
  using assms env_lawfulD(4) [OF assms(1), of count dmax "drop doff dst" "drop so src"]
  by (simp add: mem_copy_s_def wr_def rd_def add.commute)

lemma wr_wr_append:
  "length bs + length cs \<le> length buf \<Longrightarrow> wr (length bs) cs (wr 0 bs buf) = wr 0 (bs @ cs) buf"
  by (simp add: wr_def add.commute)

end
