(* ===== verification/File_Read.thy ===== *)
theory File_Read
  imports File_Segments
begin

text \<open>
  Reading a file: what \<open>ecall_fs_read\<close> returns is the requested part of the file's contents, and
  reading changes no contents, although it moves chunks through the cache and may write to storage.
\<close>

section \<open>The contents of a file\<close>

definition data_ok :: "'c env \<Rightarrow> world \<Rightarrow> bool" where
  "data_ok e w \<longleftrightarrow> data_inv e w \<and> length (cs_items (local_cache w)) \<le> MAX_CACHE_NUM"

definition blocks :: "'c env \<Rightarrow> world \<Rightarrow> nat \<Rightarrow> bytes list option" where
  "blocks e w a =
     (case heap w a of
        Some (FileObj fn) \<Rightarrow> those (map (chunk_content e w) (fn_chunks fn))
      | _ \<Rightarrow> None)"

text \<open>The bytes of the file at address \<open>a\<close>, if every chunk is there and authentic.\<close>

definition file_bytes :: "'c env \<Rightarrow> world \<Rightarrow> nat \<Rightarrow> bytes option" where
  "file_bytes e w a =
     (case heap w a of
        Some (FileObj fn) \<Rightarrow> map_option (\<lambda>ds. take (unat (fn_size fn)) (concat ds)) (blocks e w a)
      | _ \<Rightarrow> None)"

text \<open>The number of chunks is that of the size, and the size is far from the range of \<open>off_t\<close>.\<close>

definition file_wf :: "filenode \<Rightarrow> bool" where
  "file_wf fn \<longleftrightarrow> unat (fn_size fn) + CHUNKSIZE < 2 ^ 63 \<and>
     length (fn_chunks fn) = (unat (fn_size fn) + 4095) div 4096"

lemma those_eq_Some: "those xs = Some ys \<longleftrightarrow> xs = map Some ys"
  by (induction xs arbitrary: ys) (auto split: option.splits)

lemma blocks_iff:
  assumes "heap w a = Some (FileObj fn)"
  shows "blocks e w a = Some ds \<longleftrightarrow> length ds = length (fn_chunks fn) \<and>
    (\<forall>i<length ds. loc_content e w a i = Some (ck_uuid (fn_chunks fn ! i), Some (ds ! i)))"
  using assms
  by (auto simp: blocks_def those_eq_Some loc_content_def chunk_at_def list_eq_iff_nth_eq)

lemma chunk_content_length:
  assumes "env_lawful e" and "data_inv e w" and "chunk_content e w ck = Some d"
  shows "length d = CHUNKSIZE"
  using assms data_invD [OF assms(2)] stored_chunk_length [OF assms(1), of w ck d]
  by (auto simp: chunk_content_def cached_ok_def split: if_splits option.splits)

lemma blocks_length:
  assumes "env_lawful e" and "data_inv e w" and "blocks e w a = Some ds"
  shows "\<forall>d\<in>set ds. length d = CHUNKSIZE"
  using assms chunk_content_length [OF assms(1,2)]
  by (auto simp: blocks_def those_eq_Some split: option.splits inode_obj.splits)
    (metis imageE imageI list.set_map option.inject)

lemma skel_eq_heap:
  assumes "heap_skel w' a = heap_skel w a" and "heap w a = Some (FileObj fn)"
  obtains fn' where "heap w' a = Some (FileObj fn')" and "fn_size fn' = fn_size fn"
    and "length (fn_chunks fn') = length (fn_chunks fn)" and "map ck_uuid (fn_chunks fn') = map ck_uuid (fn_chunks fn)"
    and "md_uuid fn' = md_uuid fn" and "in_ino fn' = in_ino fn" and "in_refcount fn' = in_refcount fn"
proof -
  from assms(1) have "map_option obj_skel (heap w' a) = Some (obj_skel (FileObj fn))"
    using assms(2) by (simp only: heap_skel_def option.map)
  then obtain obj where obj: "heap w' a = Some obj" "obj_skel obj = obj_skel (FileObj fn)" by auto
  then obtain fn' where fn': "obj = FileObj fn'" by (cases obj) auto
  with obj have eq: "obj_skel (FileObj fn') = obj_skel (FileObj fn)" by simp
  from obj_skel_FileObj_uuids [OF this] have us: "map ck_uuid (fn_chunks fn') = map ck_uuid (fn_chunks fn)" .
  from eq have "fn_size fn' = fn_size fn \<and> md_uuid fn' = md_uuid fn \<and> in_ino fn' = in_ino fn \<and>
      in_refcount fn' = in_refcount fn"
    by (cases fn; cases fn'; simp)
  with that obj(1) fn' us map_eq_imp_length_eq [OF us] show thesis by blast
qed

lemma frame_eq_skel: "frame_eq w w' \<Longrightarrow> heap_skel w' a = heap_skel w a"
  by (simp add: frame_eq_def)

text \<open>A file is the same in two worlds when its object and its contents are.\<close>

lemma blocks_cong:
  assumes sk: "heap_skel w' a = heap_skel w a" and lc: "\<And>i. loc_content e w' a i = loc_content e w a i"
    and h: "heap w a = Some (FileObj fn)"
  shows "blocks e w' a = blocks e w a"
proof -
  from skel_eq_heap [OF sk h] obtain fn' where fn': "heap w' a = Some (FileObj fn')"
    "length (fn_chunks fn') = length (fn_chunks fn)"
    "map ck_uuid (fn_chunks fn') = map ck_uuid (fn_chunks fn)" by metis
  have u: "ck_uuid (fn_chunks fn' ! i) = ck_uuid (fn_chunks fn ! i)" if "i < length (fn_chunks fn)" for i
    using fn'(2,3) that by (metis nth_map)
  have "blocks e w' a = Some ds \<longleftrightarrow> blocks e w a = Some ds" for ds
    unfolding blocks_iff [OF h] blocks_iff [OF fn'(1)] using fn'(2) u by (auto simp: lc)
  then show ?thesis by (metis option.exhaust)
qed

lemma same_contentsD:
  assumes "same_contents e w w'"
  shows "data_inv e w'" and "frame_eq w w'" and "loc_content e w' a i = loc_content e w a i"
  using assms by (auto simp: same_contents_def)

section \<open>One chunk of a read\<close>

lemma data_okD: "data_ok e w \<Longrightarrow> data_inv e w"
  by (simp add: data_ok_def)

text \<open>Fetching a chunk and putting it back, as \<open>ecall_fs_read\<close> does, changes no contents.\<close>

lemma fetch_chunk_ok:
  assumes e: "env_lawful e" "host_reliable e" and ok: "data_ok e w"
    and lc: "loc_content e w a (unat idx) = Some (u, Some d)" and u: "u \<noteq> UUID_zero"
  shows "\<exists>c w1 w2. load_chunk e (ChunkCache_ctor CHUNKSIZE a idx) w = Some (True, c, w1) \<and>
    cc_data c = d \<and> length d = CHUNKSIZE \<and> save_chunk e c w1 = Some (True, w2) \<and>
    same_contents e w w2 \<and> data_ok e w2"
proof -
  from lc obtain ck where at: "chunk_at w a (unat idx) = Some ck" and ck: "ck_uuid ck = u"
    "chunk_content e w ck = Some d"
    by (auto simp: loc_content_def)
  from load_chunk_ok [OF e data_okD [OF ok] at _ ck(2)] u ck(1) obtain c w1 x where
    l: "load_chunk e (ChunkCache_ctor CHUNKSIZE a idx) w = Some (True, c, w1)"
    and c: "cc_data c = d" "length d = CHUNKSIZE" "cc_filenode c = a" "cc_idx c = idx"
      "cc_modified c \<or> stored_chunk e w1 ck = Some d"
    and w1: "chunk_at w1 = chunk_at w" "content_upd e a (unat idx) (u, x) w w1"
    by auto
  have "data_inv e w1" using w1(2) by (simp add: content_upd_def)
  from save_chunk_ok [OF e this, of c ck] c at u ck(1) w1(1) obtain w2 where
    s: "save_chunk e c w1 = Some (True, w2)" "content_upd e a (unat idx) (u, Some d) w1 w2"
    and b: "length (cs_items (local_cache w2)) \<le> MAX_CACHE_NUM"
    by auto
  have "same_contents e w w2"
    by (rule content_upd_id [OF content_upd_upd [OF w1(2) s(2)] lc])
  moreover from this b have "data_ok e w2" by (simp add: data_ok_def same_contents_def)
  ultimately show ?thesis using l c s(1) by blast
qed

lemma rd_replicate: "k + n \<le> m \<Longrightarrow> rd k n (replicate m x) = replicate n x"
  by (simp add: rd_def)

lemma loc_content_zero:
  assumes "loc_content e w a i = Some (u, Some d)" and "u = UUID_zero"
  shows "d = replicate CHUNKSIZE 0"
  using assms by (auto simp: loc_content_def chunk_content_def)

lemma read_loop_step:
  fixes offset :: off_t and sz :: size_t
  defines "p \<equiv> unat offset" and "q \<equiv> unat offset + unat sz"
  assumes e: "env_lawful e" "host_reliable e" and ok: "data_ok e w"
    and req: "request_ok offset sz" and k: "p div CHUNKSIZE \<le> k" "k < unat (end_chunk offset sz)"
    and lc: "loc_content e w a k = Some (u, Some d)"
    and ws: "unat wsize = seg_pos p q k - p" and buf: "unat sz \<le> length buf"
  shows "\<exists>w'. read_loop e a offset sz (first_chunk offset) (end_chunk offset sz) (k # ks) wsize buf w =
      read_loop e a offset sz (first_chunk offset) (end_chunk offset sz) ks
        (of_nat (seg_pos p q (Suc k) - p))
        (wr (seg_pos p q k - p) (rd (seg_pos p q k - CHUNKSIZE * k) (seg_pos p q (Suc k) - seg_pos p q k) d) buf) w' \<and>
    same_contents e w w' \<and> data_ok e w'"
proof -
  let ?n = "word_of_int (seg_end offset sz (end_chunk offset sz) k - seg_start offset (first_chunk offset) k) :: size_t"
  let ?x = "seg_pos p q k" and ?y = "seg_pos p q (Suc k)"
  note S = segment [OF req k [unfolded p_def], folded p_def q_def]
  have pq: "p \<le> q" "q - p = unat sz" "q < 2 ^ 63" using req by (simp_all add: p_def q_def request_ok_def)
  note pos = seg_pos_ge [OF pq(1), of k] seg_pos_mono [of p q k] seg_pos_le [of p q "Suc k"]
  have n: "unat ?n = ?y - ?x" by (rule S(5))
  have nat_ws: "wsize + ?n = of_nat (?y - p)"
    using pos by (intro segment_advance [OF ws n]) simp_all
  from lc obtain ck where at: "chunk_at w a k = Some ck" "ck_uuid ck = u" by (auto simp: loc_content_def)
  from at(1) obtain fn where fn: "heap w a = Some (FileObj fn)" "k < length (fn_chunks fn)" "fn_chunks fn ! k = ck"
    by (rule chunk_at_SomeD)
  have unk: "unat (of_nat k :: size_t) = k"
    using k(2) unat_lt64 [of "end_chunk offset sz"] by (simp add: unat_of_nat take_bit_eq_mod)
  have room: "unat wsize + unat ?n \<le> length buf" and inchunk: "?x - CHUNKSIZE * k + (?y - ?x) \<le> CHUNKSIZE"
    using ws n pos S(3,4) buf pq by linarith+
  show ?thesis
  proof (cases "u = UUID_zero")
    case True
    then show ?thesis
      using fn at(2) room n ws ok loc_content_zero [OF lc True] data_okD [OF ok] rd_replicate [OF inchunk, of 0]
      by (intro exI [of _ w]) (simp add: Let_def nat_ws same_contents_refl del: of_int_diff of_nat_diff)
  next
    case False
    from fetch_chunk_ok [OF e ok _ False, of a "of_nat k" d] lc unk obtain c w1 w2 where
      l: "load_chunk e (ChunkCache_ctor CHUNKSIZE a (of_nat k)) w = Some (True, c, w1)"
      and c: "cc_data c = d" "length d = CHUNKSIZE" and s: "save_chunk e c w1 = Some (True, w2)"
      and w2: "same_contents e w w2" "data_ok e w2"
      by auto
    have "wsize \<le> sz" using ws pos pq by (simp add: word_le_nat_alt)
    then have dm: "unat (sz - wsize) = unat sz - unat wsize" by (rule unat_sub)
    have "mem_copy_s e buf (unat wsize) (unat (sz - wsize)) (cc_data c)
        (nat (seg_start offset (first_chunk offset) k)) (unat ?n) =
        Some (wr (?x - p) (rd (?x - CHUNKSIZE * k) (?y - ?x) d) buf)"
      using buf dm ws n pos pq inchunk c
      by (subst mem_copy_s_eq [OF e(1)]) (simp_all add: S(1))
    moreover have "\<not> seg_start offset (first_chunk offset) k < 0" by (simp add: S(1))
    ultimately show ?thesis
      using fn at(2) False l s w2 by (intro exI [of _ w2]) (simp add: Let_def nat_ws S(1) [symmetric] del: of_int_diff of_nat_diff)
  qed
qed

section \<open>The whole read\<close>

lemma rd_block:
  assumes ds: "\<forall>d\<in>set ds. length d = CHUNKSIZE" and "k < length ds"
    and "CHUNKSIZE * k \<le> x" and "x \<le> y" and "y \<le> CHUNKSIZE * k + CHUNKSIZE"
  shows "rd (x - CHUNKSIZE * k) (y - x) (ds ! k) = rd x (y - x) (concat ds)"
  using take_drop_concat_blocks [OF ds assms(2), of "x - CHUNKSIZE * k" "y - x"] assms
  by (simp add: rd_def)

lemma rd_split: "x \<le> y \<Longrightarrow> y \<le> z \<Longrightarrow> rd x (z - x) bs = rd x (y - x) bs @ rd y (z - y) bs"
  unfolding rd_def using take_add [of "y - x" "z - y" "drop x bs"] by simp

lemma read_loop_ok:
  fixes offset :: off_t and sz :: size_t
  defines "p \<equiv> unat offset" and "q \<equiv> unat offset + unat sz" and "en \<equiv> unat (end_chunk offset sz)"
  assumes e: "env_lawful e" "host_reliable e" and ok: "data_ok e w"
    and bl: "blocks e w a = Some ds" and len: "en \<le> length ds"
    and req: "request_ok offset sz" and k: "p div CHUNKSIZE \<le> k" "k \<le> en"
    and buf: "unat sz \<le> length buf" and ws: "unat wsize = seg_pos p q k - p"
  shows "\<exists>w'. read_loop e a offset sz (first_chunk offset) (end_chunk offset sz) [k..<en] wsize buf w =
      Some (RC_OK, sz, wr (seg_pos p q k - p) (rd (seg_pos p q k) (q - seg_pos p q k) (concat ds)) buf, w') \<and>
    same_contents e w w' \<and> data_ok e w'"
  using ok bl k buf ws
proof (induction "en - k" arbitrary: k wsize buf w)
  case 0
  have en: "en = (q + 4095) div 4096" by (simp add: en_def unat_end_chunk [OF req] q_def)
  from 0 have "k = en" by simp
  then have "seg_pos p q k = q" using seg_pos_last [of p q] en by simp
  with 0 \<open>k = en\<close> have "wsize = sz"
    by (intro unsigned_word_eqI) (simp add: p_def q_def)
  then show ?case
    using \<open>k = en\<close> \<open>seg_pos p q k = q\<close> 0 data_okD [OF 0(2)] same_contents_refl [of e w]
    by (simp add: rd_def p_def q_def)
next
  case (Suc m)
  let ?x = "seg_pos p q k" and ?y = "seg_pos p q (Suc k)"
  have lt: "k < en" using Suc.hyps(2) by simp
  then have up: "[k..<en] = k # [Suc k..<en]" by (rule upt_conv_Cons)
  from Suc.prems(2) obtain fn where h: "heap w a = Some (FileObj fn)"
    by (auto simp: blocks_def split: option.splits inode_obj.splits)
  have ds: "\<forall>d\<in>set ds. length d = CHUNKSIZE"
    by (rule blocks_length [OF e(1) data_okD [OF Suc.prems(1)] Suc.prems(2)])
  have kl: "k < length ds" using lt len by simp
  with Suc.prems(2) obtain u where lc: "loc_content e w a k = Some (u, Some (ds ! k))"
    using blocks_iff [OF h] by blast
  note S = segment [OF req Suc.prems(3) [unfolded p_def] lt [unfolded en_def], folded p_def q_def]
  have pq: "p \<le> q" "q < 2 ^ 63" using req by (simp_all add: p_def q_def request_ok_def)
  note pos = seg_pos_ge [OF pq(1), of k] seg_pos_mono [of p q k] seg_pos_le [of p q "Suc k"]
  let ?b = "wr (?x - p) (rd ?x (?y - ?x) (concat ds)) buf"
  from read_loop_step [OF e Suc.prems(1) req Suc.prems(3) [unfolded p_def] lt [unfolded en_def] lc
      Suc.prems(6) [unfolded p_def q_def] Suc.prems(5), folded p_def q_def, of "[Suc k..<en]"]
    rd_block [OF ds kl S(3) seg_pos_mono S(4)]
  obtain w1 where step: "read_loop e a offset sz (first_chunk offset) (end_chunk offset sz) [k..<en] wsize buf w =
      read_loop e a offset sz (first_chunk offset) (end_chunk offset sz) [Suc k..<en] (of_nat (?y - p)) ?b w1"
    and w1: "same_contents e w w1" "data_ok e w1"
    unfolding up by auto
  have cl: "length (concat ds) = CHUNKSIZE * length ds" by (rule length_concat_blocks [OF ds])
  have "CHUNKSIZE * Suc k \<le> CHUNKSIZE * length ds" using kl by (intro mult_le_mono) simp_all
  then have yl: "?y \<le> length (concat ds)" using S(4) cl by simp
  then have rl: "length (rd ?x (?y - ?x) (concat ds)) = ?y - ?x" using pos by (simp add: rd_def)
  have qs: "q - p = unat sz" by (simp add: p_def q_def)
  have bl1: "length ?b = length buf"
    using rl pos Suc.prems(5) qs by (intro length_wr) linarith
  have "\<exists>w'. read_loop e a offset sz (first_chunk offset) (end_chunk offset sz) [Suc k..<en] (of_nat (?y - p)) ?b w1 =
      Some (RC_OK, sz, wr (?y - p) (rd ?y (q - ?y) (concat ds)) ?b, w') \<and> same_contents e w1 w' \<and> data_ok e w'"
  proof (rule Suc.hyps(1))
    show "m = en - Suc k" using Suc.hyps(2) by simp
    show "blocks e w1 a = Some ds" using blocks_cong [OF frame_eq_skel [OF same_contentsD(2) [OF w1(1)]] same_contentsD(3) [OF w1(1)] h] Suc.prems(2) by simp
    have "?y - p < 2 ^ 64" using pos pq by simp
    then show "unat (of_nat (?y - p) :: size_t) = ?y - p"
      by (simp only: unat_of_nat) (simp add: take_bit_eq_mod)
  qed (use w1 Suc.prems lt bl1 in auto)
  moreover have "wr (?y - p) (rd ?y (q - ?y) (concat ds)) ?b = wr (?x - p) (rd ?x (q - ?x) (concat ds)) buf"
  proof -
    let ?A = "rd ?x (?y - ?x) (concat ds)" and ?B = "rd ?y (q - ?y) (concat ds)"
    have yx: "?y - p = ?x - p + length ?A" using rl pos by simp
    have "length ?B \<le> q - ?y" by (simp add: rd_def)
    then have join: "wr (?x - p + length ?A) ?B (wr (?x - p) ?A buf) = wr (?x - p) (?A @ ?B) buf"
      using pos Suc.prems(5) qs rl by (intro wr_wr_adjacent) linarith+
    have split: "rd ?x (q - ?x) (concat ds) = ?A @ ?B" using pos by (intro rd_split) simp_all
    show ?thesis by (subst split, subst yx, rule join)
  qed
  ultimately obtain w' where
    "read_loop e a offset sz (first_chunk offset) (end_chunk offset sz) [Suc k..<en] (of_nat (?y - p)) ?b w1 =
      Some (RC_OK, sz, wr (?x - p) (rd ?x (q - ?x) (concat ds)) buf, w')"
    and "same_contents e w1 w'" and "data_ok e w'" by auto
  with step same_contents_trans [OF w1(1)] show ?case by auto
qed

lemma find_inode_heap: "find_inode w ino = Some (a, obj) \<Longrightarrow> inode_map w ino = Some a \<and> heap w a = Some obj"
  by (auto simp: find_inode_def split: bind_splits)

lemma ecall_fs_read_ok:
  assumes e: "env_lawful e" "host_reliable e" and ok: "data_ok e w"
    and fn: "find_inode w ino = Some (a, FileObj fn)" and wf: "file_wf fn"
    and fb: "file_bytes e w a = Some bs" and off: "unat offset \<le> unat (fn_size fn)"
    and buf: "unat sz \<le> length buf"
  shows "\<exists>w'. ecall_fs_read e ino buf offset sz w =
      Some (RC_OK, of_nat (length (rd (unat offset) (unat sz) bs)), wr 0 (rd (unat offset) (unat sz) bs) buf, w') \<and>
    same_contents e w w' \<and> data_ok e w'"
proof -
  have h: "heap w a = Some (FileObj fn)" using find_inode_heap [OF fn] by simp
  from fb h obtain ds where ds: "blocks e w a = Some ds" and bs: "bs = take (unat (fn_size fn)) (concat ds)"
    by (auto simp: file_bytes_def)
  define s where "s = min sz (fn_size fn - offset)"
  have us: "unat s = min (unat sz) (unat (fn_size fn) - unat offset)"
    using off by (simp add: s_def min_def word_le_nat_alt unat_sub)
  have req: "request_ok offset s"
    unfolding request_ok_def us using wf off unfolding file_wf_def by linarith
  have lds: "length ds = (unat (fn_size fn) + 4095) div 4096"
    using ds wf blocks_iff [OF h, of e ds] by (simp add: file_wf_def)
  have "unat offset + unat s + 4095 \<le> unat (fn_size fn) + 4095" using us off by simp
  then have en: "unat (end_chunk offset s) \<le> length ds"
    unfolding unat_end_chunk [OF req] lds by (rule div_le_mono)
  have lfn: "length (fn_chunks fn) = length ds" using wf lds by (simp add: file_wf_def)
  have "length ds \<le> unat (fn_size fn) + 4095" unfolding lds by simp
  then have "unat (of_nat (length ds) :: size_t) = length ds"
    using wf by (simp add: unat_of_nat take_bit_eq_mod file_wf_def CHUNKSIZE_def)
  then have guard: "\<not> of_nat (length ds) < end_chunk offset s" "min (end_chunk offset s) (of_nat (length ds)) = end_chunk offset s"
    using en by (simp_all add: word_less_nat_alt word_le_nat_alt min_def)
  have st: "unat (first_chunk offset) = unat offset div CHUNKSIZE"
    by (rule unat_first_chunk [OF req])
  show ?thesis
  proof (cases "unat offset div CHUNKSIZE \<le> unat (end_chunk offset s)")
    case True
    have pos: "seg_pos (unat offset) (unat offset + unat s) (unat offset div CHUNKSIZE) = unat offset"
      by (simp add: seg_pos_first)
    have "unat s \<le> length buf" using us buf by simp
    from read_loop_ok [OF e ok ds en req order_refl True this, of 0] pos obtain w' where
      loop: "read_loop e a offset s (first_chunk offset) (end_chunk offset s)
          [unat (first_chunk offset)..<unat (end_chunk offset s)] 0 buf w =
        Some (RC_OK, s, wr 0 (rd (unat offset) (unat s) (concat ds)) buf, w')"
      and w': "same_contents e w w'" "data_ok e w'"
      by (auto simp: st)
    have "length (concat ds) = CHUNKSIZE * length ds"
      by (rule length_concat_blocks [OF blocks_length [OF e(1) data_okD [OF ok] ds]])
    moreover obtain r where "4096 * ((unat (fn_size fn) + 4095) div 4096) = unat (fn_size fn) + r"
      by (rule ceil_chunks)
    ultimately have cl: "unat (fn_size fn) \<le> length (concat ds)" by (simp add: lds CHUNKSIZE_def)
    have eq: "rd (unat offset) (unat sz) bs = rd (unat offset) (unat s) (concat ds)"
      unfolding rd_def bs us drop_take by simp
    moreover have "length (rd (unat offset) (unat s) (concat ds)) = unat s"
      using cl us off by (simp add: rd_def)
    ultimately show ?thesis
      using fn loop w' guard lfn by (simp add: ecall_fs_read_def Let_def flip: s_def)
  next
    case False
    have "unat offset div 4096 \<le> (unat offset + unat s + 4095) div 4096" by (rule div_le_mono) simp
    with False show ?thesis by (simp add: unat_end_chunk [OF req] CHUNKSIZE_def)
  qed
qed

end
