(* ===== verification/File_Write.thy ===== *)
theory File_Write
  imports File_Read
begin

text \<open>
  Writing a file: \<open>ecall_fs_write\<close> replaces the requested range of the file's contents, extends the
  file with zeros where the range begins after its end, and changes no other file.
\<close>

section \<open>Fresh identifiers\<close>

text \<open>The UUID the generator will draw when it has drawn \<open>t\<close> before.\<close>

definition rand_uuid :: "'c env \<Rightarrow> nat \<Rightarrow> uuid" where
  "rand_uuid e t = UUID_load (read_rand e t 16)"

text \<open>The next \<open>m\<close> UUIDs are not zero, are different and belong to no chunk.\<close>

definition fresh_uuids :: "'c env \<Rightarrow> world \<Rightarrow> nat \<Rightarrow> bool" where
  "fresh_uuids e w m \<longleftrightarrow>
     (\<forall>j<m. rand_uuid e (rnd w + j) \<noteq> UUID_zero \<and>
        (\<forall>i<j. rand_uuid e (rnd w + i) \<noteq> rand_uuid e (rnd w + j)) \<and>
        (\<forall>b k. map_option ck_uuid (chunk_at w b k) \<noteq> Some (rand_uuid e (rnd w + j))))"

lemma fresh_uuids_mono: "fresh_uuids e w m \<Longrightarrow> n \<le> m \<Longrightarrow> fresh_uuids e w n"
  by (simp add: fresh_uuids_def)

lemma fresh_uuids_cong:
  assumes "rnd w' = rnd w"
    and "\<And>b k. map_option ck_uuid (chunk_at w' b k) = map_option ck_uuid (chunk_at w b k)"
  shows "fresh_uuids e w' m = fresh_uuids e w m"
  by (simp only: fresh_uuids_def assms)

lemma fresh_uuids_frame_eq: "frame_eq w w' \<Longrightarrow> fresh_uuids e w' m = fresh_uuids e w m"
  by (rule fresh_uuids_cong) (auto simp: frame_eq_def intro: heap_skel_uuid_at)

text \<open>Giving a chunk without identity a fresh one.\<close>

lemma chunk_at_rnd [simp]: "chunk_at (w\<lparr>rnd := r\<rparr>) = chunk_at w"
  by (rule chunk_at_cong) simp

lemma set_uuid_ok:
  assumes inv: "data_inv e w" and at: "chunk_at w a k = Some ck" and z: "ck_uuid ck = UUID_zero"
    and nz: "u \<noteq> UUID_zero" and fr: "\<And>b j c. chunk_at w b j = Some c \<Longrightarrow> ck_uuid c \<noteq> u"
    and w': "w' = set_chunk a k (ck\<lparr>ck_uuid := u\<rparr>) (w\<lparr>rnd := r\<rparr>)"
  shows "data_inv e w'" and "chunk_at w' a k = Some (ck\<lparr>ck_uuid := u\<rparr>)"
    and "b \<noteq> a \<or> j \<noteq> k \<Longrightarrow> loc_content e w' b j = loc_content e w b j"
proof -
  have at0: "chunk_at (w\<lparr>rnd := r\<rparr>) a k = Some ck" using at by simp
  have at': "chunk_at w' b j = (if b = a \<and> j = k then Some (ck\<lparr>ck_uuid := u\<rparr>) else chunk_at w b j)" for b j
    unfolding w' chunk_at_set_chunk [OF at0] by simp
  show "chunk_at w' a k = Some (ck\<lparr>ck_uuid := u\<rparr>)" by (simp add: at')
  have same: "files w' = files w" "volkey w' = volkey w" "local_cache w' = local_cache w"
    by (simp_all add: w')
  have stored: "stored_chunk e w' c = stored_chunk e w c" for c
    by (rule stored_chunk_cong) (simp_all add: same)
  then have content: "chunk_content e w' c = chunk_content e w c" for c
    by (simp add: chunk_content_def same split: option.split)
  show "b \<noteq> a \<or> j \<noteq> k \<Longrightarrow> loc_content e w' b j = loc_content e w b j"
    by (auto simp: loc_content_def at' content)
  note D = data_invD [OF inv]
  have "uuids_unique w'"
    using D(2) fr unfolding uuids_unique_def at' by (auto split: if_splits) metis+
  moreover have "cached_ok e w' c" if "cached_ok e w c" for c
  proof -
    from that obtain c' where c': "chunk_at w (cc_filenode c) (unat (cc_idx c)) = Some c'"
      "ck_uuid c' = cc_uuid c" "cc_uuid c \<noteq> UUID_zero" "length (cc_data c) = CHUNKSIZE"
      "cc_modified c \<or> stored_chunk e w c' = Some (cc_data c)"
      by (auto simp: cached_ok_def)
    then have "chunk_at w' (cc_filenode c) (unat (cc_idx c)) = Some c'"
      using at z by (auto simp: at')
    with c' show ?thesis by (auto simp: cached_ok_def stored)
  qed
  ultimately show "data_inv e w'"
    using inv by (simp add: data_inv_def same)
qed

section \<open>A step that changes one file\<close>

definition file_hdr :: "world \<Rightarrow> nat \<Rightarrow> (filenode \<times> nat) option" where
  "file_hdr w a =
     (case heap w a of
        Some (FileObj fn) \<Rightarrow> Some (fn\<lparr>fn_chunks := []\<rparr>, length (fn_chunks fn))
      | _ \<Rightarrow> None)"

definition file_step :: "'c env \<Rightarrow> nat \<Rightarrow> bytes list \<Rightarrow> world \<Rightarrow> world \<Rightarrow> bool" where
  "file_step e a ds w w' \<longleftrightarrow> data_ok e w' \<and> blocks e w' a = Some ds \<and>
     inode_map w' = inode_map w \<and> next_addr w' = next_addr w \<and> superinfo w' = superinfo w \<and>
     volkey w' = volkey w \<and> file_hdr w' a = file_hdr w a \<and>
     (\<forall>b. b \<noteq> a \<longrightarrow> heap_skel w' b = heap_skel w b \<and> (\<forall>j. loc_content e w' b j = loc_content e w b j))"

lemma file_step_trans: "file_step e a ds w w' \<Longrightarrow> file_step e a ds' w' w'' \<Longrightarrow> file_step e a ds' w w''"
  by (auto simp: file_step_def)

lemma file_step_refl: "data_ok e w \<Longrightarrow> blocks e w a = Some ds \<Longrightarrow> file_step e a ds w w"
  by (simp add: file_step_def)

lemma file_hdr_frame_eq:
  assumes "frame_eq w w'" and "heap w a = Some (FileObj fn)"
  shows "file_hdr w' a = file_hdr w a"
proof -
  from skel_eq_heap [OF frame_eq_skel [OF assms(1)] assms(2)] obtain fn' where "heap w' a = Some (FileObj fn')" "fn_size fn' = fn_size fn"
    "length (fn_chunks fn') = length (fn_chunks fn)" "md_uuid fn' = md_uuid fn" "in_ino fn' = in_ino fn"
    "in_refcount fn' = in_refcount fn" by metis
  with assms(2) show ?thesis by (simp add: file_hdr_def)
qed

text \<open>The blocks of a file, read off the contents.\<close>

lemma blocks_SomeI:
  assumes "file_hdr w a = Some (h, length ds)"
    and "\<And>i. i < length ds \<Longrightarrow> map_option snd (loc_content e w a i) = Some (Some (ds ! i))"
  shows "blocks e w a = Some ds"
proof -
  from assms(1) obtain fn where fn: "heap w a = Some (FileObj fn)" "length (fn_chunks fn) = length ds"
    by (auto simp: file_hdr_def split: option.splits inode_obj.splits)
  have "chunk_content e w (fn_chunks fn ! i) = Some (ds ! i)" if "i < length ds" for i
    using assms(2) [OF that] fn that by (simp add: loc_content_def chunk_at_def)
  then show ?thesis
    using fn by (simp add: blocks_def those_eq_Some list_eq_iff_nth_eq)
qed

lemma blocks_SomeD:
  assumes "blocks e w a = Some ds"
  shows "\<exists>h. file_hdr w a = Some (h, length ds)"
    and "\<And>i. i < length ds \<Longrightarrow> map_option snd (loc_content e w a i) = Some (Some (ds ! i))"
proof -
  from assms obtain fn where fn: "heap w a = Some (FileObj fn)"
    by (auto simp: blocks_def split: option.splits inode_obj.splits)
  with assms blocks_iff [OF fn, of e ds]
  show "\<exists>h. file_hdr w a = Some (h, length ds)"
    and "\<And>i. i < length ds \<Longrightarrow> map_option snd (loc_content e w a i) = Some (Some (ds ! i))"
    by (simp_all add: file_hdr_def)
qed

text \<open>A step that leaves the other contents; what becomes of chunk \<open>k\<close> of the file is open.\<close>

definition chunk_open :: "'c env \<Rightarrow> nat \<Rightarrow> nat \<Rightarrow> world \<Rightarrow> world \<Rightarrow> bool" where
  "chunk_open e a k w w' \<longleftrightarrow> data_inv e w' \<and>
     inode_map w' = inode_map w \<and> next_addr w' = next_addr w \<and> superinfo w' = superinfo w \<and>
     volkey w' = volkey w \<and> file_hdr w' a = file_hdr w a \<and>
     (\<forall>b. b \<noteq> a \<longrightarrow> heap_skel w' b = heap_skel w b) \<and>
     (\<forall>b j. b \<noteq> a \<or> j \<noteq> k \<longrightarrow> loc_content e w' b j = loc_content e w b j)"

lemma chunk_open_refl: "data_inv e w \<Longrightarrow> chunk_open e a k w w"
  by (simp add: chunk_open_def)

lemma chunk_open_trans: "chunk_open e a k w w' \<Longrightarrow> chunk_open e a k w' w'' \<Longrightarrow> chunk_open e a k w w''"
  by (auto simp: chunk_open_def)

lemma chunk_open_upd:
  assumes "content_upd e a k x w w'" and h: "heap w a = Some (FileObj fn)"
  shows "chunk_open e a k w w'"
  using assms file_hdr_frame_eq [of w w', OF _ h]
  by (auto simp: chunk_open_def content_upd_def frame_eq_def)

lemma file_step_close:
  assumes bl: "blocks e w a = Some ds" and op: "chunk_open e a k w w1"
    and up: "content_upd e a k (u, Some d) w1 w'"
    and b: "length (cs_items (local_cache w')) \<le> MAX_CACHE_NUM" and k: "k < length ds"
  shows "file_step e a (ds[k := d]) w w'"
proof -
  note old = blocks_SomeD(2) [OF bl]
  from blocks_SomeD(1) [OF bl] obtain hd where hd: "file_hdr w a = Some (hd, length ds)" by blast
  with op have "file_hdr w1 a = Some (hd, length ds)" by (simp add: chunk_open_def)
  then obtain fn where h: "heap w1 a = Some (FileObj fn)"
    by (auto simp: file_hdr_def split: option.splits inode_obj.splits)
  have op': "chunk_open e a k w w'" by (rule chunk_open_trans [OF op chunk_open_upd [OF up h]])
  from up have new: "loc_content e w' a k = Some (u, Some d)" by (simp add: content_upd_def)
  have "blocks e w' a = Some (ds[k := d])"
  proof (rule blocks_SomeI)
    show "file_hdr w' a = Some (hd, length (ds[k := d]))" using hd op' by (simp add: chunk_open_def)
    fix i assume "i < length (ds[k := d])"
    then show "map_option snd (loc_content e w' a i) = Some (Some (ds[k := d] ! i))"
      using old [of i] new op' by (cases "i = k") (auto simp: chunk_open_def)
  qed
  with op' b show ?thesis by (simp add: file_step_def data_ok_def chunk_open_def)
qed

section \<open>One chunk of a write\<close>

lemma chunk_open_set_uuid:
  assumes inv: "data_inv e w" and at: "chunk_at w a k = Some ck" and z: "ck_uuid ck = UUID_zero"
    and fr: "fresh_uuids e w (Suc m)"
  shows "\<exists>u w1. UUID_gen_rand e w = (u, w\<lparr>rnd := Suc (rnd w)\<rparr>) \<and>
    w1 = set_chunk a k (ck\<lparr>ck_uuid := u\<rparr>) (w\<lparr>rnd := Suc (rnd w)\<rparr>) \<and> u \<noteq> UUID_zero \<and>
    chunk_open e a k w w1 \<and> chunk_at w1 a k = Some (ck\<lparr>ck_uuid := u\<rparr>) \<and> fresh_uuids e w1 m"
proof -
  define u where "u = rand_uuid e (rnd w)"
  define w1 where "w1 = set_chunk a k (ck\<lparr>ck_uuid := u\<rparr>) (w\<lparr>rnd := Suc (rnd w)\<rparr>)"
  have gen: "UUID_gen_rand e w = (u, w\<lparr>rnd := Suc (rnd w)\<rparr>)"
    by (simp add: UUID_gen_rand_def u_def rand_uuid_def)
  have f: "rand_uuid e (rnd w + j) \<noteq> UUID_zero" "\<And>i. i < j \<Longrightarrow> rand_uuid e (rnd w + i) \<noteq> rand_uuid e (rnd w + j)"
    "\<And>b k. map_option ck_uuid (chunk_at w b k) \<noteq> Some (rand_uuid e (rnd w + j))" if "j < Suc m" for j
    using fr that unfolding fresh_uuids_def by blast+
  have nz: "u \<noteq> UUID_zero" using f(1) [of 0] by (simp add: u_def)
  have "ck_uuid c \<noteq> u" if "chunk_at w b j = Some c" for b j c
    using f(3) [of 0 b j] that by (auto simp: u_def)
  note S = set_uuid_ok [OF inv at z nz this w1_def]
  have at0: "chunk_at (w\<lparr>rnd := Suc (rnd w)\<rparr>) a k = Some ck" using at by simp
  have at': "chunk_at w1 b j = (if b = a \<and> j = k then Some (ck\<lparr>ck_uuid := u\<rparr>) else chunk_at w b j)" for b j
    unfolding w1_def chunk_at_set_chunk [OF at0] by simp
  from at obtain fn where h: "heap w a = Some (FileObj fn)" "k < length (fn_chunks fn)"
    by (rule chunk_at_SomeD)
  have hw: "heap w1 = (heap w)(a \<mapsto> FileObj (fn\<lparr>fn_chunks := (fn_chunks fn)[k := ck\<lparr>ck_uuid := u\<rparr>]\<rparr>))"
    by (simp add: w1_def set_chunk_def h)
  have "u \<noteq> rand_uuid e (Suc (rnd w) + j)" if "j < m" for j
    using f(2) [of "Suc j" 0] that by (simp add: u_def)
  moreover have "rand_uuid e (Suc (rnd w) + i) \<noteq> rand_uuid e (Suc (rnd w) + j)" if "i < j" "j < m" for i j
    using f(2) [of "Suc j" "Suc i"] that by simp
  moreover have "rand_uuid e (Suc (rnd w) + j) \<noteq> UUID_zero"
    and "map_option ck_uuid (chunk_at w b l) \<noteq> Some (rand_uuid e (Suc (rnd w) + j))" if "j < m" for j b l
    using f(1,3) [of "Suc j"] that by simp_all
  moreover have "rnd w1 = Suc (rnd w)" by (simp add: w1_def)
  ultimately have "fresh_uuids e w1 m"
    unfolding fresh_uuids_def at' by (simp split: if_split)
  moreover have "chunk_open e a k w w1"
    using S(1,3) h hw by (auto simp: chunk_open_def file_hdr_def heap_skel_def) (simp_all add: w1_def)
  ultimately show ?thesis
    using gen nz S(2) by (intro exI [of _ u] exI [of _ w1]) (simp add: w1_def [symmetric])
qed

lemma write_loop_step:
  fixes offset :: off_t and sz :: size_t
  defines "p \<equiv> unat offset" and "q \<equiv> unat offset + unat sz"
  assumes e: "env_lawful e" "host_reliable e" and ok: "data_ok e w"
    and bl: "blocks e w a = Some ds" and kl: "k < length ds"
    and req: "request_ok offset sz" and k: "p div CHUNKSIZE \<le> k" "k < unat (end_chunk offset sz)"
    and buf: "unat sz \<le> length buf" and ws: "unat wsize = seg_pos p q k - p"
    and fr: "fresh_uuids e w (Suc m)"
    and keep: "Suc k = prev \<Longrightarrow> seg_pos p q k = CHUNKSIZE * k \<Longrightarrow>
      int (seg_pos p q (Suc k) - CHUNKSIZE * k) \<noteq> surplus"
  shows "\<exists>w'. write_loop e a buf offset sz (first_chunk offset) (end_chunk offset sz) prev surplus (k # ks) wsize w =
      write_loop e a buf offset sz (first_chunk offset) (end_chunk offset sz) prev surplus ks
        (of_nat (seg_pos p q (Suc k) - p)) w' \<and>
    file_step e a (ds[k := wr (seg_pos p q k - CHUNKSIZE * k)
      (rd (seg_pos p q k - p) (seg_pos p q (Suc k) - seg_pos p q k) buf) (ds ! k)]) w w' \<and>
    fresh_uuids e w' m"
proof -
  let ?st = "seg_start offset (first_chunk offset) k" and ?en = "seg_end offset sz (end_chunk offset sz) k"
  let ?n = "word_of_int (?en - ?st) :: size_t"
  let ?x = "seg_pos p q k" and ?y = "seg_pos p q (Suc k)"
  let ?seg = "rd (?x - p) (?y - ?x) buf" and ?o = "?x - CHUNKSIZE * k"
  note S = segment [OF req k [unfolded p_def], folded p_def q_def]
  have pq: "p \<le> q" "q - p = unat sz" using req by (simp_all add: p_def q_def)
  note pos = seg_pos_ge [OF pq(1), of k] seg_pos_mono [of p q k] seg_pos_le [of p q "Suc k"]
  note n = S(5) and inv = data_okD [OF ok]
  have nat_ws: "wsize + ?n = of_nat (?y - p)"
    using pos by (intro segment_advance [OF ws n]) simp_all
  have unk: "unat (of_nat k :: size_t) = k"
    using k(2) unat_lt64 [of "end_chunk offset sz"] by (simp add: unat_of_nat take_bit_eq_mod)
  have inchunk: "?y - ?x + ?o \<le> CHUNKSIZE" using pos S(3,4) by linarith
  have inbuf: "?x - p + (?y - ?x) \<le> length buf" using pos buf pq by linarith
  then have lseg: "length ?seg = ?y - ?x" by (rule length_rd)
  from blocks_SomeD(2) [OF bl kl] obtain u where lc: "loc_content e w a k = Some (u, Some (ds ! k))" by auto
  then obtain ck where at: "chunk_at w a k = Some ck" "ck_uuid ck = u" "chunk_content e w ck = Some (ds ! k)"
    by (auto simp: loc_content_def)
  from at(1) obtain fn where fn: "heap w a = Some (FileObj fn)" "k < length (fn_chunks fn)" "fn_chunks fn ! k = ck"
    by (rule chunk_at_SomeD)
  have ld: "length (ds ! k) = CHUNKSIZE" using blocks_length [OF e(1) inv bl] kl by simp
  let ?off = "if Suc k = prev then surplus else int CHUNKSIZE"
  obtain c w1 u1 where prep: "(if ck_uuid ck = UUID_zero
       then (case UUID_gen_rand e w of (u, w) \<Rightarrow>
         Some (ChunkCache_ctor CHUNKSIZE a (of_nat k), set_chunk a k (ck\<lparr>ck_uuid := u\<rparr>) w))
       else if ?st \<noteq> 0 \<or> ?en \<noteq> ?off
       then (do {
         (ok, cache, w) \<leftarrow> load_chunk e (ChunkCache_ctor CHUNKSIZE a (of_nat k)) w;
         Some (cache, w)
       })
       else Some (ChunkCache_ctor CHUNKSIZE a (of_nat k), w)) = Some (c, w1)"
    and c: "cc_filenode c = a" "cc_idx c = of_nat k" "length (cc_data c) = CHUNKSIZE"
    and wrc: "wr ?o ?seg (cc_data c) = wr ?o ?seg (ds ! k)"
    and w1: "chunk_open e a k w w1" "map_option ck_uuid (chunk_at w1 a k) = Some u1" "u1 \<noteq> UUID_zero"
      "fresh_uuids e w1 m"
  proof (cases "u = UUID_zero")
    case True
    from chunk_open_set_uuid [OF inv at(1) _ fr] at(2) True obtain u1 w1 where
      g: "UUID_gen_rand e w = (u1, w\<lparr>rnd := Suc (rnd w)\<rparr>)"
      and w1: "w1 = set_chunk a k (ck\<lparr>ck_uuid := u1\<rparr>) (w\<lparr>rnd := Suc (rnd w)\<rparr>)" "u1 \<noteq> UUID_zero"
        "chunk_open e a k w w1" "chunk_at w1 a k = Some (ck\<lparr>ck_uuid := u1\<rparr>)" "fresh_uuids e w1 m" by blast
    show thesis
      by (rule that [of "ChunkCache_ctor CHUNKSIZE a (of_nat k)" w1 u1])
        (use True at(2) g w1 loc_content_zero [OF lc True] in \<open>simp_all add: ChunkCache_ctor_def\<close>)
  next
    case False
    have fm: "fresh_uuids e w m" by (rule fresh_uuids_mono [OF fr]) simp
    show thesis
    proof (cases "?st \<noteq> 0 \<or> ?en \<noteq> ?off")
      case True
      from load_chunk_ok [OF e inv _ _ at(3), of a "of_nat k"] at(1,2) False obtain c w1 x where
        l: "load_chunk e (ChunkCache_ctor CHUNKSIZE a (of_nat k)) w = Some (True, c, w1)"
        and c: "cc_data c = ds ! k" "cc_filenode c = a" "cc_idx c = of_nat k"
        and w1: "chunk_at w1 = chunk_at w" "content_upd e a k (u, x) w w1"
        by (auto simp: unk)
      have "frame_eq w w1" using w1(2) by (simp add: content_upd_def)
      then have "fresh_uuids e w1 m" using fm by (simp add: fresh_uuids_frame_eq)
      then show thesis
        by (intro that [of c w1 u])
          (use False True at(1,2) l c w1 ld chunk_open_upd [OF w1(2) fn(1)] in simp_all)
    next
      case full: False
      then have en: "?en = ?off" and "int (?x - CHUNKSIZE * k) = 0" using S(1) by simp_all
      then have xk: "?x = CHUNKSIZE * k" using S(3) by linarith
      then have "?y - CHUNKSIZE * k = CHUNKSIZE"
        using keep [OF _ xk] S(2) en by (auto split: if_splits)
      with xk have "?o = 0" "length ?seg = CHUNKSIZE" using lseg by simp_all
      then show thesis
        by (intro that [of "ChunkCache_ctor CHUNKSIZE a (of_nat k)" w u])
          (use False full at(1,2) fm ld chunk_open_refl [OF inv] in \<open>simp_all add: ChunkCache_ctor_def\<close>)
    qed
  qed
  from w1(2) obtain ck1 where ck1: "chunk_at w1 a k = Some ck1" "ck_uuid ck1 = u1" by auto
  have inv1: "data_inv e w1" using w1(1) by (simp add: chunk_open_def)
  let ?d = "wr ?o ?seg (ds ! k)"
  have "length ?d = CHUNKSIZE" using inchunk ld lseg by (simp add: length_wr)
  with save_chunk_ok [OF e inv1, of "c\<lparr>cc_data := ?d, cc_modified := True\<rparr>" ck1] c ck1 w1(3) unk
  obtain w2 where sv: "save_chunk e (c\<lparr>cc_data := ?d, cc_modified := True\<rparr>) w1 = Some (True, w2)"
    and up: "content_upd e a k (u1, Some ?d) w1 w2"
    and b: "length (cs_items (local_cache w2)) \<le> MAX_CACHE_NUM" by auto
  have copy: "mem_copy_s e (cc_data c) (nat ?st) (CHUNKSIZE - nat ?st) buf (unat wsize) (unat ?n) = Some ?d"
    using c(3) inchunk inbuf ws n wrc add_le_imp_le_diff [of "?y - ?x" ?o CHUNKSIZE] by (subst mem_copy_s_eq [OF e(1)]) (simp_all add: S(1))
  have "\<not> ?st < 0" by (simp add: S(1))
  have "frame_eq w1 w2" using up by (simp add: content_upd_def)
  then have "fresh_uuids e w2 m" using w1(4) by (simp add: fresh_uuids_frame_eq)
  moreover have "file_step e a (ds[k := ?d]) w w2" by (rule file_step_close [OF bl w1(1) up b kl])
  moreover have "write_loop e a buf offset sz (first_chunk offset) (end_chunk offset sz) prev surplus (k # ks) wsize w =
      write_loop e a buf offset sz (first_chunk offset) (end_chunk offset sz) prev surplus ks (of_nat (?y - p)) w2"
    using fn prep copy sv \<open>\<not> ?st < 0\<close> by (simp add: Let_def nat_ws del: of_int_diff of_nat_diff)
  ultimately show ?thesis by blast
qed

section \<open>The loop\<close>

lemma concat_update_block:
  assumes "\<forall>d\<in>set ds. length d = n" and "k < length ds" and "s + length bs \<le> n"
  shows "concat (ds[k := wr s bs (ds ! k)]) = wr (n * k + s) bs (concat ds)"
  using assms
proof (induction ds arbitrary: k)
  case (Cons d ds)
  then show ?case
    by (cases k) (auto simp: wr_def drop_append take_append add.assoc)
qed simp

lemma write_loop_ok:
  fixes offset :: off_t and sz :: size_t
  defines "p \<equiv> unat offset" and "q \<equiv> unat offset + unat sz" and "en \<equiv> unat (end_chunk offset sz)"
  assumes e: "env_lawful e" "host_reliable e" and ok: "data_ok e w"
    and bl: "blocks e w a = Some ds" and len: "en \<le> length ds"
    and req: "request_ok offset sz" and k: "p div CHUNKSIZE \<le> k" "k \<le> en"
    and buf: "unat sz \<le> length buf" and ws: "unat wsize = seg_pos p q k - p"
    and fr: "fresh_uuids e w (en - k)"
    and keep: "\<And>j. Suc j = prev \<Longrightarrow> seg_pos p q j = CHUNKSIZE * j \<Longrightarrow> j < en \<Longrightarrow>
      int (seg_pos p q (Suc j) - CHUNKSIZE * j) \<noteq> surplus"
  shows "\<exists>w' ds'. write_loop e a buf offset sz (first_chunk offset) (end_chunk offset sz) prev surplus [k..<en] wsize w =
      Some (RC_OK, sz, w') \<and> file_step e a ds' w w' \<and> length ds' = length ds \<and>
    concat ds' = wr (seg_pos p q k) (rd (seg_pos p q k - p) (q - seg_pos p q k) buf) (concat ds)"
  using ok bl len k ws fr
proof (induction "en - k" arbitrary: k wsize w ds)
  case 0
  have en: "en = (q + 4095) div 4096" by (simp add: en_def unat_end_chunk [OF req] q_def)
  from 0 have "k = en" by simp
  then have pq: "seg_pos p q k = q" using seg_pos_last [of p q] en by simp
  with 0 \<open>k = en\<close> have "wsize = sz"
    by (intro unsigned_word_eqI) (simp add: p_def q_def)
  moreover have ds: "length (concat ds) = CHUNKSIZE * length ds"
    by (rule length_concat_blocks [OF blocks_length [OF e(1) data_okD [OF 0(2)] 0(3)]])
  obtain r where "4096 * ((q + 4095) div 4096) = q + r" by (rule ceil_chunks)
  moreover have "CHUNKSIZE * en \<le> CHUNKSIZE * length ds" using 0(4) by simp
  ultimately have "q \<le> length (concat ds)" using ds en by (simp add: CHUNKSIZE_def)
  with \<open>wsize = sz\<close> show ?case
    using \<open>k = en\<close> pq 0 file_step_refl [OF 0(2,3)] by (auto simp: rd_def)
next
  case (Suc m)
  let ?x = "seg_pos p q k" and ?y = "seg_pos p q (Suc k)"
  have lt: "k < en" using Suc.hyps(2) by simp
  then have up: "[k..<en] = k # [Suc k..<en]" by (rule upt_conv_Cons)
  have kl: "k < length ds" using lt Suc.prems(3) by simp
  have fr: "fresh_uuids e w (Suc m)" using Suc.prems(7) Suc.hyps(2) by simp
  note S = segment [OF req Suc.prems(4) [unfolded p_def] lt [unfolded en_def], folded p_def q_def]
  have pq: "p \<le> q" "q < 2 ^ 63" "q - p = unat sz" using req by (simp_all add: p_def q_def request_ok_def)
  note pos = seg_pos_ge [OF pq(1), of k] seg_pos_mono [of p q k] seg_pos_le [of p q "Suc k"]
  have ds: "\<forall>d\<in>set ds. length d = CHUNKSIZE"
    by (rule blocks_length [OF e(1) data_okD [OF Suc.prems(1)] Suc.prems(2)])
  let ?A = "rd (?x - p) (?y - ?x) buf" and ?B = "rd (?y - p) (q - ?y) buf"
  let ?ds = "ds[k := wr (?x - CHUNKSIZE * k) ?A (ds ! k)]"
  from write_loop_step [OF e Suc.prems(1,2) kl req Suc.prems(4) [unfolded p_def] lt [unfolded en_def] buf
      Suc.prems(6) [unfolded p_def q_def] fr keep [unfolded p_def q_def], folded p_def q_def, where ks = "[Suc k..<en]"] lt
  obtain w1 where step: "write_loop e a buf offset sz (first_chunk offset) (end_chunk offset sz) prev surplus [k..<en] wsize w =
      write_loop e a buf offset sz (first_chunk offset) (end_chunk offset sz) prev surplus [Suc k..<en] (of_nat (?y - p)) w1"
    and w1: "file_step e a ?ds w w1" "fresh_uuids e w1 m"
    unfolding up by auto
  have inbuf: "?x - p + (?y - ?x) \<le> length buf" using pos buf pq by linarith
  then have lA: "length ?A = ?y - ?x" by (rule length_rd)
  have "?x - CHUNKSIZE * k + length ?A \<le> CHUNKSIZE" using lA pos S(3,4) by linarith
  from concat_update_block [OF ds kl this] S(3) have cc: "concat ?ds = wr ?x ?A (concat ds)" by simp
  have "\<exists>w' ds'. write_loop e a buf offset sz (first_chunk offset) (end_chunk offset sz) prev surplus [Suc k..<en]
      (of_nat (?y - p)) w1 = Some (RC_OK, sz, w') \<and> file_step e a ds' w1 w' \<and> length ds' = length ?ds \<and>
      concat ds' = wr ?y ?B (concat ?ds)"
  proof (rule Suc.hyps(1))
    show "m = en - Suc k" using Suc.hyps(2) by simp
    have "?y - p < 2 ^ 64" using pos pq by simp
    then show "unat (of_nat (?y - p) :: size_t) = ?y - p"
      by (simp only: unat_of_nat) (simp add: take_bit_eq_mod)
    have "en - Suc k = m" using Suc.hyps(2) by simp
    then show "fresh_uuids e w1 (en - Suc k)" using w1(2) by simp
  qed (use w1(1) Suc.prems lt in \<open>auto simp: file_step_def\<close>)
  then obtain w' ds' where
    rest: "write_loop e a buf offset sz (first_chunk offset) (end_chunk offset sz) prev surplus [Suc k..<en]
      (of_nat (?y - p)) w1 = Some (RC_OK, sz, w')"
    and w': "file_step e a ds' w1 w'" "length ds' = length ds" "concat ds' = wr ?y ?B (concat ?ds)" by auto
  have "wr ?y ?B (wr ?x ?A (concat ds)) = wr ?x (rd (?x - p) (q - ?x) buf) (concat ds)"
  proof -
    have cl: "length (concat ds) = CHUNKSIZE * length ds" by (rule length_concat_blocks [OF ds])
    obtain r where r: "4096 * ((q + 4095) div 4096) = q + r" by (rule ceil_chunks)
    have "CHUNKSIZE * en \<le> CHUNKSIZE * length ds" using Suc.prems(3) by simp
    then have ql: "q \<le> length (concat ds)"
      using r cl by (simp add: CHUNKSIZE_def en_def unat_end_chunk [OF req] q_def)
    have y: "?y = ?x + length ?A" using lA pos by simp
    have "length ?B \<le> q - ?y" by (simp add: rd_def)
    then have join: "wr (?x + length ?A) ?B (wr ?x ?A (concat ds)) = wr ?x (?A @ ?B) (concat ds)"
      using pos lA ql by (intro wr_wr_adjacent) linarith+
    have "rd (?x - p) ((q - p) - (?x - p)) buf =
        rd (?x - p) ((?y - p) - (?x - p)) buf @ rd (?y - p) ((q - p) - (?y - p)) buf"
      using pos by (intro rd_split) simp_all
    moreover have "(q - p) - (?x - p) = q - ?x" "(?y - p) - (?x - p) = ?y - ?x" "(q - p) - (?y - p) = q - ?y"
      using pos by simp_all
    ultimately have split: "rd (?x - p) (q - ?x) buf = ?A @ ?B" by (simp only:)
    show ?thesis by (subst split, subst y, rule join)
  qed
  with w'(3) cc have "concat ds' = wr ?x (rd (?x - p) (q - ?x) buf) (concat ds)" by (simp only:)
  with step rest w'(2) file_step_trans [OF w1(1) w'(1)] show ?case by auto
qed

section \<open>Resizing\<close>

text \<open>Chunks appended to a file are zeros; the size and the chunks of other files do not matter.\<close>

lemma resize_ok:
  assumes inv: "data_inv e w" and h: "heap w a = Some (FileObj fn)" and bl: "blocks e w a = Some ds"
    and w': "w' = upd_obj a (FileObj (fn\<lparr>fn_chunks := fn_chunks fn @ replicate n Chunk_zero, fn_size := s\<rparr>)) w"
  shows "data_inv e w'" and "blocks e w' a = Some (ds @ replicate n (replicate CHUNKSIZE 0))"
    and "\<And>b j. b \<noteq> a \<Longrightarrow> loc_content e w' b j = loc_content e w b j"
    and "fresh_uuids e w m \<Longrightarrow> fresh_uuids e w' m"
proof -
  have hw: "heap w' = (heap w)(a \<mapsto> FileObj (fn\<lparr>fn_chunks := fn_chunks fn @ replicate n Chunk_zero, fn_size := s\<rparr>))"
    and same: "files w' = files w" "volkey w' = volkey w" "local_cache w' = local_cache w" "rnd w' = rnd w"
    by (simp_all add: w' upd_obj_def)
  have other: "chunk_at w' b j = chunk_at w b j" if "b \<noteq> a" for b j
    using that by (simp add: chunk_at_def hw)
  have old: "chunk_at w' b j = Some c" if "chunk_at w b j = Some c" for b j c
    using that other [of b j] h by (cases "b = a") (auto simp: chunk_at_def hw nth_append split: if_splits)
  have new: "chunk_at w b j = Some c" if "chunk_at w' b j = Some c" "ck_uuid c \<noteq> UUID_zero" for b j c
    using that other [of b j] h
    by (cases "b = a") (auto simp: chunk_at_def hw nth_append Chunk_zero_def split: if_splits)
  have stored: "stored_chunk e w' c = stored_chunk e w c" for c
    by (rule stored_chunk_cong) (simp_all add: same)
  then have content: "chunk_content e w' = chunk_content e w"
    by (simp add: chunk_content_def same fun_eq_iff split: option.split)
  show "\<And>b j. b \<noteq> a \<Longrightarrow> loc_content e w' b j = loc_content e w b j"
    by (simp add: loc_content_def other content)
  have "uuids_unique w'"
    using data_invD(2) [OF inv] new unfolding uuids_unique_def by metis
  moreover have "cached_ok e w' c" if "cached_ok e w c" for c
    using that old by (auto simp: cached_ok_def stored)
  ultimately show "data_inv e w'"
    using inv by (simp add: data_inv_def same)
  have z: "chunk_content e w' Chunk_zero = Some (replicate CHUNKSIZE 0)"
    by (simp add: chunk_content_def Chunk_zero_def)
  show "blocks e w' a = Some (ds @ replicate n (replicate CHUNKSIZE 0))"
    using bl h z by (simp add: blocks_def those_eq_Some hw content map_replicate_const)
  have "map_option ck_uuid (chunk_at w' b k) = Some u \<Longrightarrow> u \<noteq> UUID_zero \<Longrightarrow> map_option ck_uuid (chunk_at w b k) = Some u"
    for b k u using new [of b k] by auto
  then show "fresh_uuids e w m \<Longrightarrow> fresh_uuids e w' m"
    unfolding fresh_uuids_def same by metis
qed

section \<open>The whole write\<close>

text \<open>
  The abstraction of a file: address \<open>a\<close> holds the byte string \<open>bs\<close>.  Bytes of the last chunk after
  the end of the file are zero, so that extending the file shows zeros.
\<close>

definition holds :: "'c env \<Rightarrow> world \<Rightarrow> nat \<Rightarrow> bytes \<Rightarrow> bool" where
  "holds e w a bs \<longleftrightarrow>
     (case heap w a of
        Some (FileObj fn) \<Rightarrow> file_wf fn \<and> length bs = unat (fn_size fn) \<and>
          (case blocks e w a of None \<Rightarrow> False
           | Some ds \<Rightarrow> concat ds = bs @ replicate (length (concat ds) - length bs) 0)
      | _ \<Rightarrow> False)"

text \<open>A write at an offset, as POSIX has it: a gap after the end is filled with zeros.\<close>

definition overlay :: "nat \<Rightarrow> bytes \<Rightarrow> bytes \<Rightarrow> bytes" where
  "overlay p new bs = take p (bs @ replicate (p - length bs) 0) @ new @ drop (p + length new) bs"

lemma length_overlay: "length (overlay p new bs) = max (length bs) (p + length new)"
  by (auto simp: overlay_def max_def min_def)

lemma rd_overlay: "rd p (length new) (overlay p new bs) = new"
  by (simp add: rd_def overlay_def)

lemma holdsD:
  assumes "holds e w a bs"
  obtains fn ds where "heap w a = Some (FileObj fn)" and "file_wf fn" and "length bs = unat (fn_size fn)"
    and "blocks e w a = Some ds" and "concat ds = bs @ replicate (length (concat ds) - length bs) 0"
  using assms by (auto simp: holds_def split: option.splits inode_obj.splits)

lemma holdsI:
  assumes "heap w a = Some (FileObj fn)" and "file_wf fn" and "length bs = unat (fn_size fn)"
    and "blocks e w a = Some ds" and "concat ds = bs @ replicate (length (concat ds) - length bs) 0"
  shows "holds e w a bs"
  unfolding holds_def assms(1,4) option.case inode_obj.case by (intro conjI assms(2,3,5))

lemma holds_file_bytes: "holds e w a bs \<Longrightarrow> file_bytes e w a = Some bs"
  by (erule holdsD) (simp add: file_bytes_def, metis append_eq_conv_conj)

lemma holds_unique: "holds e w a bs \<Longrightarrow> holds e w a bs' \<Longrightarrow> bs = bs'"
  by (metis holds_file_bytes option.inject)

lemma holds_cong:
  assumes sk: "heap_skel w' a = heap_skel w a" and lc: "\<And>i. loc_content e w' a i = loc_content e w a i"
    and hd: "holds e w a bs"
  shows "holds e w' a bs"
proof -
  from hd obtain fn ds where h: "heap w a = Some (FileObj fn)" "file_wf fn" "length bs = unat (fn_size fn)"
    "blocks e w a = Some ds" "concat ds = bs @ replicate (length (concat ds) - length bs) 0"
    by (rule holdsD)
  from skel_eq_heap [OF sk h(1)] obtain fn' where fn': "heap w' a = Some (FileObj fn')"
    "fn_size fn' = fn_size fn" "length (fn_chunks fn') = length (fn_chunks fn)" by metis
  with h blocks_cong [OF sk lc h(1)] show ?thesis
    by (simp add: holds_def file_wf_def)
qed

lemma same_contents_holds: "same_contents e w w' \<Longrightarrow> holds e w a bs \<Longrightarrow> holds e w' a bs"
  by (rule holds_cong [OF frame_eq_skel [OF same_contentsD(2)] same_contentsD(3)])

lemma wr_overlay:
  assumes "p + length new \<le> length bs + m"
  shows "wr p new (bs @ replicate m 0) = overlay p new bs @ replicate (length bs + m - length (overlay p new bs)) 0"
proof -
  have "length bs + m - length (overlay p new bs) = m - (p + length new - length bs)"
    unfolding length_overlay by (simp add: max_def add.commute)
  moreover have "p - length bs \<le> m" using assms by simp
  ultimately show ?thesis by (simp add: wr_def overlay_def min_def)
qed

lemma fn_surplus:
  assumes "unat (sz :: size_t) + CHUNKSIZE < 2 ^ 63"
  shows "uint ((sz + of_nat CHUNKSIZE - 1) mod of_nat CHUNKSIZE) = int ((unat sz + 4095) mod 4096)"
proof -
  have "unat (sz + 4095) = unat sz + 4095"
    using assms by (subst unat_add_small) (simp_all add: CHUNKSIZE_def)
  then have "unat ((sz + 4095) mod 4096) = (unat sz + 4095) mod 4096" by (simp add: unat_mod)
  then show ?thesis by (simp add: CHUNKSIZE_def uint_nat add_diff_eq [symmetric])
qed

text \<open>The shortcut that skips the load of the last chunk is taken on whole chunks only.\<close>

lemma surplus_keep:
  assumes "p \<le> q" and "q + 1 \<noteq> n" and "Suc j = (n + 4095) div 4096" and "seg_pos p q j = CHUNKSIZE * j"
    and "j < (q + 4095) div 4096"
  shows "seg_pos p q (Suc j) - CHUNKSIZE * j \<noteq> (n + 4095) mod 4096"
proof
  assume eq: "seg_pos p q (Suc j) - CHUNKSIZE * j = (n + 4095) mod 4096"
  define r where "r = (n + 4095) mod 4096"
  have r: "r < 4096" by (simp add: r_def)
  have "n + 4095 = 4096 * Suc j + r"
    unfolding assms(3) r_def by (rule mult_div_mod_eq [symmetric])
  then have n: "n = 4096 * j + r + 1" by simp
  have "seg_pos p q (Suc j) = 4096 * j + r"
    using eq seg_pos_mono [of p q j] assms(4) by (simp add: CHUNKSIZE_def r_def)
  with n r assms(2) show False by (auto simp: seg_pos_def CHUNKSIZE_def min_def max_def split: if_splits)
qed

lemma ecall_fs_write_ok:
  assumes e: "env_lawful e" "host_reliable e" and ok: "data_ok e w"
    and fn: "find_inode w ino = Some (a, FileObj fn)" and hd: "holds e w a bs"
    and req: "request_ok offset sz" and buf: "unat sz \<le> length buf"
    and fr: "fresh_uuids e w (unat (end_chunk offset sz))"
    and keep: "unat offset + unat sz + 1 \<noteq> length bs"
  shows "\<exists>w' fn'. ecall_fs_write e ino buf offset sz w = Some (RC_OK, sz, w') \<and> data_ok e w' \<and>
    find_inode w' ino = Some (a, FileObj fn') \<and> in_ino fn' = in_ino fn \<and> in_refcount fn' = in_refcount fn \<and>
    holds e w' a (overlay (unat offset) (take (unat sz) buf) bs) \<and>
    (\<forall>b. b \<noteq> a \<longrightarrow> heap_skel w' b = heap_skel w b) \<and>
    (\<forall>b bs'. b \<noteq> a \<longrightarrow> holds e w b bs' \<longrightarrow> holds e w' b bs')"
proof -
  let ?p = "unat offset" and ?q = "unat offset + unat sz"
  define en where "en = unat (end_chunk offset sz)"
  have en: "en = (?q + 4095) div 4096" by (simp add: en_def unat_end_chunk [OF req])
  from find_inode_heap [OF fn] have im: "inode_map w ino = Some a" and h: "heap w a = Some (FileObj fn)" by auto
  from hd h obtain ds where wf: "file_wf fn" and lbs: "length bs = unat (fn_size fn)"
    and ds: "blocks e w a = Some ds" and cds: "concat ds = bs @ replicate (length (concat ds) - length bs) 0"
    by (auto elim!: holdsD)
  note inv = data_okD [OF ok]
  have l4: "\<forall>d\<in>set ds. length d = CHUNKSIZE" by (rule blocks_length [OF e(1) inv ds])
  define prev where "prev = length (fn_chunks fn)"
  have lds: "length ds = prev" using ds blocks_iff [OF h, of e ds] by (simp add: prev_def)
  have prev: "prev = (unat (fn_size fn) + 4095) div 4096" using wf by (simp add: prev_def file_wf_def)
  have small: "unat (fn_size fn) + CHUNKSIZE < 2 ^ 63" using wf by (simp add: file_wf_def)
  define n where "n = en - prev"
  define w0 where "w0 = upd_obj a (FileObj (fn\<lparr>fn_chunks := fn_chunks fn @ replicate n Chunk_zero, fn_size := fn_size fn\<rparr>)) w"
  define ds0 where "ds0 = ds @ replicate n (replicate CHUNKSIZE 0)"
  note R = resize_ok [OF inv h ds w0_def, folded ds0_def]
  have ok0: "data_ok e w0" using R(1) ok by (simp add: data_ok_def w0_def upd_obj_def)
  have "prev \<le> unat (fn_size fn) + 4095" unfolding prev by simp
  then have "unat (of_nat prev :: size_t) = prev"
    using small by (simp add: unat_of_nat take_bit_eq_mod CHUNKSIZE_def)
  then have grow: "of_nat prev < end_chunk offset sz \<longleftrightarrow> prev < en"
    by (simp add: word_less_nat_alt en_def)
  have w0: "(if of_nat prev < end_chunk offset sz
      then upd_obj a (FileObj (fn\<lparr>fn_chunks := chunks_resize (unat (end_chunk offset sz)) (fn_chunks fn)\<rparr>)) w
      else w) = w0"
  proof (cases "prev < en")
    case True
    then show ?thesis using grow
      by (simp add: w0_def chunks_resize_def n_def prev_def flip: en_def)
  next
    case False
    then have "w0 = upd_obj a (FileObj fn) w" by (simp add: w0_def n_def)
    also have "\<dots> = w" using h by (simp add: upd_obj_def fun_upd_idem)
    finally show ?thesis using False grow by simp
  qed
  have st: "unat (first_chunk offset) = ?p div CHUNKSIZE" by (rule unat_first_chunk [OF req])
  have "?p div 4096 \<le> (?q + 4095) div 4096" by (rule div_le_mono) simp
  then have ste: "?p div CHUNKSIZE \<le> en" by (simp add: en CHUNKSIZE_def)
  have len0: "length ds0 = max prev en" by (simp add: ds0_def lds n_def max_def)
  let ?sur = "uint ((fn_size fn + of_nat CHUNKSIZE - 1) mod of_nat CHUNKSIZE)"
  have keep': "int (seg_pos ?p ?q (Suc j) - CHUNKSIZE * j) \<noteq> ?sur"
    if "Suc j = prev" "seg_pos ?p ?q j = CHUNKSIZE * j" "j < unat (end_chunk offset sz)" for j
    using surplus_keep [of ?p ?q "unat (fn_size fn)" j] that keep lbs
    by (simp only: fn_surplus [OF small] of_nat_eq_iff prev unat_end_chunk [OF req]) simp
  have frw: "fresh_uuids e w0 (en - ?p div CHUNKSIZE)"
    by (rule fresh_uuids_mono [OF R(4) [OF fr]]) (simp add: en_def)
  have pos: "seg_pos ?p ?q (?p div CHUNKSIZE) = ?p" by (simp add: seg_pos_first)
  have en_len: "unat (end_chunk offset sz) \<le> length ds0" by (simp add: len0 flip: en_def)
  have ws0: "unat (0 :: size_t) = seg_pos ?p ?q (?p div CHUNKSIZE) - ?p" by (simp add: pos)
  have "\<exists>w' ds'. write_loop e a buf offset sz (first_chunk offset) (end_chunk offset sz) prev ?sur
      [?p div CHUNKSIZE..<unat (end_chunk offset sz)] 0 w0 = Some (RC_OK, sz, w') \<and> file_step e a ds' w0 w' \<and>
      length ds' = length ds0 \<and> concat ds' = wr (seg_pos ?p ?q (?p div CHUNKSIZE))
        (rd (seg_pos ?p ?q (?p div CHUNKSIZE) - ?p) (?q - seg_pos ?p ?q (?p div CHUNKSIZE)) buf) (concat ds0)"
    by (rule write_loop_ok [OF e ok0 R(2) en_len req order_refl ste [unfolded en_def] buf ws0 frw [unfolded en_def] keep'])
  then obtain w1 ds1 where loop: "write_loop e a buf offset sz (first_chunk offset) (end_chunk offset sz) prev ?sur
      [unat (first_chunk offset)..<unat (end_chunk offset sz)] 0 w0 = Some (RC_OK, sz, w1)"
    and w1: "file_step e a ds1 w0 w1" "length ds1 = length ds0"
      "concat ds1 = wr ?p (rd 0 (unat sz) buf) (concat ds0)"
    unfolding pos st by auto
  from w1(1) have F: "data_ok e w1" "blocks e w1 a = Some ds1" "inode_map w1 = inode_map w0"
    "file_hdr w1 a = file_hdr w0 a" "\<And>b. b \<noteq> a \<Longrightarrow> heap_skel w1 b = heap_skel w0 b"
    "\<And>b j. b \<noteq> a \<Longrightarrow> loc_content e w1 b j = loc_content e w0 b j"
    by (auto simp: file_step_def)
  from F(4) obtain fn1 where fn1: "heap w1 a = Some (FileObj fn1)"
    "fn1\<lparr>fn_chunks := []\<rparr> = fn\<lparr>fn_chunks := []\<rparr>" "length (fn_chunks fn1) = prev + n"
    by (auto simp: file_hdr_def w0_def upd_obj_def prev_def split: option.splits inode_obj.splits)
  have fld: "fn_size fn1 = fn_size fn" "in_ino fn1 = in_ino fn" "in_refcount fn1 = in_refcount fn"
    using arg_cong [OF fn1(2), of fn_size] arg_cong [OF fn1(2), of in_ino]
      arg_cong [OF fn1(2), of in_refcount] by simp_all
  let ?sz = "max (fn_size fn1) (offset + sz)"
  define w2 where "w2 = upd_obj a (FileObj (fn1\<lparr>fn_chunks := fn_chunks fn1 @ replicate 0 Chunk_zero, fn_size := ?sz\<rparr>)) w1"
  note R2 = resize_ok [OF data_okD [OF F(1)] fn1(1) F(2) w2_def]
  have q: "unat (offset + sz) = ?q" using req by (intro unat_add_small) (simp add: request_ok_def)
  then have usz: "unat ?sz = max (length bs) ?q" using lbs fld by (simp add: max_def word_le_nat_alt)
  have w2: "w2 = upd_obj a (FileObj (fn1\<lparr>fn_size := ?sz\<rparr>)) w1" by (simp add: w2_def)
  have "ecall_fs_write e ino buf offset sz w = Some (RC_OK, sz, w2)"
    using fn loop w0 fn1(1)
    by (simp add: ecall_fs_write_def Let_def w2 flip: prev_def)
  moreover have "data_ok e w2"
    using R2(1) F(1) by (simp add: data_ok_def w2 upd_obj_def)
  moreover have "find_inode w2 ino = Some (a, FileObj (fn1\<lparr>fn_size := ?sz\<rparr>))"
    using im F(3) by (simp add: find_inode_def w2 upd_obj_def w0_def)
  moreover have "heap_skel w2 b = heap_skel w b" if "b \<noteq> a" for b
  proof -
    have "heap_skel w2 b = heap_skel w1 b" "heap_skel w0 b = heap_skel w b"
      using that by (simp_all add: heap_skel_def w2 w0_def upd_obj_def)
    with F(5) [OF that] show ?thesis by simp
  qed
  moreover have "loc_content e w2 b j = loc_content e w b j" if "b \<noteq> a" for b j
    using R2(3) [OF that] F(6) [OF that] R(3) [OF that] by simp
  moreover have "holds e w2 a (overlay ?p (take (unat sz) buf) bs)"
  proof -
    have lB: "length (take (unat sz) buf) = unat sz" using buf by simp
    have l40: "length (concat ds0) = 4096 * max prev en"
      using length_concat_blocks [OF blocks_length [OF e(1) data_okD [OF ok0] R(2)]] len0
      by (simp add: CHUNKSIZE_def)
    have c0: "concat ds0 = bs @ replicate (length (concat ds0) - length bs) 0"
    proof -
      have "concat (replicate n (replicate CHUNKSIZE (0 :: byte))) = replicate (n * CHUNKSIZE) 0"
        by (induction n) (simp_all add: replicate_add)
      then have "concat ds0 = concat ds @ replicate (n * CHUNKSIZE) 0" by (simp add: ds0_def)
      also have "\<dots> = bs @ replicate (length (concat ds) - length bs + n * CHUNKSIZE) 0"
        by (subst cds) (simp add: replicate_add)
      finally have "concat ds0 = bs @ replicate (length (concat ds) - length bs + n * CHUNKSIZE) 0" .
      then show ?thesis by (metis add_diff_cancel_left' length_append length_replicate)
    qed
    obtain r1 where r1: "4096 * ((?q + 4095) div 4096) = ?q + r1" "r1 < 4096" by (rule ceil_chunks)
    obtain r2 where r2: "4096 * ((unat (fn_size fn) + 4095) div 4096) = unat (fn_size fn) + r2" "r2 < 4096"
      by (rule ceil_chunks)
    define m where "m = length (concat ds0) - length bs"
    have room: "length bs + m = length (concat ds0)" and "?q \<le> length bs + m"
      using l40 r1(1) r2(1) lbs by (simp_all add: m_def en prev max_def split: if_splits)
    have B: "rd 0 (unat sz) buf = take (unat sz) buf" by (simp add: rd_def)
    have "concat ds1 = wr ?p (take (unat sz) buf) (bs @ replicate m 0)"
      using w1(3) c0 B by (simp add: m_def)
    also have "\<dots> = overlay ?p (take (unat sz) buf) bs @
        replicate (length bs + m - length (overlay ?p (take (unat sz) buf) bs)) 0"
      using \<open>?q \<le> length bs + m\<close> lB by (intro wr_overlay) simp
    finally have c1: "concat ds1 = overlay ?p (take (unat sz) buf) bs @
        replicate (length bs + m - length (overlay ?p (take (unat sz) buf) bs)) 0" .
    have lo: "length (overlay ?p (take (unat sz) buf) bs) = unat ?sz"
      unfolding usz length_overlay lB by simp
    have "unat ?sz + CHUNKSIZE < 2 ^ 63"
      unfolding usz using req small lbs by (simp add: request_ok_def max_def)
    moreover have "length (fn_chunks fn1) = (unat ?sz + 4095) div 4096"
      unfolding fn1(3) usz n_def using lbs div_le_mono [of ?q "length bs" 4096]
      by (simp add: prev en max_def div_le_mono)
    ultimately have "file_wf (fn1\<lparr>fn_size := ?sz\<rparr>)" by (simp add: file_wf_def)
    moreover have "blocks e w2 a = Some ds1" using R2(2) by simp
    moreover have "heap w2 a = Some (FileObj (fn1\<lparr>fn_size := ?sz\<rparr>))" by (simp add: w2 upd_obj_def)
    ultimately show ?thesis
      using c1 lo by (simp add: holds_def)
  qed
  ultimately show ?thesis
    using fld holds_cong [of w2 _ w e]
    by (intro exI [of _ w2] exI [of _ "fn1\<lparr>fn_size := ?sz\<rparr>"]) simp
qed

end
