(* ===== verification/Metadata_Io.thy ===== *)
theory Metadata_Io
  imports Storage
begin

text \<open>
  Saving and loading metadata: what \<open>save_metadata\<close> leaves in the store is what \<open>load_metadata\<close>
  accepts, and what it accepts has been sealed for that UUID under the volume key.  The lemmas are
  proved once for every class with the contract \<open>metadata_codec\<close>.
\<close>

lemma tick_volkey [simp]: "volkey (tick w) = volkey w"
  by (rule more_world(5)) simp

definition seal_meta :: "'c env \<Rightarrow> bytes \<Rightarrow> uuid \<Rightarrow> bytes \<Rightarrow> bytes" where
  "seal_meta e key u img =
     gcm_ct (mbed e) key zero_iv (UUID_dump u) img @ gcm_tag (mbed e) key zero_iv (UUID_dump u) img"

text \<open>The file of \<open>u\<close> is a sealed image \<open>img\<close>.\<close>

definition stored_meta :: "'c env \<Rightarrow> world \<Rightarrow> uuid \<Rightarrow> bytes \<Rightarrow> bool" where
  "stored_meta e w u img \<longleftrightarrow> length (volkey w) = VOLKEYSIZE \<and> length img < 2 ^ 32 \<and>
     files w (UUID_unparse u) = Some (seal_meta e (volkey w) u img)"

lemma gcm_params_meta:
  "length key = VOLKEYSIZE \<Longrightarrow> length img < 2 ^ 32 \<Longrightarrow> gcm_params key zero_iv (UUID_dump u) img"
  by (simp add: gcm_params_def zero_iv_def)

lemma load_metadata_stored:
  assumes e: "env_lawful e" "host_reliable e" and st: "stored_meta e w u img"
  shows "\<exists>w'. load_metadata e vload u m w =
      (case vload m img of None \<Rightarrow> None | Some (ok, m') \<Rightarrow> Some (ok, m', w')) \<and>
    host.more w' = host.more w \<and> files w' = files w \<and> rnd w' = rnd w"
proof -
  from st have key: "length (volkey w) = VOLKEYSIZE" and len: "length img < 2 ^ 32"
    and f: "files w (UUID_unparse u) = Some (seal_meta e (volkey w) u img)"
    by (auto simp: stored_meta_def)
  note M = env_lawfulD(1) [OF e(1)] and params = gcm_params_meta [OF key len, of u]
  let ?ct = "gcm_ct (mbed e) (volkey w) zero_iv (UUID_dump u) img"
  let ?tg = "gcm_tag (mbed e) (volkey w) zero_iv (UUID_dump u) img"
  have l: "length ?ct = length img" "length ?tg = 16"
    by (rule gcm.length_ct [OF M params] gcm.length_tg [OF M params])+
  have dec: "decrypt_buffer (mbed e) (volkey w) zero_iv (UUID_dump u) ?ct (new_bytes e t (length img)) ?tg = (True, img)"
    for t using gcm.unseal_seal [OF M params, of "new_bytes e t (length img)"] env_lawfulD(3) [OF e(1)]
    by simp
  let ?w1 = "tick (tick (tick w))"
  have ld: "ocall_load_file e (UUID_unparse u) (tick w) = ((int (length img) + 16, ?ct @ ?tg), ?w1)"
    using f l e(2) by (simp add: ocall_load_file_eq host_reliable_def seal_meta_def)
  have "load_metadata e vload u m w =
      (case vload m img of None \<Rightarrow> None | Some (ok, m') \<Rightarrow> Some (ok, m', tick ?w1))"
    using e(2) l dec
    by (simp add: load_metadata_def sgx_enter_def host_reliable_def ld Let_def rd_def alloc_def nat_add_distrib split: option.split)
  then show ?thesis by (intro exI [of _ "tick ?w1"]) simp
qed

text \<open>Authenticity holds on any host: an accepted file is a sealed image, and the object is what it says.\<close>

lemma load_metadata_sound:
  assumes e: "env_lawful e" and key: "length (volkey w) = VOLKEYSIZE"
    and small: "\<And>f. files w (UUID_unparse u) = Some f \<Longrightarrow> length f < 2 ^ 32"
    and ld: "load_metadata e vload u m w = Some (True, m', w')"
  shows "\<exists>img. stored_meta e w u img \<and> vload m img = Some (True, m')"
proof -
  note M = env_lawfulD(1) [OF e]
  from ld obtain sz obuf w1 where lf: "ocall_load_file e (UUID_unparse u) (snd (sgx_enter e w)) = ((sz, obuf), w1)"
    and sz: "16 \<le> sz"
    by (auto simp: load_metadata_def sgx_enter_def split: prod.splits if_splits)
  then have f: "files w (UUID_unparse u) = Some obuf" and szl: "sz = int (length obuf)"
    using store.get_sound [of e "UUID_unparse u" "snd (sgx_enter e w)" sz obuf] by auto
  define n where "n = length obuf - 16"
  from lf have "w1 = snd (ocall_load_file e (UUID_unparse u) (snd (sgx_enter e w)))" by simp
  then have "host.more w1 = host.more w" by (simp only: host_calls_more)
  then have w1: "volkey w1 = volkey w" by (rule more_world(5))
  let ?c = "take n obuf" and ?t = "drop n obuf"
  have len: "16 \<le> length obuf" "length ?c = n" "length ?t = 16" using sz szl by (simp_all add: n_def)
  have params: "gcm_params (volkey w) zero_iv (UUID_dump u) ?c"
    using small [OF f] len by (intro gcm_params_meta key) simp
  have nsz: "nat sz - 16 = n" by (simp add: n_def szl)
  from ld lf sz obtain out where
    dec: "decrypt_buffer (mbed e) (volkey w) zero_iv (UUID_dump u) ?c (new_bytes e (clock w1) n) ?t = (True, out)"
    and vl: "vload m out = Some (True, m')"
    using w1 len nsz
    by (auto simp: load_metadata_def sgx_enter_def Let_def rd_def alloc_def n_def szl
        split: prod.splits if_splits option.splits bind_splits)
  have ln: "length (new_bytes e (clock w1) n) = n" by (rule env_lawfulD(3) [OF e])
  then have "length ?c \<le> length (new_bytes e (clock w1) n)" using len by simp
  from gcm.unseal_accepts [OF M params this len(3) dec] obtain pl where
    pl: "length pl = length ?c" "out = wr 0 pl (new_bytes e (clock w1) n)"
    "?c = gcm_ct (mbed e) (volkey w) zero_iv (UUID_dump u) pl"
    "?t = gcm_tag (mbed e) (volkey w) zero_iv (UUID_dump u) pl"
    by blast
  have "out = pl" using pl(1,2) len(2) ln by simp
  have "seal_meta e (volkey w) u pl = ?c @ ?t" by (simp only: seal_meta_def pl(3,4) [symmetric])
  then have "obuf = seal_meta e (volkey w) u pl" by (simp only: append_take_drop_id)
  moreover have "length pl < 2 ^ 32" using pl(1) len(2) small [OF f] by (simp add: n_def)
  ultimately show ?thesis
    using f key vl \<open>out = pl\<close> by (intro exI [of _ pl]) (simp add: stored_meta_def)
qed

context metadata_codec
begin

lemma save_metadata_ok:
  assumes e: "env_lawful e" "host_reliable e" and key: "length (volkey w) = VOLKEYSIZE"
    and m: "storable m"
  shows "\<exists>img w'. save_metadata e dump u m w = (True, w') \<and> stored_meta e w' u img \<and>
    (\<forall>m0. fresh m0 m \<longrightarrow> load m0 img = Some (True, m)) \<and> host.more w' = host.more w \<and> rnd w' = rnd w \<and>
    (\<forall>f. f \<noteq> UUID_unparse u \<longrightarrow> files w' f = files w f)"
proof -
  note M = env_lawfulD(1) [OF e(1)]
  let ?n = "bytes_of m"
  note B = bytes_of_bound [OF m] unat_bytes_of [OF m] dump_nonzero [OF m]
  have un: "unat (of_nat ?n + 16 :: size_t) = ?n + 16"
    using B(1,2) by (subst unat_word_ariths) simp
  from dump_load [OF m, of "new_bytes e (clock w) ?n"] env_lawfulD(3) [OF e(1)] obtain img where
    img: "dump m (Some (new_bytes e (clock w) ?n)) (of_nat ?n) = (of_nat ?n, Some img)" "length img = ?n"
    "\<forall>m0. fresh m0 m \<longrightarrow> load m0 img = Some (True, m)" by auto
  have params: "gcm_params (volkey w) zero_iv (UUID_dump u) img"
    using B(1) img(2) by (intro gcm_params_meta key) simp
  let ?ct = "gcm_ct (mbed e) (volkey w) zero_iv (UUID_dump u) img"
  let ?tg = "gcm_tag (mbed e) (volkey w) zero_iv (UUID_dump u) img"
  have l: "length ?ct = ?n" "length ?tg = 16"
    using gcm.length_ct [OF M params] gcm.length_tg [OF M params] img(2) by simp_all
  have enc: "encrypt_buffer (mbed e) (volkey w) zero_iv (UUID_dump u) img
      (take ?n (new_bytes e t (?n + 16))) (new_bytes e t' 16) = (True, ?ct, ?tg)" for t t'
    using l img(2) env_lawfulD(3) [OF e(1)] by (subst gcm.seal_eq [OF M params]) simp_all
  have out: "wr ?n ?tg (wr 0 ?ct (new_bytes e t (?n + 16))) = seal_meta e (volkey w) u img" for t
    using l env_lawfulD(3) [OF e(1), of t "?n + 16"] by (simp add: wr_def seal_meta_def)
  let ?w1 = "tick (tick (tick w))"
  let ?w' = "ocall_save_file e (UUID_unparse u) (seal_meta e (volkey w) u img) ?w1"
  have "save_metadata e dump u m w = (True, ?w')"
    using e(2) B(2,3) un img(1) enc out dump_size [OF m]
    by (simp add: save_metadata_def sgx_enter_def host_reliable_def Let_def alloc_def)
  moreover have "stored_meta e ?w' u img"
    using key B(1) img(2) more_world(5) [of ?w' w] by (simp add: stored_meta_def store.put_contents [OF e(2)])
  ultimately show ?thesis
    using img(3) by (intro exI [of _ img] exI [of _ ?w']) (simp add: store.put_other)
qed

text \<open>What was saved is loaded.\<close>

lemma load_saved:
  assumes e: "env_lawful e" "host_reliable e" and key: "length (volkey w) = VOLKEYSIZE"
    and m: "storable m" and sv: "save_metadata e dump u m w = (ok, w1)" and fr: "fresh m0 m"
  shows "ok \<and> (\<exists>w2. load_metadata e load u m0 w1 = Some (True, m, w2) \<and> files w2 = files w1 \<and>
    host.more w2 = host.more w)"
proof -
  from save_metadata_ok [OF e key m, of u] sv obtain img where S: "ok" "stored_meta e w1 u img"
    "\<forall>m0. fresh m0 m \<longrightarrow> load m0 img = Some (True, m)" "host.more w1 = host.more w" by auto
  with fr have "load m0 img = Some (True, m)" by blast
  with load_metadata_stored [OF e S(2), of load m0] S(1,4) show ?thesis by auto
qed

end

end
