(* ===== verification/File_Flush.thy ===== *)
theory File_Flush
  imports File_Write Metadata_Io
begin

text \<open>
  Flushing a file makes it durable: afterwards its contents are in the store alone, and an enclave
  that starts with an empty cache and loads the file's metadata finds the same contents.
\<close>

section \<open>One chunk\<close>

lemma cached_nonzero: "data_inv e w \<Longrightarrow> cs_lookup u (local_cache w) = Some c \<Longrightarrow> u \<noteq> UUID_zero"
  using data_invD(4) [of e w u c] cs_lookup_iff [of "local_cache w" u c] data_invD(1) [of e w]
  by (auto simp: cached_ok_def)

lemma flush_chunk_ok:
  assumes e: "env_lawful e" "host_reliable e" and inv: "data_inv e w" and at: "chunk_at w a k = Some ck"
  shows "\<exists>ck' w1. flush_chunk e ck w = Some (True, ck', w1) \<and> same_contents e w (set_chunk a k ck' w1) \<and>
    cs_items (local_cache w1) = filter (\<lambda>c. cc_uuid c \<noteq> ck_uuid ck) (cs_items (local_cache w))"
proof -
  let ?u = "ck_uuid ck"
  note D = data_invD [OF inv]
  from cs.take_ok [OF D(1), of ?u] obtain st where
    tk: "ChunkStore_get_erase_by_key ?u (local_cache w) = Some (cs_lookup ?u (local_cache w), st)"
    and st: "cs_inv st" "cs_items st = filter (\<lambda>c. cc_uuid c \<noteq> ?u) (cs_items (local_cache w))"
    by (auto simp: cs_lookup_def)
  have lk: "cs_lookup v st = (if v = ?u then None else cs_lookup v (local_cache w))" for v
    using cs.lookup_take [OF D(1) tk] by (simp add: cs_lookup_def)
  have set_same: "set_chunk a k ck w = w" if "chunk_at w a k = Some ck" for w
    using that by (auto elim!: chunk_at_SomeD simp: set_chunk_def fun_upd_idem)
  show ?thesis
  proof (cases "kl_map (local_cache w) ?u")
    case None
    then have no: "cs_lookup ?u (local_cache w) = None"
      using kl_find [OF D(1), of ?u] by (simp add: cs_lookup_def cs_items_def)
    then have "filter (\<lambda>c. cc_uuid c \<noteq> ?u) (cs_items (local_cache w)) = cs_items (local_cache w)"
      using cs_lookup_iff [OF D(1), of ?u] by (intro filter_True) auto
    with None show ?thesis
      using findbykey_eq [OF D(1), of ?u] same_contents_refl [OF inv] set_same [OF at]
      by (intro exI [of _ ck] exI [of _ w]) (simp add: flush_chunk_def)
  next
    case (Some i)
    have "cs_lookup ?u (local_cache w) = kl_deref i (local_cache w)"
      using kl_find [OF D(1), of ?u] Some by (simp add: cs_lookup_def cs_items_def)
    with kl_inv_deref [OF D(1) Some] obtain c where lo: "cs_lookup ?u (local_cache w) = Some c" by auto
    then have cu: "cc_uuid c = ?u" using cs_lookup_iff [OF D(1)] by simp
    from get_erase_eq [OF D(1) Some] tk lo have ge: "ChunkStore_get_erase i (local_cache w) = Some (c, st)" by simp
    let ?w = "w\<lparr>local_cache := st\<rparr>"
    from D(4) [OF lo] obtain k0 where k0: "chunk_at w (cc_filenode c) (unat (cc_idx c)) = Some k0"
      "ck_uuid k0 = ?u" "?u \<noteq> UUID_zero" "length (cc_data c) = CHUNKSIZE"
      "cc_modified c \<or> stored_chunk e w k0 = Some (cc_data c)"
      by (auto simp: cached_ok_def cu)
    have "cc_filenode c = a \<and> unat (cc_idx c) = k"
      using D(2) at k0(1-3) unfolding uuids_unique_def by metis
    with at k0 have md: "cc_modified c \<or> stored_chunk e w ck = Some (cc_data c)" by auto
    have content: "chunk_content e w ck = Some (cc_data c)"
      by (rule chunk_content_cached [OF k0(3) lo])
    show ?thesis
    proof (cases "cc_modified c")
      case False
      have "same_contents e w ?w"
      proof (rule same_contents_step [OF inv])
        show "chunk_step e a k ck ck w ?w" using at st(1) lk by (auto simp: chunk_step_def)
        show "chunk_content e ?w ck = chunk_content e w ck"
          using content md False k0(3) lk by (simp add: chunk_content_stored)
      qed (simp add: frame_eq_def)
      moreover have "set_chunk a k ck ?w = ?w" using at by (intro set_same) simp
      moreover have "flush_chunk e ck w = Some (True, ck, ?w)"
        using findbykey_eq [OF D(1), of ?u] Some ge False by (simp add: flush_chunk_def)
      ultimately show ?thesis using st(2) by auto
    next
      case True
      have key: "length (volkey ?w) = VOLKEYSIZE" using D(3) by simp
      from save_cache_stored [OF e key k0(4), of ck] obtain ck' w1 where
        sv: "save_cache e ck (cc_data c) ?w = (True, ck', w1)"
        and S: "ck_uuid ck' = ?u" "stored_chunk e w1 ck' = Some (cc_data c)" "host.more w1 = host.more ?w"
          "rnd w1 = rnd w" "\<And>f. f \<noteq> UUID_unparse ?u \<Longrightarrow> files w1 f = files w f"
        by auto
      note M = more_world [OF S(3)]
      let ?w' = "set_chunk a k ck' w1"
      have at1: "chunk_at w1 a k = Some ck" using at chunk_at_cong [of w1 w] M by simp
      have "same_contents e w ?w'"
      proof (rule same_contents_step [OF inv])
        show "chunk_step e a k ck ck' w ?w'"
          using at st(1) lk S M chunk_at_cong [of w1 w]
          by (auto simp: chunk_step_def chunk_at_set_chunk [OF at1])
        have "stored_chunk e ?w' ck' = stored_chunk e w1 ck'" by (rule stored_chunk_cong) simp_all
        then show "chunk_content e ?w' ck' = chunk_content e w ck"
          using content S M k0(3) lk by (simp add: chunk_content_stored)
        show "frame_eq w ?w'"
          using M S(4) heap_skel_cong [of w1 w] heap_skel_set_chunk [OF at1 S(1)] by (simp add: frame_eq_def)
      qed
      moreover have "flush_chunk e ck w = Some (True, ck', w1)"
        using findbykey_eq [OF D(1), of ?u] Some ge True sv by (simp add: flush_chunk_def)
      ultimately show ?thesis using st(2) M(6) by auto
    qed
  qed
qed

section \<open>The loop\<close>

lemma flush_loop_ok:
  assumes e: "env_lawful e" "host_reliable e" and inv: "data_inv e w"
    and h: "heap w a = Some (FileObj fn)" and k: "k \<le> length (fn_chunks fn)"
  shows "\<exists>w'. flush_loop e a [k..<length (fn_chunks fn)] w = Some (RC_OK, w') \<and> same_contents e w w' \<and>
    cs_items (local_cache w') =
      filter (\<lambda>c. cc_uuid c \<notin> ck_uuid ` set (drop k (fn_chunks fn))) (cs_items (local_cache w))"
  using inv h k
proof (induction "length (fn_chunks fn) - k" arbitrary: k w fn)
  case 0
  then show ?case by (intro exI [of _ w]) (simp add: same_contents_refl)
next
  case (Suc m)
  have lt: "k < length (fn_chunks fn)" using Suc.hyps(2) by simp
  then have up: "[k..<length (fn_chunks fn)] = k # [Suc k..<length (fn_chunks fn)]" by (rule upt_conv_Cons)
  let ?ck = "fn_chunks fn ! k"
  have at: "chunk_at w a k = Some ?ck" using Suc.prems(2) lt by (simp add: chunk_at_def)
  from flush_chunk_ok [OF e Suc.prems(1) at] obtain ck' w1 where
    fl: "flush_chunk e ?ck w = Some (True, ck', w1)" and sc: "same_contents e w (set_chunk a k ck' w1)"
    and it: "cs_items (local_cache w1) = filter (\<lambda>c. cc_uuid c \<noteq> ck_uuid ?ck) (cs_items (local_cache w))" by blast
  let ?w2 = "set_chunk a k ck' w1"
  from skel_eq_heap [OF frame_eq_skel [OF same_contentsD(2) [OF sc]] Suc.prems(2)] obtain fn2 where
    fn2: "heap ?w2 a = Some (FileObj fn2)" "length (fn_chunks fn2) = length (fn_chunks fn)"
    "map ck_uuid (fn_chunks fn2) = map ck_uuid (fn_chunks fn)" by metis
  have "m = length (fn_chunks fn2) - Suc k" and "Suc k \<le> length (fn_chunks fn2)"
    using Suc.hyps(2) lt fn2(2) by simp_all
  from Suc.hyps(1) [OF this(1) same_contentsD(1) [OF sc] fn2(1) this(2)] fn2(2) obtain w' where
    rest: "flush_loop e a [Suc k..<length (fn_chunks fn)] ?w2 = Some (RC_OK, w')" "same_contents e ?w2 w'"
    "cs_items (local_cache w') = filter (\<lambda>c. cc_uuid c \<notin> ck_uuid ` set (drop (Suc k) (fn_chunks fn2))) (cs_items (local_cache ?w2))"
    by auto
  have "ck_uuid ` set (drop (Suc k) (fn_chunks fn2)) = ck_uuid ` set (drop (Suc k) (fn_chunks fn))"
    using fn2(3) by (metis drop_map list.set_map)
  moreover have "drop k (fn_chunks fn) = ?ck # drop (Suc k) (fn_chunks fn)"
    using lt by (simp add: Cons_nth_drop_Suc)
  ultimately have "cs_items (local_cache w') =
      filter (\<lambda>c. cc_uuid c \<notin> ck_uuid ` set (drop k (fn_chunks fn))) (cs_items (local_cache w))"
    using rest(3) it by (auto intro: filter_cong)
  with lt fl rest(1) Suc.prems(2) same_contents_trans [OF sc rest(2)] show ?case
    unfolding up by (intro exI [of _ w']) simp
qed

section \<open>Flush, then start again\<close>

lemma those_map_Some [simp]: "those (map Some xs) = Some xs"
  by (simp add: those_eq_Some)

text \<open>Writing a file that belongs to no chunk changes no contents.\<close>

lemma same_contents_foreign_file:
  assumes inv: "data_inv e w" and more: "host.more w' = host.more w" and rnd: "rnd w' = rnd w"
    and fl: "\<And>f. f \<noteq> UUID_unparse u \<Longrightarrow> files w' f = files w f"
    and u: "\<And>b k. map_option ck_uuid (chunk_at w b k) \<noteq> Some u"
  shows "same_contents e w w'"
proof -
  note M = more_world [OF more]
  have at: "chunk_at w' = chunk_at w" by (rule chunk_at_cong [OF M(2)])
  have st: "stored_chunk e w' ck = stored_chunk e w ck" if "chunk_at w b k = Some ck" for b k ck
  proof (rule stored_chunk_cong)
    have "ck_uuid ck \<noteq> u" using u [of b k] that by simp
    then show "files w' (UUID_unparse (ck_uuid ck)) = files w (UUID_unparse (ck_uuid ck))"
      by (intro fl) (simp add: UUID_unparse_inject)
  qed (rule M(5))
  have "cached_ok e w' c" if "cached_ok e w c" for c
    using that st by (auto simp: cached_ok_def at)
  then have "data_inv e w'"
    using inv by (simp add: data_inv_def uuids_unique_def at M)
  moreover have "loc_content e w' b k = loc_content e w b k" for b k
    by (cases "chunk_at w b k") (simp_all add: loc_content_def at chunk_content_def M st split: option.split)
  ultimately show ?thesis
    using M rnd heap_skel_cong [OF M(2)] by (simp add: same_contents_def frame_eq_def)
qed

lemma Filenode_dump_refcount: "Filenode_dump (fn\<lparr>in_refcount := r\<rparr>) = Filenode_dump fn"
  by (auto simp: Filenode_dump_def Let_def fun_eq_iff split: option.split)

lemma save_metadata_refcount:
  "save_metadata e Filenode_dump u (fn\<lparr>in_refcount := r\<rparr>) w = save_metadata e Filenode_dump u fn w"
  unfolding save_metadata_def Filenode_dump_refcount ..

text \<open>The file of \<open>fn\<close> is in the store: its metadata, and every chunk.\<close>

definition durable :: "'c env \<Rightarrow> world \<Rightarrow> filenode \<Rightarrow> bytes \<Rightarrow> bool" where
  "durable e w fn bs \<longleftrightarrow> file_wf fn \<and> length bs = unat (fn_size fn) \<and>
     (\<exists>img. stored_meta e w (md_uuid fn) img \<and>
        (\<forall>m0. Filenode_fresh m0 (fn\<lparr>in_refcount := 0\<rparr>) \<longrightarrow>
           Filenode_load m0 img = Some (True, fn\<lparr>in_refcount := 0\<rparr>))) \<and>
     (\<exists>ds. map (\<lambda>ck. if ck_uuid ck = UUID_zero then Some (replicate CHUNKSIZE 0) else stored_chunk e w ck)
         (fn_chunks fn) = map Some ds \<and>
       concat ds = bs @ replicate (length (concat ds) - length bs) 0) \<and>
     (\<forall>i j. i < length (fn_chunks fn) \<longrightarrow> j < length (fn_chunks fn) \<longrightarrow>
        ck_uuid (fn_chunks fn ! i) = ck_uuid (fn_chunks fn ! j) \<longrightarrow> ck_uuid (fn_chunks fn ! i) \<noteq> UUID_zero \<longrightarrow> i = j)"

lemma ecall_fs_flush_ok:
  assumes e: "env_lawful e" "host_reliable e" and ok: "data_ok e w"
    and fn: "find_inode w ino = Some (a, FileObj fn)" and hd: "holds e w a bs"
    and small: "Filenode_bytes fn < 2 ^ 32"
    and u: "\<And>b k. map_option ck_uuid (chunk_at w b k) \<noteq> Some (md_uuid fn)"
  shows "\<exists>w' fn'. ecall_fs_flush e ino w = Some (RC_OK, w') \<and> same_contents e w w' \<and> data_ok e w' \<and>
    find_inode w' ino = Some (a, FileObj fn') \<and> holds e w' a bs \<and> durable e w' fn' bs \<and>
    md_uuid fn' = md_uuid fn \<and> in_ino fn' = in_ino fn"
proof -
  note inv = data_okD [OF ok]
  from find_inode_heap [OF fn] have im: "inode_map w ino = Some a" and h: "heap w a = Some (FileObj fn)" by auto
  from flush_loop_ok [OF e inv h, of 0] obtain w1 where
    loop: "flush_loop e a [0..<length (fn_chunks fn)] w = Some (RC_OK, w1)" and sc1: "same_contents e w w1"
    and it: "cs_items (local_cache w1) = filter (\<lambda>c. cc_uuid c \<notin> ck_uuid ` set (fn_chunks fn)) (cs_items (local_cache w))"
    by auto
  note S1 = same_contentsD [OF sc1]
  from skel_eq_heap [OF frame_eq_skel [OF S1(2)] h] obtain fn1 where
    fn1: "heap w1 a = Some (FileObj fn1)" "fn_size fn1 = fn_size fn"
      "length (fn_chunks fn1) = length (fn_chunks fn)" "map ck_uuid (fn_chunks fn1) = map ck_uuid (fn_chunks fn)"
      "md_uuid fn1 = md_uuid fn" "in_ino fn1 = in_ino fn" by metis
  let ?m = "fn1\<lparr>in_refcount := 0\<rparr>"
  have hd1: "holds e w1 a bs" by (rule same_contents_holds [OF sc1 hd])
  then obtain ds where wf: "file_wf fn1" and lbs: "length bs = unat (fn_size fn1)" and ds: "blocks e w1 a = Some ds"
    and cds: "concat ds = bs @ replicate (length (concat ds) - length bs) 0"
    using fn1(1) by (auto elim!: holdsD)
  have key: "length (volkey w1) = VOLKEYSIZE" using data_invD(3) [OF S1(1)] .
  have "unat (fn_size fn1 + 4095) = unat (fn_size fn1) + 4095"
    using wf by (subst unat_add_small) (simp_all add: file_wf_def CHUNKSIZE_def)
  then have "unat (chunks_for (fn_size fn1)) = (unat (fn_size fn1) + 4095) div 4096"
    by (simp add: chunks_for_def CHUNKSIZE_def unat_div add_diff_eq [symmetric])
  then have "Filenode_storable ?m"
    using small wf fn1(3) by (simp add: Filenode_storable_def Filenode_bytes_def file_wf_def)
  from filenode.save_metadata_ok [OF e key this, of "md_uuid fn1"] obtain img w2 where
    sv: "save_metadata e Filenode_dump (md_uuid fn1) fn1 w1 = (True, w2)"
    and st: "stored_meta e w2 (md_uuid fn1) img" "\<forall>m0. Filenode_fresh m0 ?m \<longrightarrow> Filenode_load m0 img = Some (True, ?m)"
    and more: "host.more w2 = host.more w1" "rnd w2 = rnd w1"
    and fl: "\<forall>f. f \<noteq> UUID_unparse (md_uuid fn1) \<longrightarrow> files w2 f = files w1 f"
    unfolding save_metadata_refcount by blast
  have u1: "map_option ck_uuid (chunk_at w1 b k) \<noteq> Some (md_uuid fn1)" for b k
    using u [of b k] heap_skel_uuid_at [of w1 w b k] frame_eq_skel [OF S1(2)] fn1(5)
    by (metis ext)
  have sc2: "same_contents e w1 w2"
    by (rule same_contents_foreign_file [OF S1(1) more]) (use fl u1 in auto)
  note M = more_world [OF more(1)]
  have uncached: "cs_lookup (ck_uuid ck) (local_cache w2) = None" if "ck \<in> set (fn_chunks fn1)" for ck
  proof -
    have "ck_uuid ck \<in> ck_uuid ` set (fn_chunks fn)" using that fn1(4) by (metis image_eqI list.set_map)
    then show ?thesis unfolding M cs_lookup_def it by (auto simp: find_None_iff_all)
  qed
  have h2: "heap w2 a = Some (FileObj fn1)" using fn1(1) M by simp
  have "blocks e w2 a = Some ds"
    using blocks_cong [OF frame_eq_skel [OF same_contentsD(2) [OF sc2]] same_contentsD(3) [OF sc2] fn1(1)] ds by simp
  then have "map (chunk_content e w2) (fn_chunks fn1) = map Some ds"
    using h2 by (simp add: blocks_def those_eq_Some)
  moreover have "map (chunk_content e w2) (fn_chunks fn1) =
      map (\<lambda>ck. if ck_uuid ck = UUID_zero then Some (replicate CHUNKSIZE 0) else stored_chunk e w2 ck) (fn_chunks fn1)"
    using uncached by (simp add: chunk_content_def)
  ultimately have dss: "map (\<lambda>ck. if ck_uuid ck = UUID_zero then Some (replicate CHUNKSIZE 0) else stored_chunk e w2 ck)
      (fn_chunks fn1) = map Some ds" by simp
  have "i = j" if "i < length (fn_chunks fn1)" "j < length (fn_chunks fn1)"
    "ck_uuid (fn_chunks fn1 ! i) = ck_uuid (fn_chunks fn1 ! j)" "ck_uuid (fn_chunks fn1 ! i) \<noteq> UUID_zero" for i j
  proof -
    have "chunk_at w2 a i = Some (fn_chunks fn1 ! i)" "chunk_at w2 a j = Some (fn_chunks fn1 ! j)"
      using that h2 by (simp_all add: chunk_at_def)
    then show ?thesis
      using data_invD(2) [OF same_contentsD(1) [OF sc2]] that(3,4) unfolding uuids_unique_def by metis
  qed
  with wf lbs st dss cds have du: "durable e w2 fn1 bs" unfolding durable_def by blast
  have sc: "same_contents e w w2" by (rule same_contents_trans [OF sc1 sc2])
  have "length (cs_items (local_cache w2)) \<le> MAX_CACHE_NUM"
    using ok unfolding M it data_ok_def by (meson le_trans length_filter_le)
  then have "data_ok e w2" using same_contentsD(1) [OF sc2] by (simp add: data_ok_def)
  moreover have "find_inode w2 ino = Some (a, FileObj fn1)"
    using im h2 same_contentsD(2) [OF sc] by (simp add: find_inode_def frame_eq_def)
  moreover have "ecall_fs_flush e ino w = Some (RC_OK, w2)"
    using fn loop fn1(1) sv by (simp add: ecall_fs_flush_def)
  ultimately show ?thesis
    using sc du same_contents_holds [OF sc hd] fn1(5,6) by blast
qed

text \<open>A later enclave, with an empty cache and no file open, finds the same contents by a lookup.\<close>

lemma durable_lookup:
  assumes e: "env_lawful e" "host_reliable e" and du: "durable e w fn bs"
    and w2: "files w2 = files w" "volkey w2 = volkey w" "cs_inv (local_cache w2)" "cs_items (local_cache w2) = []"
      "\<And>b k. chunk_at w2 b k = None"
    and new: "find_inode w2 (de_ino dent) = None" "inode_map w2 (de_ino dent) = None"
    and dent: "de_type dent = T_DT_REG" "de_uuid dent = md_uuid fn"
  shows "\<exists>w3. lookup_fetch e dent w2 = Some (Inr (next_addr w2, FileObj (fn\<lparr>in_refcount := 0\<rparr>)), w3) \<and>
    find_inode w3 (de_ino dent) = Some (next_addr w2, FileObj (fn\<lparr>in_refcount := 0\<rparr>)) \<and>
    data_ok e w3 \<and> holds e w3 (next_addr w2) bs"
proof -
  let ?m = "fn\<lparr>in_refcount := 0\<rparr>" and ?b = "next_addr w2"
  from du obtain img ds where wf: "file_wf fn" and lbs: "length bs = unat (fn_size fn)"
    and img: "stored_meta e w (md_uuid fn) img" "\<And>m0. Filenode_fresh m0 ?m \<Longrightarrow> Filenode_load m0 img = Some (True, ?m)"
    and ds: "map (\<lambda>ck. if ck_uuid ck = UUID_zero then Some (replicate CHUNKSIZE 0) else stored_chunk e w ck)
        (fn_chunks fn) = map Some ds" "concat ds = bs @ replicate (length (concat ds) - length bs) 0"
    and uq: "\<And>i j. i < length (fn_chunks fn) \<Longrightarrow> j < length (fn_chunks fn) \<Longrightarrow>
        ck_uuid (fn_chunks fn ! i) = ck_uuid (fn_chunks fn ! j) \<Longrightarrow> ck_uuid (fn_chunks fn ! i) \<noteq> UUID_zero \<Longrightarrow> i = j"
    unfolding durable_def by blast
  let ?obj = "Filenode_ctor (md_uuid fn) (junk64 e w2) (junk64 e w2)"
  have "Filenode_fresh ?obj ?m"
    by (simp add: Filenode_fresh_def Filenode_ctor_def Inode_ctor_def Metadata_ctor_def metadata.defs inode.defs)
  from img(2) [OF this] have load: "Filenode_load ?obj img = Some (True, ?m)" .
  have "stored_meta e w2 (md_uuid fn) img" using img(1) w2(1,2) by (simp add: stored_meta_def)
  from load_metadata_stored [OF e this, where vload = Filenode_load and m = ?obj] load obtain w3 where
    ld: "load_metadata e Filenode_load (md_uuid fn) ?obj w2 = Some (True, ?m, w3)"
    and w3: "host.more w3 = host.more w2" "files w3 = files w2" by auto
  note M = more_world [OF w3(1)]
  define w4 where "w4 = bind_inode (de_ino dent) (FileObj ?m) w3"
  have im: "inode_map w3 (de_ino dent) = None" using new(2) M by simp
  then have w4: "heap w4 = (heap w2)(?b \<mapsto> FileObj ?m)" "inode_map w4 = (inode_map w2)(de_ino dent \<mapsto> ?b)"
    "files w4 = files w" "volkey w4 = volkey w" "local_cache w4 = local_cache w2"
    using M w2 w3(2) by (simp_all add: w4_def bind_inode_def)
  have at: "chunk_at w4 b k = (if b = ?b then nth_opt (fn_chunks fn) k else None)" for b k
    using w2(5) [of b k] by (simp add: chunk_at_def w4(1) nth_opt_def)
  have st: "stored_chunk e w4 ck = stored_chunk e w ck" for ck
    by (rule stored_chunk_cong) (simp_all add: w4)
  have "cs_lookup u (local_cache w4) = None" for u by (simp add: w4 cs_lookup_def w2(4))
  then have content: "chunk_content e w4 =
      (\<lambda>ck. if ck_uuid ck = UUID_zero then Some (replicate CHUNKSIZE 0) else stored_chunk e w ck)"
    by (simp add: chunk_content_def st fun_eq_iff)
  have "uuids_unique w4"
    unfolding uuids_unique_def at using uq by (auto simp: nth_opt_def split: if_splits)
  moreover have "length (volkey w4) = VOLKEYSIZE" using img(1) by (simp add: stored_meta_def w4)
  ultimately have "data_ok e w4" using w2(3,4) by (simp add: data_ok_def data_inv_def w4)
  moreover have "holds e w4 ?b bs"
    using wf lbs ds by (simp add: holds_def w4(1) blocks_def content file_wf_def)
  moreover have "find_inode w4 (de_ino dent) = Some (?b, FileObj ?m)"
    by (simp add: find_inode_def w4)
  moreover have "lookup_fetch e dent w2 = Some (Inr (?b, FileObj ?m), w4)"
    using new(1) dent ld M(3) by (simp add: lookup_fetch_def w4_def T_DT_DIR_def T_DT_REG_def)
  ultimately show ?thesis by blast
qed

end
