(* ===== verification/Sample_Env.thy ===== *)
theory Sample_Env
  imports Host
begin

text \<open>
  A concrete environment: an executable cipher that satisfies the laws of theory \<open>Crypto\<close> and a host
  that performs every request.  Closed examples evaluate the model in it, and it shows that the laws
  assumed of the parameters hold together.  The cipher leaves the text as it is; its tag is the
  exclusive or of the additional data and the first sixteen bytes of the text.
\<close>

definition sample_tag :: "bytes \<Rightarrow> bytes \<Rightarrow> bytes" where
  "sample_tag aad p = map2 xor aad (take 16 (p @ replicate 16 0))"

definition sample_cipher :: "(bytes \<times> bytes) mbedtls" where
  "sample_cipher = \<lparr>mb_cipher_info = True, mb_setup = (0, ([], [])),
     mb_setkey = (\<lambda>c key n op. (0, c)), mb_set_iv = (\<lambda>c iv. (0, c)), mb_reset = (\<lambda>c. (0, c)),
     mb_update_ad = (\<lambda>c aad. (0, (aad, snd c))), mb_update = (\<lambda>c src. (0, src, (fst c, snd c @ src))),
     mb_finish = (\<lambda>c. (0, [], c)), mb_write_tag = (\<lambda>c n. (0, sample_tag (fst c) (snd c), c)),
     mb_check_tag = (\<lambda>c t. if t = sample_tag (fst c) (snd c) then 0 else - 1)\<rparr>"

definition sample_env :: "(bytes \<times> bytes) env" where
  "sample_env = \<lparr>mbed = sample_cipher, read_rand = (\<lambda>t n. take n (of_nat (Suc t) # replicate n 0)),
     new_bytes = (\<lambda>t n. replicate n 0), memcpy_verw_s = (\<lambda>dst dmax src n. take n src @ drop n dst),
     sgx_ok = (\<lambda>_. True), fs_open_w = (\<lambda>_. True), fs_written = (\<lambda>_ n. n), fs_open_r = (\<lambda>_. True),
     fs_stat = (\<lambda>_. True), fs_remove = (\<lambda>_. True)\<rparr>"

lemma sample_run: "gcm_run sample_cipher op key iv aad src = Some (src, (aad, src))"
  by (simp add: gcm_run_def cipher_start_def sample_cipher_def)

lemma sample_cipher_lawful: "gcm_lawful sample_cipher"
  by (simp add: gcm_lawful_def sample_run gcm_ct_def gcm_pt_def gcm_tag_def gcm_params_def)
    (simp add: sample_cipher_def sample_tag_def)

lemma sample_env_lawful: "env_lawful sample_env"
  by (simp add: env_lawful_def sample_env_def sample_cipher_lawful)

lemma sample_env_reliable: "host_reliable sample_env"
  by (simp add: host_reliable_def sample_env_def)

lemma mbed_sample_env [simp]: "mbed sample_env = sample_cipher"
  by (simp add: sample_env_def)

end
