(* ===== verification/Sample_World.thy ===== *)
theory Sample_World
  imports File_Flush Sample_Env
begin

text \<open>
  A small volume for closed examples: the root directory, with inode number 1, and a file of three
  bytes, with inode number 5, whose only chunk was never written.  The store is empty.
\<close>

definition ChunkStore_empty :: ChunkStore where
  "ChunkStore_empty = \<lparr>kl_nodes = [], kl_map = Map.empty, kl_next = 0\<rparr>"

definition sample_root :: dirnode where
  "sample_root = \<lparr>md_uuid = 100, in_ino = 1, in_refcount = 1, dn_name = '''',
     dn_dirent = [\<lparr>de_ino = 5, de_name = ''a.txt'', de_type = T_DT_REG, de_uuid = 101\<rparr>]\<rparr>"

definition sample_file :: filenode where
  "sample_file = \<lparr>md_uuid = 101, in_ino = 5, in_refcount = 1, fn_size = 3, fn_chunks = [Chunk_zero]\<rparr>"

definition sample_super :: Superinfo where
  "sample_super = \<lparr>md_uuid = 102, si_root_dirnode = 100, si_user_table = 103, si_hash_root_dirnode = 0,
     si_hash_user_table = 0, si_max_ino = 6\<rparr>"

definition sample_world :: world where
  "sample_world = \<lparr>files = Map.empty, clock = 0, rnd = 0, inode_map = [1 \<mapsto> 0, 5 \<mapsto> 1],
     heap = [0 \<mapsto> DirObj sample_root, 1 \<mapsto> FileObj sample_file], next_addr = 2,
     superinfo = Some sample_super, volkey = replicate VOLKEYSIZE 0, local_cache = ChunkStore_empty\<rparr>"

lemma ChunkStore_empty_inv [simp]: "cs_inv ChunkStore_empty" "cs_items ChunkStore_empty = []"
  by (simp_all add: kl_inv_def ChunkStore_empty_def cs_items_def kl_values_def)

lemma sample_chunk_at: "chunk_at sample_world b k = (if b = 1 \<and> k = 0 then Some Chunk_zero else None)"
  by (simp add: chunk_at_def sample_world_def sample_file_def sample_root_def)

lemma sample_find: "find_inode sample_world 5 = Some (1, FileObj sample_file)"
  "find_inode sample_world 1 = Some (0, DirObj sample_root)"
  by (simp_all add: find_inode_def sample_world_def)

lemma sample_data_ok: "data_ok sample_env sample_world"
proof -
  have "uuids_unique sample_world"
    by (simp add: uuids_unique_def sample_chunk_at Chunk_zero_def split: if_splits)
  then show ?thesis by (simp add: data_ok_def data_inv_def) (simp add: sample_world_def)
qed

lemma sample_holds: "holds sample_env sample_world 1 (replicate 3 0)"
proof -
  have "blocks sample_env sample_world 1 = Some [replicate CHUNKSIZE 0]"
    by (simp add: blocks_def sample_world_def sample_file_def chunk_content_def Chunk_zero_def)
  moreover have "heap sample_world 1 = Some (FileObj sample_file)" by (simp add: sample_world_def)
  moreover have "file_wf sample_file" by (simp add: file_wf_def sample_file_def CHUNKSIZE_def)
  moreover have "replicate CHUNKSIZE (0 :: byte) = replicate 3 0 @ replicate (CHUNKSIZE - 3) 0"
    by (simp add: CHUNKSIZE_def flip: replicate_add)
  ultimately show ?thesis by (simp add: holds_def sample_file_def)
qed

lemma sample_fresh: "fresh_uuids sample_env sample_world 1"
proof -
  have "rand_uuid sample_env 0 = 1" by code_simp
  then show ?thesis
    by (simp add: fresh_uuids_def sample_chunk_at Chunk_zero_def UUID_zero_def) (simp add: sample_world_def)
qed

text \<open>The same volume with the file's chunk in the cache, not yet in the store: the bytes are \<open>abc\<close>.\<close>

definition sample_chunk :: Chunk where
  "sample_chunk = \<lparr>ck_uuid = 200, ck_iv = 0, ck_tag = 0\<rparr>"

definition sample_cache :: ChunkCache where
  "sample_cache = \<lparr>cc_uuid = 200, cc_data = [97, 98, 99] @ replicate (CHUNKSIZE - 3) 0, cc_modified = True,
     cc_filenode = 1, cc_idx = 0\<rparr>"

definition sample_cached_file :: filenode where
  "sample_cached_file = sample_file\<lparr>fn_chunks := [sample_chunk]\<rparr>"

definition sample_cached_world :: world where
  "sample_cached_world = sample_world\<lparr>
     heap := [0 \<mapsto> DirObj sample_root, 1 \<mapsto> FileObj sample_cached_file],
     local_cache := \<lparr>kl_nodes = [(0, sample_cache)], kl_map = [200 \<mapsto> 0], kl_next = 1\<rparr>\<rparr>"

lemma sample_cached_chunk_at:
  "chunk_at sample_cached_world b k = (if b = 1 \<and> k = 0 then Some sample_chunk else None)"
  by (simp add: chunk_at_def sample_cached_world_def sample_cached_file_def sample_file_def sample_root_def)

lemma sample_cached_find: "find_inode sample_cached_world 5 = Some (1, FileObj sample_cached_file)"
  by (simp add: find_inode_def sample_cached_world_def) (simp add: sample_world_def)

lemma sample_cached_items: "cs_items (local_cache sample_cached_world) = [sample_cache]"
  by (simp add: sample_cached_world_def cs_items_def kl_values_def)

lemma sample_cached_data_ok: "data_ok sample_env sample_cached_world"
proof -
  have "cs_inv (local_cache sample_cached_world)"
    by (simp add: kl_inv_def sample_cached_world_def sample_cache_def)
  moreover have "uuids_unique sample_cached_world"
    by (simp add: uuids_unique_def sample_cached_chunk_at split: if_splits)
  moreover have "cached_ok sample_env sample_cached_world sample_cache"
    by (simp add: cached_ok_def sample_cached_chunk_at) (simp add: sample_cache_def sample_chunk_def UUID_zero_def CHUNKSIZE_def)
  moreover have "length (volkey sample_cached_world) = VOLKEYSIZE"
    by (simp add: sample_cached_world_def sample_world_def)
  ultimately show ?thesis
    by (simp add: data_ok_def data_inv_def sample_cached_items MAX_CACHE_NUM_def)
qed

lemma sample_cached_holds: "holds sample_env sample_cached_world 1 [97, 98, 99]"
proof -
  have h: "heap sample_cached_world 1 = Some (FileObj sample_cached_file)"
    by (simp add: sample_cached_world_def)
  have "cs_lookup 200 (local_cache sample_cached_world) = Some sample_cache"
    by (simp add: cs_lookup_def sample_cached_items) (simp add: sample_cache_def)
  then have "blocks sample_env sample_cached_world 1 = Some [cc_data sample_cache]"
    unfolding blocks_def h by (simp add: sample_cached_file_def chunk_content_def sample_chunk_def UUID_zero_def)
  from holdsI [OF h _ _ this] show ?thesis
    by (simp add: sample_cached_file_def sample_file_def file_wf_def CHUNKSIZE_def sample_cache_def)
qed

end
