(* ===== verification/Write_Shortcut.thy ===== *)
theory Write_Shortcut
  imports Sample_World
begin

text \<open>
  A chunk that a write covers completely is not loaded first.  For the last chunk of a file
  \<open>ecall_fs_write\<close> compares the end of the request with \<open>last_surplus\<close>, which is the position of the
  last byte and not one past it.  A request that ends just before the last byte is therefore taken for
  one that covers the chunk, and the last byte becomes zero.
\<close>

lemma write_shortcut:
  assumes e: "env_lawful e" "host_reliable e" and ok: "data_ok e w"
    and fn: "find_inode w ino = Some (a, FileObj fn)" and hd: "holds e w a bs"
    and ck: "fn_chunks fn = [ck]" "ck_uuid ck \<noteq> UUID_zero"
    and n: "1 < length bs" "length bs \<le> CHUNKSIZE" and sz: "unat sz + 1 = length bs"
    and buf: "unat sz \<le> length buf"
  shows "\<exists>w'. ecall_fs_write e ino buf 0 sz w = Some (RC_OK, sz, w') \<and> holds e w' a (take (unat sz) buf @ [0])"
proof -
  from find_inode_heap [OF fn] have h: "heap w a = Some (FileObj fn)" by simp
  from hd h obtain ds where wf: "file_wf fn" and lbs: "length bs = unat (fn_size fn)"
    and ds: "blocks e w a = Some ds" by (auto elim!: holdsD)
  note inv = data_okD [OF ok]
  have "length ds = 1" using ds blocks_iff [OF h, of e ds] ck(1) by simp
  then obtain d where d: "ds = [d]" by (cases ds) auto
  have req: "request_ok 0 sz" using n sz by (simp add: request_ok_def CHUNKSIZE_def)
  have st: "first_chunk 0 = 0" by (simp add: first_chunk_def)
  have en: "unat (end_chunk 0 sz) = 1"
    unfolding unat_end_chunk [OF req] using n sz by (simp add: CHUNKSIZE_def)
  then have en1: "end_chunk 0 sz = 1" by (metis unat_1 unsigned_word_eqI)
  note S = segment [OF req, of 0, unfolded st en1, simplified]
  have pos: "seg_pos 0 (unat sz) 0 = 0" "seg_pos 0 (unat sz) (Suc 0) = unat sz"
    using n sz by (simp_all add: seg_pos_def)
  have seg: "seg_start 0 0 0 = 0" "seg_end 0 sz 1 0 = int (unat sz)" "unat (word_of_int (int (unat sz)) :: size_t) = unat sz"
    using S pos by simp_all
  have sur: "uint ((fn_size fn + of_nat CHUNKSIZE - 1) mod of_nat CHUNKSIZE) = int (unat sz)"
  proof -
    have small: "unat (fn_size fn) + CHUNKSIZE < 2 ^ 63" using wf by (simp add: file_wf_def)
    have "(unat (fn_size fn) + 4095) mod 4096 = unat sz"
    proof -
      have "unat (fn_size fn) + 4095 = unat sz + 4096" using sz lbs by simp
      moreover have "unat sz < 4096" using n sz by (simp add: CHUNKSIZE_def)
      ultimately show ?thesis by (simp only: mod_add_self2 mod_less)
    qed
    then show ?thesis by (simp only: fn_surplus [OF small])
  qed
  let ?c = "ChunkCache_ctor CHUNKSIZE a 0"
  let ?d = "wr 0 (take (unat sz) buf) (replicate CHUNKSIZE 0)"
  have lt: "length (take (unat sz) buf) = unat sz" using buf by simp
  have copy: "mem_copy_s e (replicate CHUNKSIZE 0) 0 CHUNKSIZE buf 0 (unat sz) = Some ?d"
    using n sz buf by (subst mem_copy_s_eq [OF e(1)]) (simp_all add: rd_def)
  have at: "chunk_at w a 0 = Some ck" using h ck(1) by (simp add: chunk_at_def)
  have "length ?d = CHUNKSIZE" using lt n sz by (simp add: length_wr)
  with save_chunk_ok [OF e inv, of "?c\<lparr>cc_data := ?d, cc_modified := True\<rparr>" ck] at ck(2) obtain w1 where
    sv: "save_chunk e (?c\<lparr>cc_data := ?d, cc_modified := True\<rparr>) w = Some (True, w1)"
    and up: "content_upd e a 0 (ck_uuid ck, Some ?d) w w1"
    and b: "length (cs_items (local_cache w1)) \<le> MAX_CACHE_NUM"
    by (auto simp: ChunkCache_ctor_def)
  from file_step_close [OF ds chunk_open_refl [OF inv] up b] d have fs: "file_step e a [?d] w w1" by simp
  then obtain fn1 where fn1: "heap w1 a = Some (FileObj fn1)" "fn1\<lparr>fn_chunks := []\<rparr> = fn\<lparr>fn_chunks := []\<rparr>"
    "length (fn_chunks fn1) = 1"
    using h ck(1) by (auto simp: file_step_def file_hdr_def split: option.splits inode_obj.splits)
  have fs1: "fn_size fn1 = fn_size fn" using arg_cong [OF fn1(2), of fn_size] by simp
  have mx: "max (fn_size fn1) (0 + sz) = fn_size fn1"
    using sz lbs fs1 by (simp add: max_def word_le_nat_alt)
  let ?w2 = "upd_obj a (FileObj (fn1\<lparr>fn_chunks := fn_chunks fn1 @ replicate 0 Chunk_zero, fn_size := fn_size fn1\<rparr>)) w1"
  from fs have ok1: "data_inv e w1" and bl1: "blocks e w1 a = Some [?d]"
    by (simp_all add: file_step_def data_ok_def)
  note R = resize_ok [OF ok1 fn1(1) bl1 refl, where n = 0 and s = "fn_size fn1", simplified]
  have "write_loop e a buf 0 sz 0 1 1 (int (unat sz)) [0] 0 w = Some (RC_OK, sz, w1)"
    using h ck seg copy sv by (simp add: Let_def ChunkCache_ctor_def)
  then have loop: "write_loop e a buf 0 sz 0 1 (length (fn_chunks fn))
      (uint ((fn_size fn + of_nat CHUNKSIZE - 1) mod of_nat CHUNKSIZE)) [unat (0 :: size_t)..<unat (1 :: size_t)] 0 w =
      Some (RC_OK, sz, w1)"
    unfolding sur by (simp add: ck(1) upt_rec del: write_loop.simps)
  have "\<not> of_nat (length (fn_chunks fn)) < (1 :: size_t)" by (simp add: ck(1))
  with fn loop fn1(1) mx have "ecall_fs_write e ino buf 0 sz w = Some (RC_OK, sz, ?w2)"
    by (simp add: ecall_fs_write_def Let_def st en1 del: write_loop.simps)
  moreover have "holds e ?w2 a (take (unat sz) buf @ [0])"
  proof -
    have "?d = (take (unat sz) buf @ [0]) @ replicate (CHUNKSIZE - length bs) 0"
    proof -
      have "replicate (CHUNKSIZE - unat sz) (0 :: byte) = 0 # replicate (CHUNKSIZE - length bs) 0"
      proof -
        have "CHUNKSIZE - unat sz = Suc (CHUNKSIZE - length bs)" using n sz by simp
        then show ?thesis by simp
      qed
      moreover have "?d = take (unat sz) buf @ replicate (CHUNKSIZE - unat sz) 0"
        unfolding wr_def lt by (simp only: take_0 append_Nil add_0 drop_replicate)
      ultimately show ?thesis by (simp only: append_assoc append_Cons append_Nil)
    qed
    moreover have lX: "length (take (unat sz) buf @ [0]) = unat (fn_size fn1)"
      using lt sz lbs fs1 by simp
    moreover have "CHUNKSIZE - length bs = length ?d - length (take (unat sz) buf @ [0])"
      using \<open>length ?d = CHUNKSIZE\<close> lX lbs fs1 by simp
    ultimately have D: "?d = (take (unat sz) buf @ [0]) @
        replicate (length ?d - length (take (unat sz) buf @ [0])) 0"
      by (simp only:)
    show ?thesis
    proof (rule holdsI)
      have "length (fn_chunks fn1) = length (fn_chunks fn)" using fn1(3) ck(1) by simp
      then show "file_wf fn1" using wf by (simp only: file_wf_def fs1)
      show "heap ?w2 a = Some (FileObj fn1)" by (simp add: upd_obj_def)
      show "blocks e ?w2 a = Some [?d]" using R(2) by simp
      show "concat [?d] = (take (unat sz) buf @ [0]) @
          replicate (length (concat [?d]) - length (take (unat sz) buf @ [0])) 0"
        unfolding concat.simps append_Nil2 by (rule D)
    qed (rule lX)
  qed
  ultimately show ?thesis by blast
qed

end
