(* ===== verification/App_Cache.thy ===== *)
theory App_Cache
  imports Keyed_List
begin

text \<open>
  The chunk cache of the untrusted application (\<^verbatim>\<open>app/cache.cpp\<close>), which the build does
  not link at present.  It keys its chunks by inode number and chunk index, and otherwise promises
  its clients what the cache of the enclave promises: the same contract is interpreted for it.
\<close>

record AppChunkCache =
  ac_data :: bytes
  ac_modified :: bool
  ac_ino :: ino_t
  ac_idx :: size_t

type_synonym AppChunkStore = "(ino_t \<times> size_t, AppChunkCache) keyed_list"

definition AppChunkCache_ctor :: "nat \<Rightarrow> ino_t \<Rightarrow> size_t \<Rightarrow> AppChunkCache" where
  "AppChunkCache_ctor sz ino idx =
     \<lparr>ac_data = replicate sz 0, ac_modified = False, ac_ino = ino, ac_idx = idx\<rparr>"

definition ac_key :: "AppChunkCache \<Rightarrow> ino_t \<times> size_t" where
  "ac_key c = (ac_ino c, ac_idx c)"

definition AppChunkStore_push_back :: "AppChunkCache \<Rightarrow> AppChunkStore \<Rightarrow> AppChunkStore option" where
  "AppChunkStore_push_back cache st = do {
     st \<leftarrow> kl_unlink (ac_key cache) st;
     (it, st) \<leftarrow> kl_insert None (ac_key cache) cache st;
     Some st
   }"

text \<open>\<open>get_pop_front\<close> returns false on an empty store, here \<^term>\<open>None\<close> as the chunk.\<close>

definition AppChunkStore_get_pop_front :: "AppChunkStore \<Rightarrow> (AppChunkCache option \<times> AppChunkStore) option" where
  "AppChunkStore_get_pop_front st =
     (case kl_nodes st of
        [] \<Rightarrow> Some (None, st)
      | n # ns \<Rightarrow>
          if kl_map st (ac_key (snd n)) \<noteq> Some (fst n) then None
          else Some (Some (snd n), kl_erase_key (ac_key (snd n)) (st\<lparr>kl_nodes := ns\<rparr>)))"

definition AppChunkStore_get_erase_by_key ::
    "ino_t \<Rightarrow> size_t \<Rightarrow> AppChunkStore \<Rightarrow> (AppChunkCache option \<times> AppChunkStore) option" where
  "AppChunkStore_get_erase_by_key ino idx st =
     (case kl_map st (ino, idx) of
        None \<Rightarrow> Some (None, st)
      | Some i \<Rightarrow> do {
          cache \<leftarrow> kl_deref i st;
          st \<leftarrow> kl_erase_node i st;
          Some (Some cache, kl_erase_key (ino, idx) st)
        })"

definition as_pop :: "AppChunkStore \<Rightarrow> (AppChunkCache \<times> AppChunkStore) option" where
  "as_pop st = do {
     (c, st) \<leftarrow> AppChunkStore_get_pop_front st;
     c \<leftarrow> c;
     Some (c, st)
   }"

definition as_take :: "ino_t \<times> size_t \<Rightarrow> AppChunkStore \<Rightarrow> (AppChunkCache option \<times> AppChunkStore) option" where
  "as_take k = AppChunkStore_get_erase_by_key (fst k) (snd k)"

abbreviation as_inv :: "AppChunkStore \<Rightarrow> bool" where
  "as_inv \<equiv> kl_inv ac_key"

lemma app_take_eq:
  assumes "as_inv st"
  shows "as_take k st = Some (find (\<lambda>c. ac_key c = k) (kl_values st),
    kl_erase_key k (st\<lparr>kl_nodes := filter (\<lambda>n. ac_key (snd n) \<noteq> k) (kl_nodes st)\<rparr>))"
proof (cases "kl_map st k")
  case None
  then show ?thesis
    using filter_node_absent [OF assms None] kl_find [OF assms, of k]
    by (simp add: as_take_def AppChunkStore_get_erase_by_key_def kl_erase_key_def fun_upd_idem)
next
  case (Some i)
  then show ?thesis
    using filter_node_key [OF assms Some] kl_inv_deref [OF assms Some] kl_find [OF assms, of k]
    by (auto simp: as_take_def AppChunkStore_get_erase_by_key_def kl_erase_node_def)
qed

lemma app_pop_eq:
  assumes "as_inv st" and "kl_values st = c # cs"
  shows "\<exists>st'. as_pop st = Some (c, st') \<and> as_inv st' \<and> kl_values st' = cs"
proof -
  from assms(2) obtain i ns where nodes: "kl_nodes st = (i, c) # ns" and cs: "cs = map snd ns"
    by (auto simp: kl_values_def)
  have key: "kl_map st (ac_key c) = Some i"
    using assms(1) nodes by (auto simp: kl_inv_def)
  have "filter (\<lambda>n. ac_key (snd n) \<noteq> ac_key c) (kl_nodes st) = filter (\<lambda>n. fst n \<noteq> i) (kl_nodes st)"
    by (rule filter_node_key [OF assms(1) key, symmetric])
  also have "\<dots> = ns"
    using assms(1) nodes by (auto simp: kl_inv_def filter_id_conv)
  finally have "as_inv (kl_erase_key (ac_key c) (st\<lparr>kl_nodes := ns\<rparr>))"
    using kl_inv_remove [OF assms(1), of "ac_key c"] by simp
  then show ?thesis
    using nodes key cs
    by (simp add: as_pop_def AppChunkStore_get_pop_front_def kl_values_def kl_erase_key_def)
qed

interpretation app_cs: chunk_queue AppChunkStore_push_back as_pop as_take ac_key kl_values as_inv
proof
  fix st :: AppChunkStore and c :: AppChunkCache
  assume inv: "as_inv st"
  show "\<exists>st'. AppChunkStore_push_back c st = Some st' \<and> as_inv st' \<and>
      kl_values st' = filter (\<lambda>x. ac_key x \<noteq> ac_key c) (kl_values st) @ [c]"
    using kl_inv_append [OF inv, of c]
    by (simp add: AppChunkStore_push_back_def kl_unlink_eq [OF inv] kl_insert_def node_insert_end
        kl_values_def values_filter [where P = "\<lambda>v. ac_key v \<noteq> ac_key c"])
next
  fix st :: AppChunkStore and k
  assume inv: "as_inv st"
  show "\<exists>st'. as_take k st = Some (find (\<lambda>x. ac_key x = k) (kl_values st), st') \<and>
      as_inv st' \<and> kl_values st' = filter (\<lambda>x. ac_key x \<noteq> k) (kl_values st)"
    using kl_inv_remove [OF inv, of k]
    by (simp add: app_take_eq [OF inv] kl_values_def kl_erase_key_def
        values_filter [where P = "\<lambda>v. ac_key v \<noteq> k"])
qed (rule app_pop_eq kl_inv_distinct_keys; assumption)+

end
