(* ===== verification/Data_Claims.thy ===== *)
theory Data_Claims
  imports File_Flush Sample_World
begin

text \<open>
  More properties of file data: reading in pieces is reading at once, \<open>fallocate\<close> extends a file with
  zeros, and a chunk that is loaded is authentic whoever the host is.
\<close>

section \<open>Extending a file\<close>

text \<open>Zeros after the end of a file become part of it when its size grows; the number of chunks follows.\<close>

lemma grow_holds:
  assumes ok: "data_ok e w" and h: "heap w a = Some (FileObj fn)" and hd: "holds e w a bs"
    and p: "prev = length (fn_chunks fn)" and n: "prev + n = (max (length bs) q + 4095) div 4096"
    and s: "unat s = max (length bs) q" and small: "unat s + CHUNKSIZE < 2 ^ 63" and e: "env_lawful e"
    and w': "w' = upd_obj a (FileObj (fn\<lparr>fn_chunks := fn_chunks fn @ replicate n Chunk_zero, fn_size := s\<rparr>)) w"
  shows "data_ok e w'" and "holds e w' a (bs @ replicate (q - length bs) 0)"
    and "\<And>b bs'. b \<noteq> a \<Longrightarrow> holds e w b bs' \<Longrightarrow> holds e w' b bs'"
proof -
  from hd h obtain ds where wf: "file_wf fn" and lbs: "length bs = unat (fn_size fn)"
    and ds: "blocks e w a = Some ds" and cds: "concat ds = bs @ replicate (length (concat ds) - length bs) 0"
    by (auto elim!: holdsD)
  note R = resize_ok [OF data_okD [OF ok] h ds w']
  show ok': "data_ok e w'" using R(1) ok by (simp add: data_ok_def w' upd_obj_def)
  show "holds e w' b bs'" if "b \<noteq> a" "holds e w b bs'" for b bs'
    using that R(3) [OF that(1)] by (intro holds_cong [OF _ _ that(2)]) (simp_all add: heap_skel_def w' upd_obj_def)
  let ?ds = "ds @ replicate n (replicate CHUNKSIZE (0 :: byte))" and ?new = "bs @ replicate (q - length bs) 0"
  have "concat (replicate n (replicate CHUNKSIZE (0 :: byte))) = replicate (n * CHUNKSIZE) 0"
    by (induction n) (simp_all add: replicate_add)
  then have cd: "concat ?ds = bs @ replicate (length (concat ?ds) - length bs) 0"
    using cds by (simp, metis (no_types) add_diff_assoc2 append.assoc length_append le_add1 replicate_add)
  have lds: "length ?ds = prev + n" using ds blocks_iff [OF h, of e ds] p by simp
  have "length (concat ?ds) = 4096 * length ?ds"
    using length_concat_blocks [OF blocks_length [OF e data_okD [OF ok] ds]] by (simp add: CHUNKSIZE_def length_concat sum_list_replicate)
  then have lc: "length (concat ?ds) = 4096 * ((max (length bs) q + 4095) div 4096)" unfolding lds n .
  obtain r where "4096 * ((max (length bs) q + 4095) div 4096) = max (length bs) q + r" by (rule ceil_chunks)
  with lc have room: "max (length bs) q \<le> length (concat ?ds)" by simp
  have "concat ?ds = ?new @ replicate (length (concat ?ds) - length ?new) 0"
    using cd room by (simp add: max_def split: if_splits flip: replicate_add)
  note cd' = this
  let ?fn = "fn\<lparr>fn_chunks := fn_chunks fn @ replicate n Chunk_zero, fn_size := s\<rparr>"
  have hw: "heap w' a = Some (FileObj ?fn)" by (simp add: w' upd_obj_def)
  have "file_wf ?fn" using small n p by (simp add: file_wf_def s)
  moreover have "length ?new = unat (fn_size ?fn)" using s by (simp add: max_def)
  ultimately show "holds e w' a ?new" by (rule holdsI [OF hw _ _ R(2) cd'])
qed

lemma ecall_fs_fallocate_ok:
  assumes e: "env_lawful e" and ok: "data_ok e w" and fn: "find_inode w ino = Some (a, FileObj fn)"
    and hd: "holds e w a bs" and req: "request_ok offset len"
  shows "\<exists>w'. ecall_fs_fallocate ino mode offset len w = (RC_OK, w') \<and> data_ok e w' \<and>
    holds e w' a (bs @ replicate (unat offset + unat len - length bs) 0) \<and>
    (\<forall>b bs'. b \<noteq> a \<longrightarrow> holds e w b bs' \<longrightarrow> holds e w' b bs')"
proof -
  let ?q = "unat offset + unat len"
  from find_inode_heap [OF fn] have h: "heap w a = Some (FileObj fn)" by auto
  from hd h have wf: "file_wf fn" and lbs: "length bs = unat (fn_size fn)" by (auto elim!: holdsD)
  define prev en where "prev = length (fn_chunks fn)" and "en = unat (end_chunk offset len)"
  have en: "en = (?q + 4095) div 4096" by (simp add: en_def unat_end_chunk [OF req])
  have prev: "prev = (length bs + 4095) div 4096" using wf lbs by (simp add: prev_def file_wf_def)
  have small: "length bs + CHUNKSIZE < 2 ^ 63" using wf lbs by (simp add: file_wf_def)
  then have "unat (of_nat prev :: size_t) = prev"
    by (simp add: prev unat_of_nat take_bit_eq_mod CHUNKSIZE_def)
  then have grow: "of_nat prev < end_chunk offset len \<longleftrightarrow> prev < en" by (simp add: word_less_nat_alt en_def)
  let ?s = "max (fn_size fn) (offset + len)"
  have q: "unat (offset + len) = ?q" using req by (intro unat_add_small) (simp add: request_ok_def)
  then have us: "unat ?s = max (length bs) ?q" using lbs by (simp add: max_def word_le_nat_alt)
  define n where "n = en - prev"
  define w' where "w' = upd_obj a (FileObj (fn\<lparr>fn_chunks := fn_chunks fn @ replicate n Chunk_zero, fn_size := ?s\<rparr>)) w"
  have pn: "prev + n = (max (length bs) ?q + 4095) div 4096"
    using div_le_mono [of "?q + 4095" "length bs + 4095" 4096] div_le_mono [of "length bs + 4095" "?q + 4095" 4096]
    by (auto simp: n_def prev en max_def)
  have sm: "unat ?s + CHUNKSIZE < 2 ^ 63" unfolding us using small req by (simp add: request_ok_def max_def)
  note G = grow_holds [OF ok h hd prev_def pn us sm e w'_def]
  have "ecall_fs_fallocate ino mode offset len w = (RC_OK, w')"
  proof (cases "prev < en")
    case True
    then show ?thesis using fn grow
      by (simp add: ecall_fs_fallocate_def Let_def w'_def chunks_resize_def n_def prev_def flip: en_def)
  next
    case False
    then have "n = 0" by (simp add: n_def)
    with False show ?thesis using fn grow by (simp add: ecall_fs_fallocate_def Let_def w'_def flip: prev_def)
  qed
  with G show ?thesis by blast
qed

text \<open>
  C22.  \<open>ecall_fs_fallocate\<close> extends the file with zeros up to the end of the range and leaves it alone
  when it is long enough; it takes no account of the mode, so every mode does this.
\<close>

theorem fallocate_extends:
  assumes "env_lawful e" and "data_ok e w" and "find_inode w ino = Some (a, FileObj fn)"
    and "holds e w a bs" and "request_ok offset len"
  shows "\<exists>w'. ecall_fs_fallocate ino mode offset len w = (RC_OK, w') \<and> data_ok e w' \<and>
    holds e w' a (bs @ replicate (unat offset + unat len - length bs) 0) \<and>
    (\<forall>b bs'. b \<noteq> a \<longrightarrow> holds e w b bs' \<longrightarrow> holds e w' b bs')"
  by (rule ecall_fs_fallocate_ok [OF assms])

theorem fallocate_extends_witness:
  "\<exists>w'. ecall_fs_fallocate 5 0 2 3 sample_cached_world = (RC_OK, w') \<and> holds sample_env w' 1 [97, 98, 99, 0, 0]"
proof -
  have "unat (2 :: off_t) + unat (3 :: size_t) - length [97, 98, 99 :: byte] = 2" by simp
  moreover have "replicate 2 0 = [0, 0 :: byte]" by (simp add: numeral_2_eq_2)
  moreover have "request_ok 2 3" by (simp add: request_ok_def CHUNKSIZE_def)
  ultimately show ?thesis
    using fallocate_extends [OF sample_env_lawful sample_cached_data_ok sample_cached_find sample_cached_holds, of 2 3 0]
    by auto
qed

section \<open>Reading in pieces\<close>

text \<open>
  C18.  Reading in pieces is equivalent to reading at once: two reads that follow one another give the
  bytes of the read of the whole range, although each moves chunks between cache and store.  The first
  piece has to end inside the file or at its end; the second may reach beyond it.  Without this
  restriction the second read begins past the end, where the code delivers
  bytes that are not there; a property of its own states what it does.
\<close>

theorem read_pieces_equal:
  assumes "env_lawful e" and "host_reliable e" and "data_ok e w"
    and "find_inode w ino = Some (a, FileObj fn)" and "holds e w a bs"
    and "unat off + unat n1 \<le> length bs" and "unat (off + n1) = unat off + unat n1" and "unat (n1 + n2) = unat n1 + unat n2"
    and "length buf = unat n1 + unat n2" and "length buf1 = unat n1" and "length buf2 = unat n2"
  shows "\<exists>k r w' k1 r1 w1 k2 r2 w2.
    ecall_fs_read e ino buf off (n1 + n2) w = Some (RC_OK, k, r, w') \<and>
    ecall_fs_read e ino buf1 off n1 w = Some (RC_OK, k1, r1, w1) \<and>
    ecall_fs_read e ino buf2 (off + n1) n2 w1 = Some (RC_OK, k2, r2, w2) \<and>
    take (unat k) r = take (unat k1) r1 @ take (unat k2) r2"
proof -
  have h: "heap w a = Some (FileObj fn)" using find_inode_heap [OF assms(4)] by simp
  with assms(5) have wf: "file_wf fn" and lbs: "length bs = unat (fn_size fn)" by (auto elim!: holdsD)
  note rd = ecall_fs_read_ok [OF assms(1,2)]
  have small: "length (rd o' m bs) < 2 ^ 64" for o' m
  proof -
    have "length (rd o' m bs) \<le> length bs" by (simp add: rd_def)
    with wf lbs show ?thesis by (simp add: file_wf_def CHUNKSIZE_def)
  qed
  have cut: "take (unat (of_nat (length x) :: size_t)) (wr 0 x b) = x" if "length x < 2 ^ 64" for x b :: bytes
    using that by (simp add: unat_of_nat take_bit_eq_mod wr_def)
  from rd [OF assms(3,4) wf holds_file_bytes [OF assms(5)], of off "n1 + n2" buf] assms(6,8,9) lbs obtain w' where
    a: "ecall_fs_read e ino buf off (n1 + n2) w = Some (RC_OK, of_nat (length (rd (unat off) (unat n1 + unat n2) bs)),
      wr 0 (rd (unat off) (unat n1 + unat n2) bs) buf, w')" by auto
  from rd [OF assms(3,4) wf holds_file_bytes [OF assms(5)], of off n1 buf1] assms(6,10) lbs obtain w1 where
    b: "ecall_fs_read e ino buf1 off n1 w = Some (RC_OK, of_nat (length (rd (unat off) (unat n1) bs)),
      wr 0 (rd (unat off) (unat n1) bs) buf1, w1)" and sc: "same_contents e w w1" and ok1: "data_ok e w1" by auto
  have hd1: "holds e w1 a bs" by (rule same_contents_holds [OF sc assms(5)])
  have "inode_map w1 = inode_map w" using same_contentsD(2) [OF sc] by (simp add: frame_eq_def)
  moreover from hd1 obtain fn1 where h1: "heap w1 a = Some (FileObj fn1)" "file_wf fn1" "length bs = unat (fn_size fn1)"
    by (auto elim!: holdsD)
  ultimately have f1: "find_inode w1 ino = Some (a, FileObj fn1)"
    using assms(4) by (auto simp: find_inode_def split: bind_splits)
  from rd [OF ok1 f1 h1(2) holds_file_bytes [OF hd1], of "off + n1" n2 buf2] assms(6,7,11) h1(3) obtain w2 where
    c: "ecall_fs_read e ino buf2 (off + n1) n2 w1 = Some (RC_OK, of_nat (length (rd (unat off + unat n1) (unat n2) bs)),
      wr 0 (rd (unat off + unat n1) (unat n2) bs) buf2, w2)" by auto
  let ?B = "rd (unat off) (unat n1 + unat n2) bs" and ?B1 = "rd (unat off) (unat n1) bs"
    and ?B2 = "rd (unat off + unat n1) (unat n2) bs"
  have "?B = ?B1 @ ?B2" by (simp add: rd_def take_add add.commute)
  then have "take (unat (of_nat (length ?B) :: size_t)) (wr 0 ?B buf) =
      take (unat (of_nat (length ?B1) :: size_t)) (wr 0 ?B1 buf1) @ take (unat (of_nat (length ?B2) :: size_t)) (wr 0 ?B2 buf2)"
    unfolding cut [OF small] .
  with a b c show ?thesis by blast
qed

theorem read_pieces_equal_witness:
  "\<exists>k1 r1 w1 k2 r2 w2. ecall_fs_read sample_env 5 [7] 0 1 sample_cached_world = Some (RC_OK, k1, r1, w1) \<and>
    ecall_fs_read sample_env 5 [7, 7] 1 2 w1 = Some (RC_OK, k2, r2, w2)"
  using read_pieces_equal [OF sample_env_lawful sample_env_reliable sample_cached_data_ok sample_cached_find
      sample_cached_holds, of 0 1 2 "[7, 7, 7]" "[7]" "[7, 7]"] by simp blast

section \<open>Reading past the end\<close>

text \<open>
  C19.  A read that begins past the end of the file does not return zero bytes.  The bytes left,
  \<open>fn->size - offset\<close> on line 250, are a difference without sign that wraps around, so the size is not cut:
  when the range lies in the last chunk the read succeeds with the whole size and delivers zeros, and
  else it fails with \<open>EINVAL\<close>.
\<close>

theorem read_past_end:
  assumes e: "env_lawful e" "host_reliable e" and ok: "data_ok e w"
    and fn: "find_inode w ino = Some (a, FileObj fn)" and hd: "holds e w a bs"
    and past: "length bs < unat offset" and req: "request_ok offset sz" and buf: "unat sz \<le> length buf"
  shows "if (unat offset + unat sz + 4095) div 4096 \<le> (length bs + 4095) div 4096
    then \<exists>w'. ecall_fs_read e ino buf offset sz w = Some (RC_OK, sz, wr 0 (replicate (unat sz) 0) buf, w') \<and> data_ok e w'
    else ecall_fs_read e ino buf offset sz w = Some (EINVAL, sz, buf, w)"
proof -
  have h: "heap w a = Some (FileObj fn)" using find_inode_heap [OF fn] by simp
  from hd h obtain ds where wf: "file_wf fn" and lbs: "length bs = unat (fn_size fn)" and ds: "blocks e w a = Some ds"
    and cds: "concat ds = bs @ replicate (length (concat ds) - length bs) 0" by (auto elim!: holdsD)
  let ?p = "unat offset" and ?q = "unat offset + unat sz"
  have "fn_size fn < offset" using past lbs by (simp add: word_less_nat_alt)
  then have "unat (fn_size fn - offset) = 2 ^ 64 + unat (fn_size fn) - unat offset"
    by (subst unat_sub_if_size) (simp add: word_size word_less_nat_alt)
  moreover have "?q < 2 ^ 63" using req by (simp add: request_ok_def)
  ultimately have "sz \<le> fn_size fn - offset" unfolding word_le_nat_alt by simp
  then have s: "min sz (fn_size fn - offset) = sz" by (simp add: min_def)
  have lds: "length (fn_chunks fn) = length ds" "length ds = (length bs + 4095) div 4096"
    using ds wf blocks_iff [OF h, of e ds] lbs by (simp_all add: file_wf_def)
  have "length ds \<le> length bs + 4095" by (simp add: lds(2))
  then have un: "unat (of_nat (length ds) :: size_t) = length ds"
    using wf lbs by (simp add: unat_of_nat take_bit_eq_mod file_wf_def CHUNKSIZE_def)
  have en: "unat (end_chunk offset sz) = (?q + 4095) div 4096" by (rule unat_end_chunk [OF req])
  show ?thesis
  proof (cases "(?q + 4095) div 4096 \<le> (length bs + 4095) div 4096")
    case False
    then have "of_nat (length ds) < end_chunk offset sz" by (simp add: word_less_nat_alt un [unfolded lds(2)] en lds(2))
    with False show ?thesis using fn by (simp add: ecall_fs_read_def Let_def s lds(1))
  next
    case True
    then have g: "\<not> of_nat (length ds) < end_chunk offset sz" "min (end_chunk offset sz) (of_nat (length ds)) = end_chunk offset sz"
      by (simp_all add: word_less_nat_alt word_le_nat_alt min_def un [unfolded lds(2)] en lds(2))
    have st: "unat (first_chunk offset) = ?p div CHUNKSIZE" by (rule unat_first_chunk [OF req])
    have "?p div 4096 \<le> (?q + 4095) div 4096" by (rule div_le_mono) simp
    then have k: "?p div CHUNKSIZE \<le> unat (end_chunk offset sz)" by (simp add: en CHUNKSIZE_def)
    have "unat (end_chunk offset sz) \<le> length ds" using True by (simp add: en lds(2))
    from read_loop_ok [OF e ok ds this req order_refl k buf, of 0] obtain w' where
      loop: "read_loop e a offset sz (first_chunk offset) (end_chunk offset sz)
          [unat (first_chunk offset)..<unat (end_chunk offset sz)] 0 buf w =
        Some (RC_OK, sz, wr 0 (rd ?p (unat sz) (concat ds)) buf, w')" and w': "data_ok e w'"
      by (auto simp: st seg_pos_first)
    have "length (concat ds) = CHUNKSIZE * length ds"
      by (rule length_concat_blocks [OF blocks_length [OF e(1) data_okD [OF ok] ds]])
    moreover have "?q \<le> 4096 * ((?q + 4095) div 4096)" by simp
    ultimately have "?q \<le> length (concat ds)" using True by (simp add: lds(2) CHUNKSIZE_def)
    then have "rd ?p (unat sz) (concat ds) = replicate (unat sz) 0"
      using past by (subst cds) (simp add: rd_def)
    then show ?thesis using True fn loop w' g by (simp add: ecall_fs_read_def Let_def s lds(1))
  qed
qed

theorem read_past_end_witness:
  "(\<exists>w'. ecall_fs_read sample_env 5 (replicate 10 7) 100 10 sample_world = Some (RC_OK, 10, replicate 10 0, w')) \<and>
    ecall_fs_read sample_env 5 (replicate 10 7) 5000 10 sample_world = Some (EINVAL, 10, replicate 10 7, sample_world)"
proof -
  have "wr 0 (replicate 10 0) (replicate 10 7) = (replicate 10 0 :: bytes)" by (simp add: wr_def)
  then show ?thesis
    using read_past_end [OF sample_env_lawful sample_env_reliable sample_data_ok sample_find(1) sample_holds, of 100 10 "replicate 10 7"]
      read_past_end [OF sample_env_lawful sample_env_reliable sample_data_ok sample_find(1) sample_holds, of 5000 10 "replicate 10 7"]
    by (auto simp: request_ok_def CHUNKSIZE_def)
qed

section \<open>Authentic chunks\<close>

text \<open>
  C8.  Authenticity of file data, on any host: if \<open>load_chunk\<close> accepts a chunk that is not cached, the file
  in the store is the encryption under the volume key of the bytes it returns, made for this chunk,
  and they have the tag the file's metadata records.  A host cannot exchange, change or replay it.
\<close>

theorem load_chunk_authentic:
  assumes "env_lawful e" and "length (volkey w) = VOLKEYSIZE" and "cs_inv (local_cache w)"
    and "ChunkCache_chunk w c = Some ck" and "cs_lookup (ck_uuid ck) (local_cache w) = None"
    and "load_chunk e c w = Some (True, c', w')"
  shows "\<exists>p. files w (UUID_unparse (ck_uuid ck)) =
      Some (gcm_ct (mbed e) (volkey w) (le_bytes 12 (ck_iv ck)) (UUID_dump (ck_uuid ck)) p) \<and>
    le_bytes 16 (ck_tag ck) = gcm_tag (mbed e) (volkey w) (le_bytes 12 (ck_iv ck)) (UUID_dump (ck_uuid ck)) p \<and>
    length p \<le> CHUNKSIZE \<and>
    cc_data c' = wr 0 p (take CHUNKSIZE (cc_data c) @ replicate (CHUNKSIZE - length (cc_data c)) 0)"
proof -
  let ?u = "ck_uuid ck" and ?iv = "le_bytes 12 (ck_iv ck)" and ?t = "le_bytes 16 (ck_tag ck)"
  let ?buf = "take CHUNKSIZE (cc_data c) @ replicate (CHUNKSIZE - length (cc_data c)) 0"
  from cs.take_ok [OF assms(3), of ?u] assms(4,5,6) obtain data where
    lc: "load_cache e ck (cc_data c) w = (True, data, w')" and c': "cc_data c' = data"
    by (auto simp: load_chunk_def cs_lookup_def split: bind_splits option.splits prod.splits)
  then obtain sz obuf w1 where lf: "ocall_load_file e (UUID_unparse ?u) (snd (sgx_enter e w)) = ((sz, obuf), w1)"
    and sz: "0 \<le> sz" "sz \<le> int CHUNKSIZE"
    by (auto simp: load_cache_def sgx_enter_def split: prod.splits if_splits)
  then have f: "files w (UUID_unparse ?u) = Some obuf" and szl: "sz = int (length obuf)"
    using store.get_sound [of e "UUID_unparse ?u" "snd (sgx_enter e w)" sz obuf] by auto
  from lf have "w1 = snd (ocall_load_file e (UUID_unparse ?u) (snd (sgx_enter e w)))" by simp
  then have "host.more w1 = host.more w" by (simp only: host_calls_more)
  then have w1: "volkey w1 = volkey w" by (rule more_world(5))
  from lc lf sz have dec: "decrypt_buffer (mbed e) (volkey w) ?iv (UUID_dump ?u) obuf ?buf ?t = (True, data)"
    using w1 by (auto simp: load_cache_def sgx_enter_def Let_def split: prod.splits if_splits)
  have params: "gcm_params (volkey w) ?iv (UUID_dump ?u) obuf"
    using assms(2) sz szl by (simp add: gcm_params_def CHUNKSIZE_def)
  have "length obuf \<le> length ?buf" using sz szl by simp
  from gcm.unseal_accepts [OF env_lawfulD(1) [OF assms(1)] params this _ dec] obtain p where
    "length p = length obuf" "data = wr 0 p ?buf" "obuf = gcm_ct (mbed e) (volkey w) ?iv (UUID_dump ?u) p"
    "?t = gcm_tag (mbed e) (volkey w) ?iv (UUID_dump ?u) p" by auto
  with f c' sz szl show ?thesis by (intro exI [of _ p]) simp
qed


text \<open>A chunk that has been written to the store and is not cached.\<close>

lemma sample_load_stored:
  "\<exists>w ck c' w'. length (volkey w) = VOLKEYSIZE \<and> cs_inv (local_cache w) \<and>
    ChunkCache_chunk w (ChunkCache_ctor CHUNKSIZE 1 0) = Some ck \<and> cs_lookup (ck_uuid ck) (local_cache w) = None \<and>
    load_chunk sample_env (ChunkCache_ctor CHUNKSIZE 1 0) w = Some (True, c', w')"
proof -
  let ?c = "ChunkCache_ctor CHUNKSIZE 1 0" and ?d = "replicate CHUNKSIZE 7 :: bytes"
  have key: "length (volkey sample_world) = VOLKEYSIZE" by (simp add: sample_world_def)
  have "length ?d = CHUNKSIZE" by simp
  from save_cache_stored [OF sample_env_lawful sample_env_reliable key this, of sample_chunk] obtain ck w1 where
    s: "stored_chunk sample_env w1 ck = Some ?d" "host.more w1 = host.more sample_world" by blast
  define w where "w = w1\<lparr>heap := [1 \<mapsto> FileObj (sample_file\<lparr>fn_chunks := [ck]\<rparr>)], local_cache := ChunkStore_empty\<rparr>"
  have v: "volkey w = volkey w1" by (simp add: w_def)
  then have key': "length (volkey w) = VOLKEYSIZE" using more_world(5) [OF s(2)] key by simp
  have "stored_chunk sample_env w ck = Some ?d"
    using s(1) stored_chunk_cong [of w ck w1 sample_env] v by (simp add: w_def)
  from load_cache_stored [OF sample_env_lawful sample_env_reliable key' this, of "cc_data ?c"] obtain w2 where
    l: "load_cache sample_env ck (cc_data ?c) w = (True, ?d, w2)" by (auto simp: ChunkCache_ctor_def)
  have lc: "local_cache w = ChunkStore_empty" by (simp add: w_def)
  have k: "ChunkCache_chunk w ?c = Some ck" by (simp add: ChunkCache_chunk_def ChunkCache_ctor_def w_def)
  have n: "cs_lookup (ck_uuid ck) (local_cache w) = None" by (simp add: lc cs_lookup_def)
  have "cs_inv (local_cache w)" by (simp add: lc)
  from cs.take_ok [OF this, of "ck_uuid ck"] n l k have "load_chunk sample_env ?c w = Some (True, ?c\<lparr>cc_data := ?d\<rparr>, w2)"
    by (auto simp: load_chunk_def cs_lookup_def)
  with key' k n lc show ?thesis by (intro exI [of _ w] exI [of _ ck]) auto
qed

theorem load_chunk_authentic_witness:
  "\<exists>w c' w' p u iv. load_chunk sample_env (ChunkCache_ctor CHUNKSIZE 1 0) w = Some (True, c', w') \<and>
    files w (UUID_unparse u) = Some (gcm_ct sample_cipher (volkey w) iv (UUID_dump u) p) \<and> length p \<le> CHUNKSIZE"
proof -
  from sample_load_stored obtain w ck c' w' where
    w: "length (volkey w) = VOLKEYSIZE" "cs_inv (local_cache w)" "ChunkCache_chunk w (ChunkCache_ctor CHUNKSIZE 1 0) = Some ck"
      "cs_lookup (ck_uuid ck) (local_cache w) = None"
      "load_chunk sample_env (ChunkCache_ctor CHUNKSIZE 1 0) w = Some (True, c', w')" by blast
  from load_chunk_authentic [OF sample_env_lawful w] w(5) show ?thesis by auto
qed

end
