(* ===== verification/Namespace.thy ===== *)
theory Namespace
  imports Sample_World
begin

text \<open>
  The name space.  The abstract view of the enclave's state maps an inode number that the enclave knows
  to a directory, a map from names to inode numbers and types, or to a file with its size.  The
  specification of each handler is a function on views; the handlers are shown to implement it, on
  every branch and whatever the host does with the files they save.
\<close>

section \<open>The inode table\<close>

text \<open>Entries of the table lead to objects, different entries to different ones, and addresses are below the next.\<close>

definition table_ok :: "world \<Rightarrow> bool" where
  "table_ok w \<longleftrightarrow>
     (\<forall>ino a. inode_map w ino = Some a \<longrightarrow> a < next_addr w \<and> heap w a \<noteq> None) \<and>
     (\<forall>ino jno a. inode_map w ino = Some a \<and> inode_map w jno = Some a \<longrightarrow> ino = jno)"

lemma table_okD:
  assumes "table_ok w" and "inode_map w ino = Some a"
  shows "a < next_addr w" and "\<exists>obj. heap w a = Some obj" and "jno \<noteq> ino \<Longrightarrow> inode_map w jno \<noteq> Some a"
  using assms unfolding table_ok_def by blast+

lemma find_inode_iff: "find_inode w ino = Some (a, obj) \<longleftrightarrow> inode_map w ino = Some a \<and> heap w a = Some obj"
  by (auto simp: find_inode_def split: bind_splits)

lemma find_inode_None: "table_ok w \<Longrightarrow> find_inode w ino = None \<longleftrightarrow> inode_map w ino = None"
  using table_okD(2) [of w ino] by (auto simp: find_inode_def split: bind_splits)

lemma table_okI:
  assumes "\<And>ino a. inode_map w ino = Some a \<Longrightarrow> a < next_addr w \<and> heap w a \<noteq> None"
    and "\<And>ino jno a. inode_map w ino = Some a \<Longrightarrow> inode_map w jno = Some a \<Longrightarrow> ino = jno"
  shows "table_ok w"
  using assms unfolding table_ok_def by blast

lemma table_ok_upd_obj:
  assumes t: "table_ok w"
  shows "table_ok (upd_obj a obj w)"
proof (rule table_okI)
  fix i b assume "inode_map (upd_obj a obj w) i = Some b"
  then have "inode_map w i = Some b" by (simp add: upd_obj_def)
  from table_okD(1,2) [OF t this] show "b < next_addr (upd_obj a obj w) \<and> heap (upd_obj a obj w) b \<noteq> None"
    by (auto simp: upd_obj_def)
next
  fix i j b
  assume "inode_map (upd_obj a obj w) i = Some b" "inode_map (upd_obj a obj w) j = Some b"
  then show "i = j" using table_okD(3) [OF t, of i b j] by (auto simp: upd_obj_def)
qed

lemma table_ok_bind_inode:
  assumes t: "table_ok w"
  shows "table_ok (bind_inode ino obj w)"
proof (rule table_okI)
  fix i a assume "inode_map (bind_inode ino obj w) i = Some a"
  then consider "a = next_addr w" | "i \<noteq> ino" "inode_map w i = Some a"
    by (auto simp: bind_inode_def Let_def split: if_splits)
  then show "a < next_addr (bind_inode ino obj w) \<and> heap (bind_inode ino obj w) a \<noteq> None"
  proof cases
    case 2
    from table_okD(1,2) [OF t 2(2)] table_okD(3) [OF t 2(2), of ino] 2(1) show ?thesis
      by (auto simp: bind_inode_def Let_def split: option.split)
  qed (simp add: bind_inode_def Let_def)
next
  fix i j a
  assume A: "inode_map (bind_inode ino obj w) i = Some a" "inode_map (bind_inode ino obj w) j = Some a"
  have lt: "b < next_addr w" if "inode_map w k = Some b" for k b by (rule table_okD(1) [OF t that])
  show "i = j"
  proof (cases "i = ino \<or> j = ino")
    case True
    with A lt [of j "next_addr w"] lt [of i "next_addr w"] show ?thesis
      by (auto simp: bind_inode_def Let_def split: if_splits)
  next
    case False
    with A have "inode_map w i = Some a" "inode_map w j = Some a"
      by (simp_all add: bind_inode_def Let_def)
    with table_okD(3) [OF t, of i a j] show ?thesis by blast
  qed
qed

lemma table_ok_erase_inode:
  assumes t: "table_ok w"
  shows "table_ok (erase_inode ino w)"
proof (cases "inode_map w ino")
  case (Some b)
  have E: "i \<noteq> ino \<and> inode_map w i = Some a" if "inode_map (erase_inode ino w) i = Some a" for i a
    using that Some by (simp add: erase_inode_def split: if_splits)
  show ?thesis
  proof (rule table_okI)
    fix i a assume "inode_map (erase_inode ino w) i = Some a"
    from E [OF this] have i: "i \<noteq> ino" "inode_map w i = Some a" by auto
    from table_okD(1,2) [OF t i(2)] table_okD(3) [OF t i(2), of ino] i(1) Some
    show "a < next_addr (erase_inode ino w) \<and> heap (erase_inode ino w) a \<noteq> None"
      by (auto simp: erase_inode_def)
  next
    fix i j a
    assume "inode_map (erase_inode ino w) i = Some a" "inode_map (erase_inode ino w) j = Some a"
    from E [OF this(1)] E [OF this(2)] show "i = j" using table_okD(3) [OF t, of i a j] by blast
  qed
qed (simp add: erase_inode_def t)

lemma find_inode_upd_obj:
  "find_inode (upd_obj a obj w) x = (if inode_map w x = Some a then Some (a, obj) else find_inode w x)"
  by (cases "inode_map w x") (auto simp: find_inode_def upd_obj_def)

lemma find_inode_bind_inode:
  assumes t: "table_ok w"
  shows "find_inode (bind_inode ino obj w) x = (if x = ino then Some (next_addr w, obj) else find_inode w x)"
proof (cases "x = ino \<or> inode_map w x = None")
  case True
  then show ?thesis by (auto simp: find_inode_def bind_inode_def Let_def)
next
  case False
  then obtain b where b: "x \<noteq> ino" "inode_map w x = Some b" by blast
  with table_okD(1) [OF t b(2)] table_okD(3) [OF t b(2), of ino] show ?thesis
    by (auto simp: find_inode_def bind_inode_def Let_def split: option.split)
qed

lemma find_inode_erase_inode:
  assumes t: "table_ok w"
  shows "find_inode (erase_inode ino w) x = (if x = ino then None else find_inode w x)"
proof (cases "x = ino \<or> inode_map w x = None")
  case True
  then show ?thesis by (auto simp: find_inode_def erase_inode_def split: option.split)
next
  case False
  then obtain b where b: "x \<noteq> ino" "inode_map w x = Some b" by blast
  with table_okD(3) [OF t b(2), of ino] show ?thesis
    by (auto simp: find_inode_def erase_inode_def split: option.split)
qed

lemma table_ok_more:
  assumes "host.more w' = host.more w"
  shows "table_ok w' = table_ok w"
  by (simp only: table_ok_def more_world [OF assms])

lemma find_inode_more:
  assumes "host.more w' = host.more w"
  shows "find_inode w' = find_inode w"
  by (rule ext) (simp only: find_inode_def more_world [OF assms])

section \<open>The view\<close>

datatype node = DirNode "string \<rightharpoonup> ino_t \<times> 32 word" | FileNode size_t

type_synonym namespace = "ino_t \<rightharpoonup> node"

definition entries :: "Dirent list \<Rightarrow> string \<rightharpoonup> ino_t \<times> 32 word" where
  "entries ds = map_of (map (\<lambda>d. (de_name d, (de_ino d, de_type d))) ds)"

fun obj_node :: "inode_obj \<Rightarrow> node" where
  "obj_node (DirObj dn) = DirNode (entries (dn_dirent dn))"
| "obj_node (FileObj fn) = FileNode (fn_size fn)"

definition view :: "world \<Rightarrow> namespace" where
  "view w ino = map_option (obj_node \<circ> snd) (find_inode w ino)"

lemma view_more:
  assumes "host.more w' = host.more w"
  shows "view w' = view w"
  by (rule ext) (simp only: view_def find_inode_more [OF assms])

lemma view_upd_obj:
  assumes "table_ok w" and "inode_map w ino = Some a"
  shows "view (upd_obj a obj w) = (view w)(ino \<mapsto> obj_node obj)"
  using assms(2) table_okD(3) [OF assms] by (auto simp: view_def find_inode_upd_obj)

lemma view_bind_inode: "table_ok w \<Longrightarrow> view (bind_inode ino obj w) = (view w)(ino \<mapsto> obj_node obj)"
  by (simp add: view_def find_inode_bind_inode fun_eq_iff)

lemma view_erase_inode: "table_ok w \<Longrightarrow> view (erase_inode ino w) = (view w)(ino := None)"
  by (simp add: view_def find_inode_erase_inode fun_eq_iff)

lemma view_superinfo [simp]: "view (w\<lparr>superinfo := s\<rparr>) = view w"
  by (simp add: view_def find_inode_def fun_eq_iff)

lemma entries_find:
  "entries ds name = map_option (\<lambda>d. (de_ino d, de_type d)) (find (\<lambda>d. de_name d = name) ds)"
  by (induction ds) (auto simp: entries_def)

lemma entries_None: "entries ds name = None \<longleftrightarrow> \<not> (\<exists>d\<in>set ds. de_name d = name)"
  by (simp add: entries_find find_None_iff_all)

lemma entries_append:
  assumes "entries ds (de_name x) = None"
  shows "entries (ds @ [x]) = (entries ds)(de_name x \<mapsto> (de_ino x, de_type x))"
proof
  fix n
  have "find (\<lambda>d. de_name d = de_name x) ds = None" using assms by (simp add: entries_find)
  then show "entries (ds @ [x]) n = ((entries ds)(de_name x \<mapsto> (de_ino x, de_type x))) n"
    by (auto simp: entries_find find_append split: option.split)
qed

lemma entries_erase:
  assumes "distinct (map de_name ds)"
  shows "entries (erase_first (\<lambda>d. de_name d = name) ds) = (entries ds)(name := None)"
  using assms
  by (induction ds) (auto simp: entries_def fun_eq_iff map_of_eq_None_iff)

section \<open>Frames of saving metadata\<close>

lemma save_metadata_frame:
  "host.more (snd (save_metadata e vdump u m w)) = host.more w"
  "rnd (snd (save_metadata e vdump u m w)) = rnd w"
  "f \<noteq> UUID_unparse u \<Longrightarrow> files (snd (save_metadata e vdump u m w)) f = files w f"
  by (auto simp: save_metadata_def Let_def alloc_def sgx_enter_def store.put_other split: prod.split)

lemma view_save_metadata [simp]: "view (snd (save_metadata e vdump u m w)) = view w"
  by (rule view_more) (rule save_metadata_frame)

lemma table_ok_save_metadata [simp]: "table_ok (snd (save_metadata e vdump u m w)) = table_ok w"
  by (rule table_ok_more) (rule save_metadata_frame)

lemma save_metadata_fields [simp]:
  "inode_map (snd (save_metadata e vdump u m w)) = inode_map w"
  "heap (snd (save_metadata e vdump u m w)) = heap w"
  "next_addr (snd (save_metadata e vdump u m w)) = next_addr w"
  "superinfo (snd (save_metadata e vdump u m w)) = superinfo w"
  "volkey (snd (save_metadata e vdump u m w)) = volkey w"
  "local_cache (snd (save_metadata e vdump u m w)) = local_cache w"
  by (rule more_world [OF save_metadata_frame(1)])+

end
