(* ===== verification/Dir_Ops.thy ===== *)
theory Dir_Ops
  imports Namespace
begin

text \<open>
  The handlers of theory \<open>Ecall_Fs\<close> that change directories, against their specification on views.
\<close>

section \<open>Frames\<close>

lemma load_metadata_frame:
  assumes "load_metadata e vload u m w = Some (ok, m', w')"
  shows "host.more w' = host.more w" and "rnd w' = rnd w" and "files w' = files w"
proof -
  have "host.more w' = host.more w \<and> rnd w' = rnd w \<and> files w' = files w"
    using assms unfolding load_metadata_def Let_def
    by (auto simp: alloc_def sgx_enter_def ocall_load_file_eq
        split: prod.splits if_splits bind_splits option.splits)
  then show "host.more w' = host.more w" "rnd w' = rnd w" "files w' = files w" by auto
qed

lemma remove_metadata_frame:
  assumes "remove_metadata e u w = (ok, w')"
  shows "host.more w' = host.more w" and "rnd w' = rnd w"
    and "f \<noteq> UUID_unparse u \<Longrightarrow> files w' f = files w f"
proof -
  from assms have "w' = snd (sgx_enter e w) \<or> w' = snd (ocall_remove_file e (UUID_unparse u) (snd (sgx_enter e w)))"
    by (auto simp: remove_metadata_def split: prod.splits if_splits)
  then show "host.more w' = host.more w" "rnd w' = rnd w" "f \<noteq> UUID_unparse u \<Longrightarrow> files w' f = files w f"
    by (auto simp: store.del_other)
qed

lemma remove_chunk_frame:
  "host.more (snd (remove_chunk e u w)) = host.more w" "rnd (snd (remove_chunk e u w)) = rnd w"
proof -
  obtain ok w' where "remove_metadata e u w = (ok, w')" by fastforce
  moreover then have "remove_chunk e u w = (ok, w')" by (simp add: remove_chunk_def remove_metadata_def)
  ultimately show "host.more (snd (remove_chunk e u w)) = host.more w" "rnd (snd (remove_chunk e u w)) = rnd w"
    using remove_metadata_frame(1,2) [of e u w ok w'] by simp_all
qed

lemma remove_chunks_frame: "host.more (remove_chunks e cks w) = host.more w" "rnd (remove_chunks e cks w) = rnd w"
  by (induction cks arbitrary: w) (simp_all add: remove_chunk_frame)


section \<open>Specification\<close>

text \<open>The outcome of a handler on the name space: a status, an inode number and the new name space.\<close>

definition spec_add ::
    "ino_t \<Rightarrow> ino_t \<Rightarrow> string \<Rightarrow> 32 word \<Rightarrow> node \<Rightarrow> namespace \<Rightarrow> rc \<times> ino_t \<times> namespace" where
  "spec_add new parent name ty nd V =
     (case V parent of
        None \<Rightarrow> (ENOENT, 0, V)
      | Some (FileNode _) \<Rightarrow> (ENOTDIR, 0, V)
      | Some (DirNode es) \<Rightarrow>
          if es name \<noteq> None then (EEXIST, 0, V)
          else (RC_OK, new, V(parent \<mapsto> DirNode (es(name \<mapsto> (new, ty))), new \<mapsto> nd)))"

lemma view_dir: "find_inode w ino = Some (a, DirObj dn) \<Longrightarrow> view w ino = Some (DirNode (entries (dn_dirent dn)))"
  by (simp add: view_def)

lemma view_file: "find_inode w ino = Some (a, FileObj fn) \<Longrightarrow> view w ino = Some (FileNode (fn_size fn))"
  by (simp add: view_def)

lemma view_none: "find_inode w ino = None \<Longrightarrow> view w ino = None"
  by (simp add: view_def)

text \<open>The world after the common tail of \<open>mkdir\<close> and \<open>create\<close>.\<close>

lemma add_entry_world:
  assumes t: "table_ok w" and a: "inode_map w parent = Some a" and new: "inode_map w ino = None"
    and w1: "host.more w1 = host.more (upd_obj a (DirObj dn) w)"
    and w2: "host.more w2 = host.more (upd_obj (next_addr w1) obj' ((bind_inode ino obj w1)\<lparr>superinfo := s\<rparr>))"
  shows "table_ok w2" and "view w2 = (view w)(parent \<mapsto> obj_node (DirObj dn), ino \<mapsto> obj_node obj')"
    and "superinfo w2 = s" and "find_inode w2 ino = Some (next_addr w, obj')"
    and "find_inode w2 parent = Some (a, DirObj dn)" and "local_cache w2 = local_cache w"
    and "volkey w2 = volkey w"
proof -
  let ?w = "upd_obj a (DirObj dn) w"
  let ?w1 = "bind_inode ino obj w1"
  let ?w2 = "upd_obj (next_addr w1) obj' (?w1\<lparr>superinfo := s\<rparr>)"
  have t0: "table_ok ?w" by (rule table_ok_upd_obj [OF t])
  have t1: "table_ok w1" using t0 by (simp only: table_ok_more [OF w1])
  have t1': "table_ok (?w1\<lparr>superinfo := s\<rparr>)"
    using table_ok_bind_inode [OF t1, of ino obj] by (simp add: table_ok_def)
  have im: "inode_map w1 = inode_map w" "next_addr w1 = next_addr w"
    using more_world [OF w1] by (simp_all add: upd_obj_def)
  have b: "inode_map (?w1\<lparr>superinfo := s\<rparr>) ino = Some (next_addr w1)"
    by (simp add: bind_inode_def Let_def)
  have ne: "parent \<noteq> ino" using a new by auto
  show "table_ok w2" using table_ok_upd_obj [OF t1'] by (simp only: table_ok_more [OF w2])
  have "view ?w2 = (view ?w1)(ino \<mapsto> obj_node obj')"
    using view_upd_obj [OF t1' b] by simp
  also have "view ?w1 = (view w)(parent \<mapsto> obj_node (DirObj dn), ino \<mapsto> obj_node obj)"
    by (simp only: view_bind_inode [OF t1] view_more [OF w1] view_upd_obj [OF t a])
  finally show "view w2 = (view w)(parent \<mapsto> obj_node (DirObj dn), ino \<mapsto> obj_node obj')"
    by (simp only: view_more [OF w2] fun_upd_upd)
  show "superinfo w2 = s" using more_world(4) [OF w2] by (simp add: upd_obj_def)
  have f1: "find_inode (?w1\<lparr>superinfo := s\<rparr>) x = find_inode ?w1 x" for x by (simp add: find_inode_def)
  have f: "find_inode w2 x = (if inode_map (?w1\<lparr>superinfo := s\<rparr>) x = Some (next_addr w1) then Some (next_addr w1, obj')
      else if x = ino then Some (next_addr w1, obj) else find_inode ?w x)" for x
    by (simp only: find_inode_more [OF w2] find_inode_upd_obj f1 find_inode_bind_inode [OF t1] find_inode_more [OF w1])
  show "find_inode w2 ino = Some (next_addr w, obj')" using f [of ino] b im(2) by simp
  show "find_inode w2 parent = Some (a, DirObj dn)"
    using f [of parent] ne a im table_okD(1) [OF t a] by (simp add: find_inode_upd_obj bind_inode_def Let_def)
  show "local_cache w2 = local_cache w" "volkey w2 = volkey w"
    using more_world(5,6) [OF w2] more_world(5,6) [OF w1] by (simp_all add: upd_obj_def bind_inode_def Let_def)
qed


section \<open>create and mkdir\<close>

text \<open>What is known of the new object and of the volume after a successful call.\<close>

definition added :: "world \<Rightarrow> Superinfo \<Rightarrow> inode_obj \<Rightarrow> stat_buffer_t option \<Rightarrow> world \<Rightarrow> bool" where
  "added w si obj st w' \<longleftrightarrow> table_ok w' \<and> obj_refcount obj = 1 \<and> st = Some (obj_dump_stat obj) \<and>
     obj_ino obj = si_max_ino si \<and> find_inode w' (si_max_ino si) = Some (next_addr w, obj) \<and>
     superinfo w' = Some (si\<lparr>si_max_ino := si_max_ino si + 1\<rparr>) \<and>
     local_cache w' = local_cache w \<and> volkey w' = volkey w"

lemma gen_rand_more: "host.more (snd (UUID_gen_rand e w)) = host.more w"
  by (simp add: UUID_gen_rand_def)

text \<open>
  The common tail of \<open>mkdir\<close> and \<open>create\<close>: the entry is appended to the directory, the new object is
  bound to the next inode number, the superinfo counts on, and what the host does changes only its own part.
\<close>

definition add_shape ::
    "world \<Rightarrow> Superinfo \<Rightarrow> nat \<Rightarrow> dirnode \<Rightarrow> string \<Rightarrow> 32 word \<Rightarrow> inode_obj \<Rightarrow> inode_obj \<Rightarrow> world \<Rightarrow> bool" where
  "add_shape w si a dn name ty obj0 obj w' \<longleftrightarrow>
     obj_ino obj = si_max_ino si \<and> obj_refcount obj = 1 \<and>
     (\<exists>u w0 w1. host.more w0 = host.more w \<and>
       host.more w1 = host.more (upd_obj a (DirObj (dn\<lparr>dn_dirent := dn_dirent dn @
         [\<lparr>de_ino = si_max_ino si, de_name = name, de_type = ty, de_uuid = u\<rparr>]\<rparr>)) w0) \<and>
       host.more w' = host.more (upd_obj (next_addr w1) obj
         ((bind_inode (si_max_ino si) obj0 w1)\<lparr>superinfo := Some (si\<lparr>si_max_ino := si_max_ino si + 1\<rparr>)\<rparr>)))"

lemma add_entry_added:
  assumes t: "table_ok w" and new: "inode_map w (si_max_ino si) = None"
    and p: "find_inode w parent = Some (a, DirObj dn)" and nm: "entries (dn_dirent dn) name = None"
    and sh: "add_shape w si a dn name ty obj0 obj w'"
  shows "added w si obj (Some (obj_dump_stat obj)) w'"
    and "view w' = (view w)(parent \<mapsto> DirNode ((entries (dn_dirent dn))(name \<mapsto> (si_max_ino si, ty))),
      si_max_ino si \<mapsto> obj_node obj)"
proof -
  let ?ino = "si_max_ino si"
  from sh obtain u w0 w1 where obj: "obj_ino obj = ?ino" "obj_refcount obj = 1" and m0: "host.more w0 = host.more w"
    and w1: "host.more w1 = host.more (upd_obj a (DirObj (dn\<lparr>dn_dirent := dn_dirent dn @
         [\<lparr>de_ino = ?ino, de_name = name, de_type = ty, de_uuid = u\<rparr>]\<rparr>)) w0)"
    and w': "host.more w' = host.more (upd_obj (next_addr w1) obj
         ((bind_inode ?ino obj0 w1)\<lparr>superinfo := Some (si\<lparr>si_max_ino := ?ino + 1\<rparr>)\<rparr>))"
    unfolding add_shape_def by blast
  note M = more_world [OF m0]
  have t0: "table_ok w0" using t by (simp only: table_ok_more [OF m0])
  have a0: "inode_map w0 parent = Some a" using p M by (simp add: find_inode_iff)
  have new0: "inode_map w0 ?ino = None" using new M by simp
  note A = add_entry_world [OF t0 a0 new0 w1 w']
  from A M obj show "added w si obj (Some (obj_dump_stat obj)) w'" by (simp add: added_def)
  have "entries (dn_dirent dn @ [\<lparr>de_ino = ?ino, de_name = name, de_type = ty, de_uuid = u\<rparr>]) =
      (entries (dn_dirent dn))(name \<mapsto> (?ino, ty))"
    using entries_append [of "dn_dirent dn" "\<lparr>de_ino = ?ino, de_name = name, de_type = ty, de_uuid = u\<rparr>"] nm by simp
  with A(2) show "view w' = (view w)(parent \<mapsto> DirNode ((entries (dn_dirent dn))(name \<mapsto> (?ino, ty))),
      ?ino \<mapsto> obj_node obj)"
    by (simp add: view_more [OF m0])
qed

lemmas ctor_defs = Dirnode_ctor_def Filenode_ctor_def Inode_ctor_def Metadata_ctor_def metadata.defs inode.defs

lemma create_shape:
  assumes si: "superinfo w = Some si"
    and p: "find_inode w parent = Some (a, DirObj dn)" and nm: "entries (dn_dirent dn) name = None"
  shows "\<exists>w' fn0 fn. ecall_fs_create e parent name w = Some (RC_OK, si_max_ino si, Some (Filenode_dump_stat fn), w') \<and>
    add_shape w si a dn name T_DT_REG (FileObj fn0) (FileObj fn) w' \<and> fn_size fn = 0 \<and> fn_chunks fn = []"
proof -
  obtain u w0 where g: "UUID_gen_rand e w = (u, w0)" by fastforce
  have m0: "host.more w0 = host.more w" using gen_rand_more [of e w] g by simp
  define ino where "ino = si_max_ino si"
  define dn' where "dn' = dn\<lparr>dn_dirent := dn_dirent dn @ [\<lparr>de_ino = ino, de_name = name, de_type = T_DT_REG, de_uuid = u\<rparr>]\<rparr>"
  define fn0 where "fn0 = (Filenode_ctor u (junk64 e w0) (junk64 e w0))\<lparr>in_ino := ino, fn_size := 0\<rparr>"
  define fn where "fn = fn0\<lparr>in_refcount := in_refcount fn0 + 1\<rparr>"
  define si' where "si' = si\<lparr>si_max_ino := ino + 1\<rparr>"
  define w1 where "w1 = snd (save_metadata e Dirnode_dump (md_uuid dn') dn' (upd_obj a (DirObj dn') w0))"
  define w' where "w' = snd (save_metadata e Filenode_dump (md_uuid fn) fn
      (snd (save_metadata e Superinfo_dump (md_uuid si') si'
        (upd_obj (next_addr w1) (FileObj fn) ((bind_inode ino (FileObj fn0) w1)\<lparr>superinfo := Some si'\<rparr>)))))"
  have "host.more w1 = host.more (upd_obj a (DirObj dn') w0)" "host.more w' = host.more
      (upd_obj (next_addr w1) (FileObj fn) ((bind_inode ino (FileObj fn0) w1)\<lparr>superinfo := Some (si\<lparr>si_max_ino := ino + 1\<rparr>)\<rparr>))"
    unfolding w1_def w'_def si'_def by (simp_all only: save_metadata_frame)
  moreover have fn: "obj_ino (FileObj fn) = ino" "obj_refcount (FileObj fn) = 1" "fn_size fn = 0" "fn_chunks fn = []"
    by (simp_all add: fn_def fn0_def ctor_defs)
  ultimately have "add_shape w si a dn name T_DT_REG (FileObj fn0) (FileObj fn) w'"
    unfolding add_shape_def ino_def dn'_def using m0 by blast
  moreover have "ecall_fs_create e parent name w = Some (RC_OK, ino, Some (Filenode_dump_stat fn), w')"
    unfolding w'_def w1_def si'_def fn_def fn0_def dn'_def ino_def
    using p nm si more_world(4) [OF m0] g by (simp add: ecall_fs_create_def entries_None Let_def
        Filenode_dump_stat_def Filenode_nlink_def)
  ultimately show ?thesis using fn(3,4) unfolding ino_def by blast
qed

lemma mkdir_shape:
  assumes si: "superinfo w = Some si"
    and p: "find_inode w parent = Some (a, DirObj dn)" and nm: "entries (dn_dirent dn) name = None"
  shows "\<exists>w' nd0 nd. ecall_fs_mkdir e parent name w = Some (RC_OK, si_max_ino si, Some (Dirnode_dump_stat nd), w') \<and>
    add_shape w si a dn name T_DT_DIR (DirObj nd0) (DirObj nd) w' \<and> dn_dirent nd = []"
proof -
  obtain u w0 where g: "UUID_gen_rand e w = (u, w0)" by fastforce
  have m0: "host.more w0 = host.more w" using gen_rand_more [of e w] g by simp
  define ino where "ino = si_max_ino si"
  define dn' where "dn' = dn\<lparr>dn_dirent := dn_dirent dn @ [\<lparr>de_ino = ino, de_name = name, de_type = T_DT_DIR, de_uuid = u\<rparr>]\<rparr>"
  define nd0 where "nd0 = (Dirnode_ctor u (junk64 e w0))\<lparr>in_ino := ino, dn_name := name, dn_dirent := []\<rparr>"
  define nd where "nd = nd0\<lparr>in_refcount := in_refcount nd0 + 1\<rparr>"
  define si' where "si' = si\<lparr>si_max_ino := ino + 1\<rparr>"
  define w1 where "w1 = snd (save_metadata e Dirnode_dump (md_uuid dn') dn' (upd_obj a (DirObj dn') w0))"
  define w' where "w' = snd (save_metadata e Dirnode_dump (md_uuid nd) nd
      (snd (save_metadata e Superinfo_dump (md_uuid si') si'
        (upd_obj (next_addr w1) (DirObj nd) ((bind_inode ino (DirObj nd0) w1)\<lparr>superinfo := Some si'\<rparr>)))))"
  have "host.more w1 = host.more (upd_obj a (DirObj dn') w0)" "host.more w' = host.more
      (upd_obj (next_addr w1) (DirObj nd) ((bind_inode ino (DirObj nd0) w1)\<lparr>superinfo := Some (si\<lparr>si_max_ino := ino + 1\<rparr>)\<rparr>))"
    unfolding w1_def w'_def si'_def by (simp_all only: save_metadata_frame)
  moreover have nd: "obj_ino (DirObj nd) = ino" "obj_refcount (DirObj nd) = 1" "dn_dirent nd = []"
    by (simp_all add: nd_def nd0_def ctor_defs)
  ultimately have "add_shape w si a dn name T_DT_DIR (DirObj nd0) (DirObj nd) w'"
    unfolding add_shape_def ino_def dn'_def using m0 by blast
  moreover have "ecall_fs_mkdir e parent name w = Some (RC_OK, ino, Some (Dirnode_dump_stat nd), w')"
    unfolding w'_def w1_def si'_def nd_def nd0_def dn'_def ino_def
    using p nm si more_world(4) [OF m0] g by (simp add: ecall_fs_mkdir_def entries_None Let_def
        Dirnode_dump_stat_def Dirnode_nlink_def Dirnode_dump_def)
  ultimately show ?thesis using nd(3) unfolding ino_def by blast
qed

lemma create_success:
  assumes "table_ok w" and si: "superinfo w = Some si" and "inode_map w (si_max_ino si) = None"
    and p: "find_inode w parent = Some (a, DirObj dn)" and nm: "entries (dn_dirent dn) name = None"
  shows "\<exists>w' st fn. ecall_fs_create e parent name w = Some (RC_OK, si_max_ino si, st, w') \<and>
    added w si (FileObj fn) st w' \<and> fn_size fn = 0 \<and> fn_chunks fn = [] \<and>
    view w' = (view w)(parent \<mapsto> DirNode ((entries (dn_dirent dn))(name \<mapsto> (si_max_ino si, T_DT_REG))),
      si_max_ino si \<mapsto> FileNode 0)"
  using create_shape [OF si p nm, of e] add_entry_added [OF assms(1,3) p nm] by fastforce

lemma mkdir_success:
  assumes "table_ok w" and si: "superinfo w = Some si" and "inode_map w (si_max_ino si) = None"
    and p: "find_inode w parent = Some (a, DirObj dn)" and nm: "entries (dn_dirent dn) name = None"
  shows "\<exists>w' st nd. ecall_fs_mkdir e parent name w = Some (RC_OK, si_max_ino si, st, w') \<and>
    added w si (DirObj nd) st w' \<and> dn_dirent nd = [] \<and>
    view w' = (view w)(parent \<mapsto> DirNode ((entries (dn_dirent dn))(name \<mapsto> (si_max_ino si, T_DT_DIR))),
      si_max_ino si \<mapsto> DirNode Map.empty)"
proof -
  have "entries [] = Map.empty" by (simp add: entries_def)
  then show ?thesis
    using mkdir_shape [OF si p nm, of e] add_entry_added [OF assms(1,3) p nm] by fastforce
qed

text \<open>On every branch.\<close>

lemma ecall_fs_create_ok:
  assumes t: "table_ok w" and si: "superinfo w = Some si" and new: "inode_map w (si_max_ino si) = None"
  shows "\<exists>r ino st w'. ecall_fs_create e parent name w = Some (r, ino, st, w') \<and>
    (r, ino, view w') = spec_add (si_max_ino si) parent name T_DT_REG (FileNode 0) (view w) \<and>
    (r \<noteq> RC_OK \<longrightarrow> st = None \<and> w' = w) \<and>
    (r = RC_OK \<longrightarrow> (\<exists>fn. added w si (FileObj fn) st w' \<and> fn_size fn = 0 \<and> fn_chunks fn = []))"
proof (cases "find_inode w parent")
  case None
  then show ?thesis by (simp add: ecall_fs_create_def spec_add_def view_none)
next
  case (Some p)
  obtain a obj where p: "p = (a, obj)" by fastforce
  show ?thesis
  proof (cases obj)
    case (FileObj fn)
    with Some p show ?thesis by (simp add: ecall_fs_create_def spec_add_def view_file)
  next
    case (DirObj dn)
    with Some p have f: "find_inode w parent = Some (a, DirObj dn)" by simp
    show ?thesis
    proof (cases "entries (dn_dirent dn) name")
      case None
      from create_success [OF t si new f None, of e] view_dir [OF f] None show ?thesis
        by (auto simp: spec_add_def)
    next
      case (Some x)
      then have "\<exists>d\<in>set (dn_dirent dn). de_name d = name"
        using entries_None [of "dn_dirent dn" name] by simp
      with f Some view_dir [OF f] show ?thesis by (simp add: ecall_fs_create_def spec_add_def)
    qed
  qed
qed

lemma ecall_fs_mkdir_ok:
  assumes t: "table_ok w" and si: "superinfo w = Some si" and new: "inode_map w (si_max_ino si) = None"
  shows "\<exists>r ino st w'. ecall_fs_mkdir e parent name w = Some (r, ino, st, w') \<and>
    (r, ino, view w') = spec_add (si_max_ino si) parent name T_DT_DIR (DirNode Map.empty) (view w) \<and>
    (r \<noteq> RC_OK \<longrightarrow> st = None \<and> w' = w) \<and>
    (r = RC_OK \<longrightarrow> (\<exists>dn. added w si (DirObj dn) st w' \<and> dn_dirent dn = []))"
proof (cases "find_inode w parent")
  case None
  then show ?thesis by (simp add: ecall_fs_mkdir_def spec_add_def view_none)
next
  case (Some p)
  obtain a obj where p: "p = (a, obj)" by fastforce
  show ?thesis
  proof (cases obj)
    case (FileObj fn)
    with Some p show ?thesis by (simp add: ecall_fs_mkdir_def spec_add_def view_file)
  next
    case (DirObj dn)
    with Some p have f: "find_inode w parent = Some (a, DirObj dn)" by simp
    show ?thesis
    proof (cases "entries (dn_dirent dn) name")
      case None
      from mkdir_success [OF t si new f None, of e] view_dir [OF f] None show ?thesis
        by (auto simp: spec_add_def)
    next
      case (Some x)
      then have "\<exists>d\<in>set (dn_dirent dn). de_name d = name"
        using entries_None [of "dn_dirent dn" name] by simp
      with f Some view_dir [OF f] show ?thesis by (simp add: ecall_fs_mkdir_def spec_add_def)
    qed
  qed
qed


section \<open>lookup and forget\<close>

lemma obj_node_refcount [simp]: "obj_node (obj_set_refcount n obj) = obj_node obj"
  by (cases obj) simp_all

lemma obj_fields_refcount [simp]:
  "obj_ino (obj_set_refcount n obj) = obj_ino obj" "obj_refcount (obj_set_refcount n obj) = n"
  "obj_set_refcount m (obj_set_refcount n obj) = obj_set_refcount m obj"
  "obj_set_refcount (obj_refcount obj) obj = obj"
  "obj_dump_stat (obj_set_refcount n obj) = obj_dump_stat obj"
  by (cases obj; simp add: Dirnode_dump_stat_def Dirnode_nlink_def Dirnode_dump_def Filenode_dump_stat_def
      Filenode_nlink_def)+

lemma lookup_known:
  assumes "find_inode w parent = Some (a, DirObj dn)"
    and "find (\<lambda>d. de_name d = name) (dn_dirent dn) = Some dent"
    and "find_inode w (de_ino dent) = Some (b, obj)" and "obj_ino obj = de_ino dent"
  shows "ecall_fs_lookup e parent name w = Some (RC_OK, de_ino dent, Some (obj_dump_stat obj),
    upd_obj b (obj_set_refcount (obj_refcount obj + 1) obj) w)"
  using assms by (simp add: ecall_fs_lookup_def lookup_fetch_def)

lemma lookup_fetch_cases:
  assumes t: "table_ok w" and lf: "lookup_fetch e dent w = Some (r, w')"
  shows "table_ok w' \<and> (\<forall>x. x \<noteq> de_ino dent \<or> view w x \<noteq> None \<longrightarrow> view w' x = view w x) \<and>
    (case r of Inl err \<Rightarrow> view w' = view w \<and> err \<in> {ENOENT, ENONET}
     | Inr (b, obj) \<Rightarrow> find_inode w' (de_ino dent) = Some (b, obj))"
proof (cases "find_inode w (de_ino dent)")
  case (Some p)
  with lf t show ?thesis by (auto simp: lookup_fetch_def)
next
  case None
  have L: "table_ok w1 \<and> view w1 = view w" if "host.more w1 = host.more w" for w1
    using t table_ok_more [OF that] view_more [OF that] by simp
  have B: "table_ok (bind_inode (de_ino dent) obj w1) \<and>
      (\<forall>x. x \<noteq> de_ino dent \<or> view w x \<noteq> None \<longrightarrow> view (bind_inode (de_ino dent) obj w1) x = view w x) \<and>
      find_inode (bind_inode (de_ino dent) obj w1) (de_ino dent) = Some (next_addr w1, obj)"
    if m: "host.more w1 = host.more w" for w1 obj
  proof -
    from L [OF m] have w1: "table_ok w1" "view w1 = view w" by auto
    moreover have "view w (de_ino dent) = None" using None by (simp add: view_none)
    ultimately show ?thesis
      by (auto simp: table_ok_bind_inode view_bind_inode find_inode_bind_inode)
  qed
  show ?thesis
  proof (cases "de_type dent = T_DT_DIR")
    case True
    with lf None obtain ok dn w1 where ld: "load_metadata e Dirnode_load (de_uuid dent)
        (Dirnode_ctor (de_uuid dent) (junk64 e w)) w = Some (ok, dn, w1)"
      and r: "(r, w') = (if \<not> ok then (Inl ENONET, w1)
        else (Inr (next_addr w1, DirObj dn), bind_inode (de_ino dent) (DirObj dn) w1))"
      by (auto simp: lookup_fetch_def split: bind_splits if_splits)
    from load_metadata_frame(1) [OF ld] r L [of w1] B [of w1 "DirObj dn"] show ?thesis
      by (auto split: if_splits)
  next
    case False
    show ?thesis
    proof (cases "de_type dent = T_DT_REG")
      case True
      with lf None False obtain ok fn w1 where ld: "load_metadata e Filenode_load (de_uuid dent)
          (Filenode_ctor (de_uuid dent) (junk64 e w) (junk64 e w)) w = Some (ok, fn, w1)"
        and r: "(r, w') = (if \<not> ok then (Inl ENONET, w1)
          else (Inr (next_addr w1, FileObj fn), bind_inode (de_ino dent) (FileObj fn) w1))"
        by (auto simp: lookup_fetch_def split: bind_splits if_splits)
      from load_metadata_frame(1) [OF ld] r L [of w1] B [of w1 "FileObj fn"] show ?thesis
        by (auto split: if_splits)
    next
      case no: False
      with lf None False t show ?thesis by (auto simp: lookup_fetch_def)
    qed
  qed
qed

text \<open>A lookup adds at most the inode it names, and keeps every inode known before.\<close>

lemma ecall_fs_lookup_ok:
  assumes t: "table_ok w" and lk: "ecall_fs_lookup e parent name w = Some (r, ino, st, w')"
  shows "table_ok w' \<and> (\<forall>x. view w x \<noteq> None \<longrightarrow> view w' x = view w x) \<and>
    (if r = RC_OK
     then (\<exists>es ty b obj. view w parent = Some (DirNode es) \<and> es name = Some (ino, ty) \<and>
       find_inode w' ino = Some (b, obj) \<and> obj_ino obj = ino \<and> st = Some (obj_dump_stat obj) \<and>
       (\<forall>x. x \<noteq> ino \<longrightarrow> view w' x = view w x))
     else r \<in> {ENOENT, ENONET} \<and> ino = 0 \<and> st = None)"
proof (cases "\<exists>a dn dent. find_inode w parent = Some (a, DirObj dn) \<and>
    find (\<lambda>d. de_name d = name) (dn_dirent dn) = Some dent")
  case False
  then have "r = ENOENT \<and> ino = 0 \<and> st = None \<and> w' = w"
    using lk by (auto simp: ecall_fs_lookup_def split: option.splits inode_obj.splits)
  then show ?thesis using t by simp
next
  case True
  then obtain a dn dent where p: "find_inode w parent = Some (a, DirObj dn)"
    and d: "find (\<lambda>d. de_name d = name) (dn_dirent dn) = Some dent" by blast
  with lk obtain r1 w1 where lf: "lookup_fetch e dent w = Some (r1, w1)"
    and res: "(case r1 of Inl err \<Rightarrow> Some (err, 0, None, w1)
       | Inr (b, obj) \<Rightarrow>
           if obj_ino obj \<noteq> de_ino dent then Some (ENOENT, 0, None, w1)
           else Some (RC_OK, de_ino dent, Some (obj_dump_stat obj),
             upd_obj b (obj_set_refcount (obj_refcount obj + 1) obj) w1)) = Some (r, ino, st, w')"
    by (auto simp: ecall_fs_lookup_def split: bind_splits)
  note C = lookup_fetch_cases [OF t lf]
  have es: "view w parent = Some (DirNode (entries (dn_dirent dn)))"
    "entries (dn_dirent dn) name = Some (de_ino dent, de_type dent)"
    using view_dir [OF p] d by (simp_all add: entries_find)
  show ?thesis
  proof (cases r1)
    case (Inl err)
    with C res t show ?thesis by auto
  next
    case (Inr bo)
    obtain b obj where bo: "bo = (b, obj)" by fastforce
    show ?thesis
    proof (cases "obj_ino obj = de_ino dent")
      case False
      with res Inr bo have "r = ENOENT" "ino = 0" "st = None" "w' = w1" by auto
      moreover have "table_ok w1" "\<And>x. view w x \<noteq> None \<Longrightarrow> view w1 x = view w x" using C by blast+
      ultimately show ?thesis by simp
    next
      case True
      let ?obj = "obj_set_refcount (obj_refcount obj + 1) obj"
      have f: "find_inode w1 (de_ino dent) = Some (b, obj)" and t1: "table_ok w1" using C Inr bo by auto
      then have im: "inode_map w1 (de_ino dent) = Some b" by (simp add: find_inode_iff)
      from res Inr bo True have R: "r = RC_OK" "ino = de_ino dent" "st = Some (obj_dump_stat obj)"
        "w' = upd_obj b ?obj w1" by auto
      have v: "view w' = view w1"
        using view_upd_obj [OF t1 im, of ?obj] f by (auto simp: R(4) view_def fun_eq_iff)
      have "find_inode w' (de_ino dent) = Some (b, ?obj)" using im by (simp add: R(4) find_inode_upd_obj)
      moreover have "table_ok w'" unfolding R(4) by (rule table_ok_upd_obj [OF t1])
      moreover have "obj_ino ?obj = ino" "st = Some (obj_dump_stat ?obj)" using True R by simp_all
      moreover have "\<And>x. view w x \<noteq> None \<Longrightarrow> view w1 x = view w x"
        "\<And>x. x \<noteq> ino \<Longrightarrow> view w1 x = view w x" using C R(2) by blast+
      ultimately show ?thesis using es R(1,2) unfolding v by (auto intro!: exI [of _ ?obj])
    qed
  qed
qed

text \<open>The counter is as long as an \<open>int\<close>; forgetting what was counted drops the inode.\<close>

lemma ecall_fs_forget_count:
  assumes f: "find_inode w ino = Some (a, obj)" and n: "unat n \<le> unat (obj_refcount obj)"
    and small: "unat (obj_refcount obj) < 2 ^ 31"
  shows "ecall_fs_forget ino n w = (int (unat (obj_refcount obj) - unat n),
    if unat n = unat (obj_refcount obj) then erase_inode ino w
    else upd_obj a (obj_set_refcount (of_nat (unat (obj_refcount obj) - unat n)) obj) w)"
proof -
  define r k where "r = unat (obj_refcount obj)" and "k = r - unat n"
  have rc: "ucast (obj_refcount obj) = (of_nat r :: size_t)" by (simp add: r_def)
  have "(ucast (obj_refcount obj) - n :: size_t) = of_nat k"
    unfolding rc k_def using n by (simp add: of_nat_diff r_def)
  then have c: "(ucast (ucast (obj_refcount obj) - n :: size_t) :: 32 word) = of_nat k"
    using small by (simp add: unsigned_of_nat take_bit_nat_eq_self r_def k_def)
  have s: "sint (of_nat k :: 32 word) = int k"
    using small by (simp add: signed_of_nat signed_take_bit_int_eq_self r_def k_def)
  have "k = 0 \<longleftrightarrow> unat n = r" using n by (auto simp: k_def r_def)
  then show ?thesis
    unfolding ecall_fs_forget_def f option.case prod.case Let_def c s r_def [symmetric] k_def [symmetric]
    by (simp split: if_split)
qed


section \<open>unlink and rmdir\<close>

lemma remove_metadata_files:
  assumes "host_reliable e" and "remove_metadata e u w = (ok, w')"
  shows "files w' = (files w)(UUID_unparse u := None)" and "ok = (files w (UUID_unparse u) \<noteq> None)"
proof -
  have sg: "sgx_enter e w = (True, tick w)" using assms(1) by (simp add: sgx_enter_def host_reliable_def)
  have "files w' = (files w)(UUID_unparse u := None) \<and> ok = (files w (UUID_unparse u) \<noteq> None)"
  proof (cases "files w (UUID_unparse u)")
    case None
    with store.del_absent [of "tick w" "UUID_unparse u" e] assms(2) show ?thesis
      by (auto simp: remove_metadata_def sg fun_upd_idem split: prod.splits if_splits)
  next
    case (Some b)
    then have "files (tick w) (UUID_unparse u) \<noteq> None" by simp
    from store.del_contents [OF assms(1) this] assms(2) Some show ?thesis
      by (auto simp: remove_metadata_def sg split: prod.splits if_splits)
  qed
  then show "files w' = (files w)(UUID_unparse u := None)" and "ok = (files w (UUID_unparse u) \<noteq> None)" by auto
qed

definition chunk_files :: "Chunk list \<Rightarrow> string set" where
  "chunk_files cks = UUID_unparse ` (ck_uuid ` set cks - {UUID_zero})"

lemma remove_chunks_files:
  assumes "host_reliable e"
  shows "files (remove_chunks e cks w) = (\<lambda>f. if f \<in> chunk_files cks then None else files w f)"
proof (induction cks arbitrary: w)
  case (Cons ck cks)
  obtain ok w' where rm: "remove_metadata e (ck_uuid ck) w = (ok, w')" by fastforce
  then have "remove_chunk e (ck_uuid ck) w = (ok, w')" by (simp add: remove_chunk_def remove_metadata_def)
  then have eq: "remove_chunks e (ck # cks) w = remove_chunks e cks (if ck_uuid ck \<noteq> UUID_zero then w' else w)"
    by simp
  have set: "chunk_files (ck # cks) = (if ck_uuid ck \<noteq> UUID_zero then {UUID_unparse (ck_uuid ck)} else {}) \<union> chunk_files cks"
    by (auto simp: chunk_files_def)
  then show ?case
  proof (cases "ck_uuid ck = UUID_zero")
    case False
    then show ?thesis
      unfolding eq Cons.IH set by (simp add: remove_metadata_files(1) [OF assms rm] fun_eq_iff)
  qed (simp add: Cons.IH set)
qed (simp add: chunk_files_def)

lemma Dirnode_storable_erase:
  assumes "Dirnode_storable dn"
  shows "Dirnode_storable (dn\<lparr>dn_dirent := erase_first P (dn_dirent dn)\<rparr>)"
proof -
  have "length (erase_first P ds) \<le> length ds" for ds :: "Dirent list" by (induction ds) auto
  from mult_le_mono2 [OF this, of sizeof_dirent "dn_dirent dn"] assms
  have "Dirnode_bytes (dn\<lparr>dn_dirent := erase_first P (dn_dirent dn)\<rparr>) < 2 ^ 32"
    by (simp add: Dirnode_storable_def Dirnode_bytes_def sizeof_dirent_def)
  with assms set_erase_first_subset [of P "dn_dirent dn"] show ?thesis
    by (simp add: Dirnode_storable_def) blast
qed

text \<open>The entry is gone from the directory in memory, and the directory has been saved without it.\<close>

definition entry_removed :: "'c env \<Rightarrow> world \<Rightarrow> nat \<Rightarrow> dirnode \<Rightarrow> string \<Rightarrow> world \<Rightarrow> bool" where
  "entry_removed e w a dn name w' \<longleftrightarrow>
     (let dn' = dn\<lparr>dn_dirent := erase_first (\<lambda>d. de_name d = name) (dn_dirent dn)\<rparr>
      in host.more w' = host.more (upd_obj a (DirObj dn') w) \<and>
        (\<exists>img. stored_meta e w' (md_uuid dn) img \<and>
          (\<forall>m0. Dirnode_fresh m0 dn' \<longrightarrow> Dirnode_load m0 img = Some (True, dn'))))"

lemma unlink_entry_ok:
  assumes e: "env_lawful e" "host_reliable e" and key: "length (volkey w) = VOLKEYSIZE" and st: "Dirnode_storable dn"
  shows "\<exists>w'. unlink_entry e a dn name w = (RC_OK, w') \<and> entry_removed e w a dn name w' \<and>
    (\<forall>f. f \<noteq> UUID_unparse (md_uuid dn) \<longrightarrow> files w' f = files w f)"
proof -
  define dn' where "dn' = dn\<lparr>dn_dirent := erase_first (\<lambda>d. de_name d = name) (dn_dirent dn)\<rparr>"
  have key': "length (volkey (upd_obj a (DirObj dn') w)) = VOLKEYSIZE" using key by (simp add: upd_obj_def)
  have "Dirnode_storable dn'" unfolding dn'_def by (rule Dirnode_storable_erase [OF st])
  from dirnode.save_metadata_ok [OF e key' this, of "md_uuid dn'"]
  obtain img w' where w': "save_metadata e Dirnode_dump (md_uuid dn') dn' (upd_obj a (DirObj dn') w) = (True, w')"
    "stored_meta e w' (md_uuid dn') img" "\<forall>m0. Dirnode_fresh m0 dn' \<longrightarrow> Dirnode_load m0 img = Some (True, dn')"
    "host.more w' = host.more (upd_obj a (DirObj dn') w)"
    "\<forall>f. f \<noteq> UUID_unparse (md_uuid dn') \<longrightarrow> files w' f = files (upd_obj a (DirObj dn') w) f" by (elim exE conjE) (rule that, assumption+)
  have u: "md_uuid dn' = md_uuid dn" "files (upd_obj a (DirObj dn') w) = files w" by (simp_all add: dn'_def upd_obj_def)
  have "unlink_entry e a dn name w = (RC_OK, w')"
    using w'(1) by (simp add: unlink_entry_def Let_def flip: dn'_def)
  moreover have "entry_removed e w a dn name w'"
    unfolding entry_removed_def Let_def dn'_def [symmetric]
    by (intro conjI exI [of _ img]) (rule w'(4), rule w'(2) [unfolded u(1)], rule w'(3))
  moreover have "\<forall>f. f \<noteq> UUID_unparse (md_uuid dn) \<longrightarrow> files w' f = files w f" using w'(5) unfolding u .
  ultimately show ?thesis by blast
qed

lemma view_entry_removed:
  assumes t: "table_ok w" and p: "find_inode w parent = Some (a, DirObj dn)"
    and d: "distinct (map de_name (dn_dirent dn))"
    and rm: "entry_removed e w0 a dn name w'" and w0: "host.more w0 = host.more w"
  shows "table_ok w'" and "view w' = (view w)(parent \<mapsto> DirNode ((entries (dn_dirent dn))(name := None)))"
proof -
  define dn' where "dn' = dn\<lparr>dn_dirent := erase_first (\<lambda>d. de_name d = name) (dn_dirent dn)\<rparr>"
  have m: "host.more w' = host.more (upd_obj a (DirObj dn') w0)"
    using rm by (simp add: entry_removed_def Let_def dn'_def)
  have t0: "table_ok w0" using t by (simp only: table_ok_more [OF w0])
  have a: "inode_map w0 parent = Some a" using p more_world(1) [OF w0] by (simp add: find_inode_iff)
  show "table_ok w'" using table_ok_upd_obj [OF t0] by (simp only: table_ok_more [OF m])
  show "view w' = (view w)(parent \<mapsto> DirNode ((entries (dn_dirent dn))(name := None)))"
    using entries_erase [OF d, of name]
    by (simp add: view_more [OF m] view_upd_obj [OF t0 a] view_more [OF w0] dn'_def)
qed

text \<open>The object of a sealed image in the store, as it is loaded into a blank object of class \<open>C\<close>.\<close>

definition stored_file :: "'c env \<Rightarrow> world \<Rightarrow> filenode \<Rightarrow> bool" where
  "stored_file e w fn \<longleftrightarrow> in_refcount fn = 0 \<and>
     (\<exists>img. stored_meta e w (md_uuid fn) img \<and>
       (\<forall>m0. Filenode_fresh m0 fn \<longrightarrow> Filenode_load m0 img = Some (True, fn)))"

definition stored_dir :: "'c env \<Rightarrow> world \<Rightarrow> dirnode \<Rightarrow> bool" where
  "stored_dir e w dn \<longleftrightarrow> in_refcount dn = 0 \<and>
     (\<exists>img. stored_meta e w (md_uuid dn) img \<and>
       (\<forall>m0. Dirnode_fresh m0 dn \<longrightarrow> Dirnode_load m0 img = Some (True, dn)))"

lemma load_stored_file:
  assumes "env_lawful e" "host_reliable e" and "stored_file e w fn"
  shows "\<exists>w'. load_metadata e Filenode_load (md_uuid fn) (Filenode_ctor (md_uuid fn) j k) w = Some (True, fn, w') \<and>
    host.more w' = host.more w \<and> files w' = files w"
proof -
  from assms(3) obtain img where img: "stored_meta e w (md_uuid fn) img" "in_refcount fn = 0"
    "\<And>m0. Filenode_fresh m0 fn \<Longrightarrow> Filenode_load m0 img = Some (True, fn)"
    by (auto simp: stored_file_def)
  then have "Filenode_load (Filenode_ctor (md_uuid fn) j k) img = Some (True, fn)"
    by (intro img(3)) (simp add: Filenode_fresh_def ctor_defs)
  with load_metadata_stored [OF assms(1,2) img(1), of Filenode_load "Filenode_ctor (md_uuid fn) j k"]
  show ?thesis by auto
qed

lemma load_stored_dir:
  assumes "env_lawful e" "host_reliable e" and "stored_dir e w dn"
  shows "\<exists>w'. load_metadata e Dirnode_load (md_uuid dn) (Dirnode_ctor (md_uuid dn) j) w = Some (True, dn, w') \<and>
    host.more w' = host.more w \<and> files w' = files w"
proof -
  from assms(3) obtain img where img: "stored_meta e w (md_uuid dn) img" "in_refcount dn = 0"
    "\<And>m0. Dirnode_fresh m0 dn \<Longrightarrow> Dirnode_load m0 img = Some (True, dn)"
    by (auto simp: stored_dir_def)
  then have "Dirnode_load (Dirnode_ctor (md_uuid dn) j) img = Some (True, dn)"
    by (intro img(3)) (simp add: Dirnode_fresh_def ctor_defs)
  with load_metadata_stored [OF assms(1,2) img(1), of Dirnode_load "Dirnode_ctor (md_uuid dn) j"]
  show ?thesis by auto
qed

lemma ecall_fs_unlink_ok:
  assumes e: "env_lawful e" "host_reliable e" and t: "table_ok w"
    and p: "find_inode w parent = Some (a, DirObj dn)" and st: "Dirnode_storable dn"
    and d: "distinct (map de_name (dn_dirent dn))"
    and dent: "dent \<in> set (dn_dirent dn)" "de_name dent = name" "de_type dent \<noteq> T_DT_DIR"
    and fn: "stored_file e w fn" "md_uuid fn = de_uuid dent"
  shows "\<exists>w'. ecall_fs_unlink e parent name w = Some (RC_OK, w') \<and> table_ok w' \<and>
    view w' = (view w)(parent \<mapsto> DirNode ((entries (dn_dirent dn))(name := None))) \<and>
    (\<forall>f. f \<noteq> UUID_unparse (md_uuid dn) \<longrightarrow> files w' f =
      (if f = UUID_unparse (de_uuid dent) \<or> f \<in> chunk_files (fn_chunks fn) then None else files w f))"
proof -
  have find: "find (\<lambda>d. de_name d = name) (dn_dirent dn) = Some dent"
    using find_key_unique [OF d dent(1,2)] .
  from load_stored_file [OF e fn(1), of "junk64 e w" "junk64 e w"] fn(2) obtain w1 where
    ld: "load_metadata e Filenode_load (de_uuid dent) (Filenode_ctor (de_uuid dent) (junk64 e w) (junk64 e w)) w =
      Some (True, fn, w1)" and w1: "host.more w1 = host.more w" "files w1 = files w" by auto
  obtain ok w2 where rm: "remove_metadata e (de_uuid dent) w1 = (ok, w2)" by fastforce
  have key: "length (volkey w) = VOLKEYSIZE" and ex: "files w (UUID_unparse (de_uuid dent)) \<noteq> None"
    using fn by (auto simp: stored_file_def stored_meta_def)
  note F = remove_metadata_files [OF e(2) rm]
  have ok: "ok" using F(2) w1(2) ex by simp
  let ?w3 = "remove_chunks e (fn_chunks fn) w2"
  have w3: "host.more ?w3 = host.more w"
    by (simp only: remove_chunks_frame remove_metadata_frame(1) [OF rm] w1(1))
  have "length (volkey ?w3) = VOLKEYSIZE" using key more_world(5) [OF w3] by simp
  from unlink_entry_ok [OF e this st] obtain w' where w':
    "unlink_entry e a dn name ?w3 = (RC_OK, w')" "entry_removed e ?w3 a dn name w'"
    "\<forall>f. f \<noteq> UUID_unparse (md_uuid dn) \<longrightarrow> files w' f = files ?w3 f" by blast
  have "ecall_fs_unlink e parent name w = Some (RC_OK, w')"
    using p find dent(3) ld rm ok w'(1) by (simp add: ecall_fs_unlink_def)
  moreover note view_entry_removed [OF t p d w'(2) w3]
  moreover have "\<forall>f. f \<noteq> UUID_unparse (md_uuid dn) \<longrightarrow> files w' f =
      (if f = UUID_unparse (de_uuid dent) \<or> f \<in> chunk_files (fn_chunks fn) then None else files w f)"
    using w'(3) F(1) w1(2) by (simp add: remove_chunks_files [OF e(2)])
  ultimately show ?thesis by blast
qed

lemma ecall_fs_rmdir_ok:
  assumes e: "env_lawful e" "host_reliable e" and t: "table_ok w"
    and p: "find_inode w parent = Some (a, DirObj dn)" and st: "Dirnode_storable dn"
    and d: "distinct (map de_name (dn_dirent dn))"
    and dent: "dent \<in> set (dn_dirent dn)" "de_name dent = name" "de_type dent = T_DT_DIR"
    and cd: "stored_dir e w cd" "md_uuid cd = de_uuid dent"
  shows "\<exists>r w'. ecall_fs_rmdir e parent name w = Some (r, w') \<and> table_ok w' \<and>
    (if dn_dirent cd = [] then r = RC_OK \<and>
       view w' = (view w)(parent \<mapsto> DirNode ((entries (dn_dirent dn))(name := None))) \<and>
       (\<forall>f. f \<noteq> UUID_unparse (md_uuid dn) \<longrightarrow> files w' f =
         (if f = UUID_unparse (de_uuid dent) then None else files w f))
     else r = ENOTEMPTY \<and> view w' = view w \<and> files w' = files w)"
proof -
  have find: "find (\<lambda>d. de_name d = name) (dn_dirent dn) = Some dent"
    using find_key_unique [OF d dent(1,2)] .
  from load_stored_dir [OF e cd(1), of "junk64 e w"] cd(2) obtain w1 where
    ld: "load_metadata e Dirnode_load (de_uuid dent) (Dirnode_ctor (de_uuid dent) (junk64 e w)) w =
      Some (True, cd, w1)" and w1: "host.more w1 = host.more w" "files w1 = files w" by auto
  show ?thesis
  proof (cases "dn_dirent cd")
    case (Cons x xs)
    then have "ecall_fs_rmdir e parent name w = Some (ENOTEMPTY, w1)"
      using p find dent(3) ld by (simp add: ecall_fs_rmdir_def)
    then show ?thesis using t w1 Cons by (simp add: table_ok_more [OF w1(1)] view_more [OF w1(1)])
  next
    case Nil
    obtain ok w2 where rm: "remove_metadata e (de_uuid dent) w1 = (ok, w2)" by fastforce
    have key: "length (volkey w) = VOLKEYSIZE" and ex: "files w (UUID_unparse (de_uuid dent)) \<noteq> None"
      using cd by (auto simp: stored_dir_def stored_meta_def)
    note F = remove_metadata_files [OF e(2) rm]
    have w2: "host.more w2 = host.more w" by (simp only: remove_metadata_frame(1) [OF rm] w1(1))
    have "length (volkey w2) = VOLKEYSIZE" using key more_world(5) [OF w2] by simp
    from unlink_entry_ok [OF e this st] obtain w' where w':
      "unlink_entry e a dn name w2 = (RC_OK, w')" "entry_removed e w2 a dn name w'"
      "\<forall>f. f \<noteq> UUID_unparse (md_uuid dn) \<longrightarrow> files w' f = files w2 f" by blast
    have "ecall_fs_rmdir e parent name w = Some (RC_OK, w')"
      using p find dent(3) ld Nil rm F(2) w1(2) ex w'(1) by (simp add: ecall_fs_rmdir_def)
    with view_entry_removed [OF t p d w'(2) w2] w'(3) F(1) w1(2) Nil show ?thesis by simp
  qed
qed

end
