(* ===== verification/Truncate.thy ===== *)
theory Truncate
  imports Dir_Ops
begin

text \<open>
  Opening a file with \<open>O_TRUNC\<close>: the chunks leave the store and the file, but not the cache.  When none of
  them is cached, truncation is right on any host; when one is, it refers to an index the file no
  longer has, and the turn of the cache that would evict it is undefined.
\<close>

section \<open>The effect of truncation\<close>

text \<open>Whatever calls fail, removing chunks concerns their files only.\<close>

lemma remove_chunks_other:
  "f \<notin> chunk_files cks \<Longrightarrow> files (remove_chunks e cks w) f = files w f"
proof (induction cks arbitrary: w)
  case (Cons ck cks)
  obtain ok w' where rm: "remove_metadata e (ck_uuid ck) w = (ok, w')" by fastforce
  then have "remove_chunk e (ck_uuid ck) w = (ok, w')" by (simp add: remove_chunk_def remove_metadata_def)
  then have eq: "remove_chunks e (ck # cks) w = remove_chunks e cks (if ck_uuid ck \<noteq> UUID_zero then w' else w)" by simp
  have f: "f \<notin> chunk_files cks" "ck_uuid ck \<noteq> UUID_zero \<Longrightarrow> f \<noteq> UUID_unparse (ck_uuid ck)"
    using Cons.prems by (auto simp: chunk_files_def)
  show ?case unfolding eq Cons.IH [OF f(1)] using f(2) remove_metadata_frame(3) [OF rm] by simp
qed simp

definition truncated :: "'c env \<Rightarrow> nat \<Rightarrow> filenode \<Rightarrow> world \<Rightarrow> world" where
  "truncated e a fn w = upd_obj a (FileObj (fn\<lparr>fn_chunks := [], fn_size := 0\<rparr>)) (remove_chunks e (fn_chunks fn) w)"

lemma open_truncates:
  assumes "find_inode w ino = Some (a, FileObj fn)" and "flags AND OF_TRUNC \<noteq> 0"
  shows "ecall_fs_open e ino flags w = (RC_OK, truncated e a fn w)"
  using assms by (simp add: ecall_fs_open_def truncated_def Let_def)

lemma truncated_fields [simp]:
  "heap (truncated e a fn w) = (heap w)(a \<mapsto> FileObj (fn\<lparr>fn_chunks := [], fn_size := 0\<rparr>))"
  "local_cache (truncated e a fn w) = local_cache w" "volkey (truncated e a fn w) = volkey w"
  "f \<notin> chunk_files (fn_chunks fn) \<Longrightarrow> files (truncated e a fn w) f = files w f"
proof -
  note M = more_world [OF remove_chunks_frame(1) [of e "fn_chunks fn" w]]
  show "heap (truncated e a fn w) = (heap w)(a \<mapsto> FileObj (fn\<lparr>fn_chunks := [], fn_size := 0\<rparr>))"
    "local_cache (truncated e a fn w) = local_cache w" "volkey (truncated e a fn w) = volkey w"
    by (simp_all add: truncated_def upd_obj_def M)
  show "f \<notin> chunk_files (fn_chunks fn) \<Longrightarrow> files (truncated e a fn w) f = files w f"
    by (simp add: truncated_def upd_obj_def remove_chunks_other)
qed

lemma truncated_chunk_at: "chunk_at (truncated e a fn w) b j = (if b = a then None else chunk_at w b j)"
  by (simp add: chunk_at_def)

text \<open>The chunks of the other files keep their contents: no UUID belongs to two chunks.\<close>

lemma truncated_stored:
  assumes "uuids_unique w" and h: "heap w a = Some (FileObj fn)" and "chunk_at w b j = Some ck" and "b \<noteq> a"
    and "ck_uuid ck \<noteq> UUID_zero"
  shows "stored_chunk e (truncated e a fn w) ck = stored_chunk e w ck"
proof -
  have "ck_uuid ck \<noteq> ck_uuid (fn_chunks fn ! i)" if "i < length (fn_chunks fn)" for i
    using assms(1,3-5) h that unfolding uuids_unique_def by (metis chunk_at_nth_opt nth_opt_def)
  then have "ck_uuid ck \<notin> ck_uuid ` set (fn_chunks fn)" by (metis imageE in_set_conv_nth)
  then have "UUID_unparse (ck_uuid ck) \<notin> chunk_files (fn_chunks fn)"
    by (auto simp: chunk_files_def UUID_unparse_inject)
  then show ?thesis by (intro stored_chunk_cong) simp_all
qed

lemma truncated_loc_content:
  assumes "uuids_unique w" and "heap w a = Some (FileObj fn)" and "b \<noteq> a"
  shows "loc_content e (truncated e a fn w) b j = loc_content e w b j"
  using assms(3) truncated_stored [OF assms(1,2) _ assms(3)]
  by (auto simp: loc_content_def truncated_chunk_at chunk_content_def split: option.splits
      intro!: option.map_cong0) 

lemma truncated_data_ok:
  assumes ok: "data_ok e w" and h: "heap w a = Some (FileObj fn)"
    and free: "\<forall>c\<in>set (cs_items (local_cache w)). cc_filenode c \<noteq> a"
  shows "data_ok e (truncated e a fn w)"
proof -
  let ?w = "truncated e a fn w"
  have uq: "uuids_unique w" using ok by (simp add: data_ok_def data_inv_def)
  have "uuids_unique ?w"
    using uq unfolding uuids_unique_def truncated_chunk_at by (metis option.distinct(1))
  moreover have "cached_ok e ?w c" if "c \<in> set (cs_items (local_cache w))" for c
  proof -
    from ok that have "cached_ok e w c" by (simp add: data_ok_def data_inv_def)
    then obtain ck where ck: "chunk_at w (cc_filenode c) (unat (cc_idx c)) = Some ck" "ck_uuid ck = cc_uuid c"
      "cc_uuid c \<noteq> UUID_zero" "length (cc_data c) = CHUNKSIZE" "cc_modified c \<or> stored_chunk e w ck = Some (cc_data c)"
      by (auto simp: cached_ok_def)
    have "cc_filenode c \<noteq> a" using free that by simp
    with ck truncated_stored [OF uq h ck(1), where e = e] show ?thesis by (auto simp: cached_ok_def truncated_chunk_at)
  qed
  ultimately show ?thesis using ok by (simp add: data_ok_def data_inv_def)
qed

section \<open>A clean truncation\<close>

text \<open>
  C20.  \<open>O_TRUNC\<close> empties the file: when none of its chunks is cached, it holds no bytes afterwards, every
  other file keeps its contents, and the agreement of cache, files and store is kept, also on a host
  that fails to remove the chunks.
\<close>

theorem truncate_empties:
  assumes "data_ok e w" and "find_inode w ino = Some (a, FileObj fn)" and "flags AND OF_TRUNC \<noteq> 0"
    and "\<forall>c\<in>set (cs_items (local_cache w)). cc_filenode c \<noteq> a"
  shows "\<exists>w'. ecall_fs_open e ino flags w = (RC_OK, w') \<and> data_ok e w' \<and> holds e w' a [] \<and>
    (\<forall>b bs. b \<noteq> a \<longrightarrow> holds e w b bs \<longrightarrow> holds e w' b bs)"
proof -
  let ?w = "truncated e a fn w"
  have h: "heap w a = Some (FileObj fn)" using find_inode_heap [OF assms(2)] by simp
  have uq: "uuids_unique w" using assms(1) by (simp add: data_ok_def data_inv_def)
  have "holds e ?w a []"
    by (simp add: holds_def blocks_def file_wf_def CHUNKSIZE_def)
  moreover have "holds e ?w b bs" if "b \<noteq> a" "holds e w b bs" for b bs
    using that truncated_loc_content [OF uq h that(1)]
    by (intro holds_cong [OF _ _ that(2)]) (simp_all add: heap_skel_def)
  ultimately show ?thesis
    using open_truncates [OF assms(2,3)] truncated_data_ok [OF assms(1) h assms(4)] by blast
qed

lemma sample_no_cache: "cs_items (local_cache sample_world) = []"
  by (simp add: sample_world_def)

theorem truncate_empties_witness:
  "\<exists>w'. ecall_fs_open sample_env 5 OF_TRUNC sample_world = (RC_OK, w') \<and> holds sample_env w' 1 []"
  using truncate_empties [OF sample_data_ok sample_find(1), of OF_TRUNC]
  by (auto simp: OF_TRUNC_def sample_no_cache)

section \<open>A cached chunk of a truncated file\<close>

lemma truncated_dangling: "cc_filenode c = a \<Longrightarrow> ChunkCache_chunk (truncated e a fn w\<lparr>local_cache := st\<rparr>) c = None"
  by (simp add: ChunkCache_chunk_def)

text \<open>Putting one more chunk into a full cache turns out the oldest one.\<close>

lemma save_chunk_full:
  assumes "cs_inv (local_cache w)" and "cs_items (local_cache w) = c # rest" and "Suc (length rest) = MAX_CACHE_NUM"
    and "ChunkCache_chunk w d = Some ck" and "cs_lookup (ck_uuid ck) (local_cache w) = None"
    and "\<And>st. ChunkCache_chunk (w\<lparr>local_cache := st\<rparr>) c = None"
  shows "save_chunk e d w = None"
proof -
  obtain it st where push: "ChunkStore_push_get_back (ck_uuid ck) d (local_cache w) = Some (it, st)"
    using push_get_back_eq [OF assms(1)] by blast
  then have "ChunkStore_push (d\<lparr>cc_uuid := ck_uuid ck\<rparr>) (local_cache w) = Some st"
    using push_get_back_push [of "ck_uuid ck" d "local_cache w"] by simp
  with cs.push_ok [OF assms(1), of "d\<lparr>cc_uuid := ck_uuid ck\<rparr>"] have st: "cs_inv st"
    "cs_items st = filter (\<lambda>x. cc_uuid x \<noteq> ck_uuid ck) (cs_items (local_cache w)) @ [d\<lparr>cc_uuid := ck_uuid ck\<rparr>]" by auto
  have "filter (\<lambda>x. cc_uuid x \<noteq> ck_uuid ck) (cs_items (local_cache w)) = cs_items (local_cache w)"
    using assms(5) by (auto simp: cs_lookup_def find_None_iff filter_id_conv)
  with st(2) assms(2) have items: "cs_items st = c # rest @ [d\<lparr>cc_uuid := ck_uuid ck\<rparr>]" by simp
  from get_pop_front_eq [OF st(1) this] obtain st' where pop: "ChunkStore_get_pop_front st = Some (c, st')" by blast
  have "\<not> length (kl_nodes st) \<le> MAX_CACHE_NUM" using items assms(3) by (simp flip: length_items)
  with pop assms(6) have "evict_chunks e (w\<lparr>local_cache := st\<rparr>) = None" by (subst evict_chunks.simps) simp
  with assms(4) push show ?thesis by (simp add: save_chunk_def)
qed

text \<open>
  C21.  After \<open>O_TRUNC\<close> on a file whose chunk is the oldest of a full cache, that chunk is still cached and
  refers to an index the file does not have: caching a modified chunk of another file, which succeeds
  before the truncation, is undefined after it.
\<close>

theorem truncate_leaves_cached_chunks:
  assumes "env_lawful e" and "host_reliable e" and "data_ok e w" and "find_inode w ino = Some (a, FileObj fn)"
    and "flags AND OF_TRUNC \<noteq> 0"
    and "cs_items (local_cache w) = c # rest" and "Suc (length rest) = MAX_CACHE_NUM" and "cc_filenode c = a"
    and "ChunkCache_chunk w d = Some ck" and "cc_filenode d \<noteq> a" and "ck_uuid ck \<noteq> UUID_zero"
    and "cs_lookup (ck_uuid ck) (local_cache w) = None" and "length (cc_data d) = CHUNKSIZE" and "cc_modified d"
  shows "\<exists>w' w1. save_chunk e d w = Some (True, w1) \<and> ecall_fs_open e ino flags w = (RC_OK, w') \<and>
    c \<in> set (cs_items (local_cache w')) \<and> ChunkCache_chunk w' c = None \<and> save_chunk e d w' = None"
proof -
  let ?w = "truncated e a fn w"
  note inv = data_okD [OF assms(3)]
  from save_chunk_ok [OF assms(1,2) inv, of d ck] assms(9,11,13,14) obtain w1 where
    before: "save_chunk e d w = Some (True, w1)" by (auto simp: ChunkCache_chunk_at)
  have dangling: "ChunkCache_chunk (?w\<lparr>local_cache := st\<rparr>) c = None" for st by (rule truncated_dangling [OF assms(8)])
  from dangling [of "local_cache w"] have "ChunkCache_chunk ?w c = None" by (simp add: ChunkCache_chunk_def)
  moreover have "ChunkCache_chunk ?w d = Some ck"
    using assms(9,10) by (simp add: ChunkCache_chunk_at truncated_chunk_at)
  then have "save_chunk e d ?w = None"
    using save_chunk_full [of ?w c rest d ck e] data_invD(1) [OF inv] assms(6,7,12) dangling by simp
  moreover have "c \<in> set (cs_items (local_cache ?w))" by (simp add: assms(6))
  ultimately show ?thesis using before open_truncates [OF assms(4,5), of e] by blast
qed

text \<open>A file of eight cached chunks, which fill the cache, and another file of one chunk.\<close>

definition full_chunk :: "nat \<Rightarrow> Chunk" where
  "full_chunk i = \<lparr>ck_uuid = 200 + of_nat i, ck_iv = 0, ck_tag = 0\<rparr>"

definition full_cache :: "nat \<Rightarrow> ChunkCache" where
  "full_cache i = \<lparr>cc_uuid = 200 + of_nat i, cc_data = replicate CHUNKSIZE 7, cc_modified = True,
     cc_filenode = (if i < 8 then 1 else 2), cc_idx = (if i < 8 then of_nat i else 0)\<rparr>"

definition full_world :: world where
  "full_world = sample_world\<lparr>
     heap := [0 \<mapsto> DirObj sample_root,
       1 \<mapsto> FileObj (sample_file\<lparr>fn_size := 8 * 4096, fn_chunks := map full_chunk [0..<8]\<rparr>),
       2 \<mapsto> FileObj (sample_file\<lparr>in_ino := 6, fn_size := 4096, fn_chunks := [full_chunk 8]\<rparr>)],
     local_cache := \<lparr>kl_nodes = map (\<lambda>i. (i, full_cache i)) [0..<8],
       kl_map = (\<lambda>u. if 200 \<le> u \<and> u < 208 then Some (unat (u - 200)) else None), kl_next = 8\<rparr>\<rparr>"

lemma full_chunk_at: "chunk_at full_world b j =
    (if b = 1 \<and> j < 8 then Some (full_chunk j) else if b = 2 \<and> j = 0 then Some (full_chunk 8) else None)"
  by (simp add: chunk_at_def full_world_def sample_root_def sample_file_def)

lemma full_items: "cs_items (local_cache full_world) = map full_cache [0..<8]"
  by (simp add: full_world_def cs_items_def kl_values_def)

lemma full_uuid: "i < 9 \<Longrightarrow> unat (200 + of_nat i :: uuid) = 200 + i"
  by (simp add: unat_word_ariths(1) unat_of_nat take_bit_eq_mod)

lemma full_inv: "cs_inv (local_cache full_world)"
proof -
  have "kl_map (local_cache full_world) (cc_uuid (full_cache i)) = Some i" if "i < 8" for i
  proof -
    have "200 \<le> (200 + of_nat i :: uuid)" "(200 + of_nat i :: uuid) < 208"
      using full_uuid [of i] that by (simp_all add: word_le_nat_alt word_less_nat_alt)
    moreover have "unat (of_nat i :: uuid) = i" using that by (simp add: unat_of_nat take_bit_eq_mod)
    ultimately show ?thesis by (simp add: full_world_def full_cache_def)
  qed
  moreover have "\<exists>v. (i, v) \<in> set (kl_nodes (local_cache full_world)) \<and> cc_uuid v = u"
    if "kl_map (local_cache full_world) u = Some i" for u i
  proof -
    from that have u: "200 \<le> u" "u < 208" "i = unat (u - 200)"
      by (auto simp: full_world_def split: if_splits)
    then have "unat (u - 200) = unat u - 200" by (subst unat_sub) simp_all
    with u have i: "i < 8" by (simp add: word_le_nat_alt word_less_nat_alt)
    have "cc_uuid (full_cache i) = u" using u(3) by (simp add: full_cache_def)
    moreover have "(i, full_cache i) \<in> set (kl_nodes (local_cache full_world))" using i by (simp add: full_world_def)
    ultimately show ?thesis by blast
  qed
  moreover have "kl_nodes (local_cache full_world) = map (\<lambda>i. (i, full_cache i)) [0..<8]"
    "kl_next (local_cache full_world) = 8" by (simp_all add: full_world_def)
  ultimately show ?thesis by (auto simp: kl_inv_def comp_def)
qed

lemma full_data_ok: "data_ok sample_env full_world"
proof -
  have inj: "i = j" if "ck_uuid (full_chunk i) = ck_uuid (full_chunk j)" "i < 9" "j < 9" for i j
  proof -
    have "200 + i = 200 + j"
      using that full_uuid [of i] full_uuid [of j] unfolding full_chunk_def by (metis Chunk.select_convs(1))
    then show ?thesis by simp
  qed
  have at: "(j < 8 \<and> b = 1 \<and> ck = full_chunk j) \<or> (j = 0 \<and> b = 2 \<and> ck = full_chunk 8)"
    if "chunk_at full_world b j = Some ck" for b j ck
    using that by (simp add: full_chunk_at split: if_splits)
  have "uuids_unique full_world"
    unfolding uuids_unique_def
  proof (intro allI impI)
    fix b i b' j ck ck'
    assume "chunk_at full_world b i = Some ck \<and> chunk_at full_world b' j = Some ck' \<and>
      ck_uuid ck = ck_uuid ck' \<and> ck_uuid ck \<noteq> UUID_zero"
    with at [of b i ck] at [of b' j ck']
    show "b = b' \<and> i = j" by (elim conjE disjE) (auto dest: inj)
  qed
  moreover have "cached_ok sample_env full_world (full_cache i)" if "i < 8" for i
  proof -
    have "unat (of_nat i :: size_t) = i" using that by (simp add: unat_of_nat take_bit_eq_mod)
    moreover have "(200 + of_nat i :: uuid) \<noteq> 0" using full_uuid [of i] that by auto
    ultimately show ?thesis
      using that by (simp add: cached_ok_def full_chunk_at full_cache_def full_chunk_def UUID_zero_def)
  qed
  moreover have "length (volkey full_world) = VOLKEYSIZE" by (simp add: full_world_def sample_world_def)
  ultimately show ?thesis by (simp add: data_ok_def data_inv_def full_items full_inv MAX_CACHE_NUM_def)
qed

theorem truncate_leaves_cached_chunks_witness:
  "\<exists>w' w1. save_chunk sample_env (full_cache 8) full_world = Some (True, w1) \<and>
    ecall_fs_open sample_env 5 OF_TRUNC full_world = (RC_OK, w') \<and> save_chunk sample_env (full_cache 8) w' = None"
proof -
  have "find_inode full_world 5 = Some (1, FileObj (sample_file\<lparr>fn_size := 8 * 4096, fn_chunks := map full_chunk [0..<8]\<rparr>))"
    by (simp add: find_inode_def full_world_def) (simp add: sample_world_def)
  moreover have "cs_items (local_cache full_world) = full_cache 0 # map full_cache [1..<8]"
    by (simp add: full_items upt_conv_Cons)
  moreover have "ChunkCache_chunk full_world (full_cache 8) = Some (full_chunk 8)"
    by (simp add: ChunkCache_chunk_at full_chunk_at) (simp add: full_cache_def)
  moreover have "cs_lookup (ck_uuid (full_chunk 8)) (local_cache full_world) = None"
  proof -
    have "cc_uuid (full_cache i) \<noteq> ck_uuid (full_chunk 8)" if "i < 8" for i
    proof
      assume "cc_uuid (full_cache i) = ck_uuid (full_chunk 8)"
      then have "unat (200 + of_nat i :: uuid) = unat (200 + of_nat 8 :: uuid)"
        unfolding full_cache_def full_chunk_def by (simp only: ChunkCache.select_convs Chunk.select_convs)
      with full_uuid [of i] full_uuid [of 8] that show False by simp
    qed
    then show ?thesis by (auto simp: cs_lookup_def find_None_iff full_items)
  qed
  moreover have "Suc (length (map full_cache [1..<8])) = MAX_CACHE_NUM" by (simp add: MAX_CACHE_NUM_def)
  moreover have "OF_TRUNC AND OF_TRUNC \<noteq> 0" by (simp add: OF_TRUNC_def)
  moreover have "cc_filenode (full_cache 0) = 1" "cc_filenode (full_cache 8) \<noteq> 1"
    "length (cc_data (full_cache 8)) = CHUNKSIZE" "cc_modified (full_cache 8)"
    by (simp_all add: full_cache_def)
  moreover have "ck_uuid (full_chunk 8) \<noteq> UUID_zero" by (simp add: full_chunk_def UUID_zero_def)
  ultimately obtain w' w1 where
    "save_chunk sample_env (full_cache 8) full_world = Some (True, w1)"
    "ecall_fs_open sample_env 5 OF_TRUNC full_world = (RC_OK, w')" "save_chunk sample_env (full_cache 8) w' = None"
    using truncate_leaves_cached_chunks [OF sample_env_lawful sample_env_reliable full_data_ok] by blast
  then show ?thesis by blast
qed

end
