(* ===== verification/Reachable.thy ===== *)
theory Reachable
  imports Dir_Ops
begin

text \<open>
  The enclave as a state machine.  A step is one call of a handler, with any arguments, that returns;
  or a step of the host, which may change the files and everything else outside in any way.  The
  invariant \<open>enclave_ok\<close> holds in every state that can be reached from one where it holds, whatever the
  host and the parameters of the environment do.
\<close>

section \<open>Classes of objects and pointers to them\<close>

fun is_file :: "inode_obj \<Rightarrow> bool" where
  "is_file (FileObj _) = True"
| "is_file (DirObj _) = False"

definition kinds :: "world \<Rightarrow> nat \<rightharpoonup> bool" where
  "kinds w a = map_option is_file (heap w a)"

lemma kinds_None [simp]: "kinds w a = None \<longleftrightarrow> heap w a = None"
  by (simp add: kinds_def)

lemma kinds_file: "heap w a = Some (FileObj fn) \<Longrightarrow> kinds w a = Some True"
  by (simp add: kinds_def)

text \<open>A weak pointer to a file: its target has expired or is a file.\<close>

definition ptr_ok :: "world \<Rightarrow> nat \<Rightarrow> bool" where
  "ptr_ok w a \<longleftrightarrow> a < next_addr w \<and> kinds w a \<noteq> Some False"

definition cache_ok :: "world \<Rightarrow> bool" where
  "cache_ok w \<longleftrightarrow> cs_inv (local_cache w) \<and> length (cs_items (local_cache w)) \<le> MAX_CACHE_NUM \<and>
     (\<forall>c\<in>set (cs_items (local_cache w)). ptr_ok w (cc_filenode c))"

definition heap_bounded :: "world \<Rightarrow> bool" where
  "heap_bounded w \<longleftrightarrow> (\<forall>a. heap w a \<noteq> None \<longrightarrow> a < next_addr w)"

text \<open>Every object is owned by the inode table, which leads to it by one number.\<close>

definition enclave_ok :: "world \<Rightarrow> bool" where
  "enclave_ok w \<longleftrightarrow> table_ok w \<and> (\<forall>a. heap w a \<noteq> None \<longrightarrow> a \<in> ran (inode_map w)) \<and>
     superinfo w \<noteq> None \<and> cache_ok w"

lemma enclave_ok_bounded: "enclave_ok w \<Longrightarrow> heap_bounded w"
  by (auto simp: enclave_ok_def heap_bounded_def ran_def dest: table_okD(1))

section \<open>Steps that keep the table\<close>

definition same_table :: "world \<Rightarrow> world \<Rightarrow> bool" where
  "same_table w w' \<longleftrightarrow> inode_map w' = inode_map w \<and> next_addr w' = next_addr w \<and>
     superinfo w' = superinfo w \<and> volkey w' = volkey w \<and> kinds w' = kinds w"

lemma same_table_refl [simp]: "same_table w w"
  by (simp add: same_table_def)

lemma same_table_trans [trans]: "same_table w w' \<Longrightarrow> same_table w' w'' \<Longrightarrow> same_table w w''"
  by (simp add: same_table_def)

lemma same_table_more:
  assumes "host.more w' = host.more w"
  shows "same_table w w'"
  using more_world [OF assms] by (simp add: same_table_def kinds_def fun_eq_iff)

lemma same_table_local_cache [simp]: "same_table w (w\<lparr>local_cache := st\<rparr>)"
  by (simp add: same_table_def kinds_def fun_eq_iff)

lemma same_table_ptr: "same_table w w' \<Longrightarrow> ptr_ok w' a = ptr_ok w a"
  by (simp add: same_table_def ptr_ok_def)

lemma same_table_bounded: "same_table w w' \<Longrightarrow> heap_bounded w' = heap_bounded w"
  by (simp add: same_table_def heap_bounded_def flip: kinds_None)

lemma same_table_set_chunk [simp]: "same_table w (set_chunk a i ck w)"
  by (auto simp: same_table_def set_chunk_def kinds_def fun_eq_iff split: option.split inode_obj.split)

lemma same_table_upd_file:
  assumes "heap w a = Some (FileObj fn)"
  shows "same_table w (upd_obj a (FileObj fn') w)"
  using assms by (simp add: same_table_def upd_obj_def kinds_def fun_eq_iff)

lemma cache_ok_cong:
  assumes "same_table w w'" and "local_cache w' = local_cache w"
  shows "cache_ok w' = cache_ok w"
  using assms(2) by (simp add: cache_ok_def same_table_ptr [OF assms(1)])

lemma enclave_ok_same:
  assumes ok: "enclave_ok w" and st: "same_table w w'" and c: "cache_ok w'"
  shows "enclave_ok w'"
proof -
  have h: "heap w' a = None \<longleftrightarrow> heap w a = None" for a
    using st by (simp add: same_table_def flip: kinds_None)
  have "table_ok w'" using ok st h unfolding enclave_ok_def table_ok_def same_table_def by auto
  then show ?thesis using ok st c h by (simp add: enclave_ok_def same_table_def)
qed

section \<open>Chunks\<close>

lemma cache_ok_remove:
  assumes "cache_ok w" and "cs_inv st" and "set (cs_items st) \<subseteq> set (cs_items (local_cache w))"
    and "length (cs_items st) \<le> length (cs_items (local_cache w))"
  shows "cache_ok (w\<lparr>local_cache := st\<rparr>)"
proof -
  have "ptr_ok (w\<lparr>local_cache := st\<rparr>) = ptr_ok w"
    by (simp add: fun_eq_iff same_table_ptr [OF same_table_local_cache])
  then show ?thesis using assms by (auto simp: cache_ok_def)
qed

lemma load_cache_more:
  assumes "load_cache e ck data w = (ok, data', w')"
  shows "host.more w' = host.more w"
  using assms by (auto simp: load_cache_def Let_def sgx_enter_def ocall_load_file_eq
      split: prod.splits if_splits option.splits)

lemma load_chunk_frame:
  assumes ok: "cache_ok w" and ld: "load_chunk e c w = Some (r, c', w')"
  shows "same_table w w' \<and> cache_ok w'"
proof -
  have inv: "cs_inv (local_cache w)" using ok by (simp add: cache_ok_def)
  from ld obtain ck where ck: "ChunkCache_chunk w c = Some ck"
    by (auto simp: load_chunk_def split: bind_splits)
  from cs.take_ok [OF inv, of "ck_uuid ck"] obtain st where
    st: "ChunkStore_get_erase_by_key (ck_uuid ck) (local_cache w) =
      Some (find (\<lambda>x. cc_uuid x = ck_uuid ck) (cs_items (local_cache w)), st)"
    "cs_inv st" "cs_items st = filter (\<lambda>x. cc_uuid x \<noteq> ck_uuid ck) (cs_items (local_cache w))" by blast
  show ?thesis
  proof (cases "find (\<lambda>x. cc_uuid x = ck_uuid ck) (cs_items (local_cache w))")
    case None
    obtain r1 d w1 where lc: "load_cache e ck (cc_data c) w = (r1, d, w1)" by (rule prod_cases3)
    with ld ck st None have "w' = w1" by (auto simp: load_chunk_def)
    with load_cache_more [OF lc] have m: "host.more w' = host.more w" by simp
    from same_table_more [OF m] more_world(6) [OF m] ok show ?thesis by (simp add: cache_ok_cong)
  next
    case (Some old)
    with ld ck st have "w' = w\<lparr>local_cache := st\<rparr>" by (auto simp: load_chunk_def)
    with cache_ok_remove [OF ok st(2)] st(3) show ?thesis by (simp add: length_filter_le)
  qed
qed

text \<open>The eviction loop, from any number of cached chunks.\<close>

lemma evict_chunks_frame:
  assumes "evict_chunks e w = Some (ok, w')" and "cs_inv (local_cache w)"
    and "\<forall>c\<in>set (cs_items (local_cache w)). ptr_ok w (cc_filenode c)"
  shows "same_table w w' \<and> cs_inv (local_cache w') \<and>
    (\<forall>c\<in>set (cs_items (local_cache w')). ptr_ok w (cc_filenode c)) \<and>
    (length (cs_items (local_cache w')) \<le> MAX_CACHE_NUM \<or>
     length (cs_items (local_cache w')) < length (cs_items (local_cache w)))"
  using assms
proof (induction e w arbitrary: ok w' rule: evict_chunks.induct)
  case (1 e w)
  show ?case
  proof (cases "length (kl_nodes (local_cache w)) \<le> MAX_CACHE_NUM")
    case True
    with 1 show ?thesis by (simp add: evict_chunks.simps [of e w] length_items)
  next
    case False
    then obtain old rest where items: "cs_items (local_cache w) = old # rest"
      using length_items [of "local_cache w"] by (cases "cs_items (local_cache w)") auto
    from get_pop_front_eq [OF "1.prems"(2) items] obtain st where
      st: "ChunkStore_get_pop_front (local_cache w) = Some (old, st)" "cs_inv st" "cs_items st = rest" by blast
    let ?w = "w\<lparr>local_cache := st\<rparr>"
    from "1.prems"(1) False st obtain ck where ck: "ChunkCache_chunk ?w old = Some ck"
      by (auto simp: evict_chunks.simps [of e w] split: option.splits)
    have ptr: "ptr_ok ?w = ptr_ok w" by (simp add: fun_eq_iff same_table_ptr [OF same_table_local_cache])
    have rest: "\<forall>c\<in>set rest. ptr_ok w (cc_filenode c)" using "1.prems"(3) items by simp
    show ?thesis
    proof (cases "cc_modified old")
      case no: False
      with "1.prems"(1) False st ck have "evict_chunks e ?w = Some (ok, w')"
        by (simp add: evict_chunks.simps [of e w])
      from "1.IH"(1) [OF False st(1) refl ck no this] st rest ptr items show ?thesis
        using same_table_trans [OF same_table_local_cache] by auto
    next
      case True
      obtain r ck' w1 where sv: "save_cache e \<lparr>ck_uuid = ck_uuid ck, ck_iv = 0, ck_tag = 0\<rparr> (cc_data old) ?w = (r, ck', w1)"
        by (rule prod_cases3)
      have m: "host.more w1 = host.more ?w" by (rule save_cache_frame(1) [OF sv])
      have lc: "local_cache w1 = st" using more_world(6) [OF m] by simp
      have s1: "same_table w w1" using same_table_trans [OF same_table_local_cache same_table_more [OF m]] .
      show ?thesis
      proof (cases r)
        case no: False
        with "1.prems"(1) False st ck True sv have "w' = w1" by (simp add: evict_chunks.simps [of e w])
        with s1 lc st rest items show ?thesis by simp
      next
        case r: True
        let ?w2 = "set_chunk (cc_filenode old) (unat (cc_idx old)) ck' w1"
        have s2: "same_table w ?w2" using same_table_trans [OF s1 same_table_set_chunk] .
        from "1.prems"(1) False st ck True sv r have ev: "evict_chunks e ?w2 = Some (ok, w')"
          by (simp add: evict_chunks.simps [of e w])
        have "\<not> \<not> cc_modified old" "\<not> \<not> r" using True r by simp_all
        from "1.IH"(2) [OF False st(1) refl ck this(1) sv [symmetric] refl this(2) ev] lc st rest items
          same_table_ptr [OF s2] same_table_trans [OF s2]
        show ?thesis by auto
      qed
    qed
  qed
qed


lemma save_chunk_frame:
  assumes ok: "cache_ok w" and b: "heap_bounded w" and sv: "save_chunk e c w = Some (r, w')"
  shows "same_table w w' \<and> cache_ok w'"
proof -
  have inv: "cs_inv (local_cache w)" using ok by (simp add: cache_ok_def)
  from sv obtain ck where ck: "ChunkCache_chunk w c = Some ck"
    by (auto simp: save_chunk_def split: bind_splits)
  then obtain fn where "heap w (cc_filenode c) = Some (FileObj fn)"
    by (auto simp: ChunkCache_chunk_def split: option.splits inode_obj.splits)
  then have ptr: "ptr_ok w (cc_filenode c)" using b by (auto simp: ptr_ok_def heap_bounded_def kinds_def)
  let ?c = "c\<lparr>cc_uuid := ck_uuid ck\<rparr>"
  from push_get_back_eq [OF inv, of "ck_uuid ck" c] obtain it st where
    ps: "ChunkStore_push_get_back (ck_uuid ck) c (local_cache w) = Some (it, st)" by blast
  then have "ChunkStore_push ?c (local_cache w) = Some st"
    using push_get_back_push [of "ck_uuid ck" c "local_cache w"] by simp
  with cs.push_ok [OF inv, of ?c] have st: "cs_inv st"
    "cs_items st = filter (\<lambda>x. cc_uuid x \<noteq> ck_uuid ck) (cs_items (local_cache w)) @ [?c]" by auto
  let ?w = "w\<lparr>local_cache := st\<rparr>"
  have ev: "evict_chunks e ?w = Some (r, w')" using sv ck ps by (simp add: save_chunk_def)
  have p: "ptr_ok ?w = ptr_ok w" by (simp add: fun_eq_iff same_table_ptr [OF same_table_local_cache])
  have len: "length (cs_items st) \<le> Suc MAX_CACHE_NUM"
    using ok by (simp add: st(2) cache_ok_def order_trans [OF length_filter_le])
  have "\<forall>x\<in>set (cs_items st). ptr_ok ?w (cc_filenode x)"
    using ok ptr by (auto simp: p st(2) cache_ok_def)
  with evict_chunks_frame [OF ev] st(1)
  have E: "same_table ?w w'" "cs_inv (local_cache w')" "\<forall>x\<in>set (cs_items (local_cache w')). ptr_ok ?w (cc_filenode x)"
    "length (cs_items (local_cache w')) \<le> MAX_CACHE_NUM \<or> length (cs_items (local_cache w')) < length (cs_items st)"
    by auto
  then have "cache_ok w'" using len by (auto simp: cache_ok_def same_table_ptr [OF E(1)])
  with same_table_trans [OF same_table_local_cache E(1)] show ?thesis by simp
qed

lemma flush_chunk_frame:
  assumes ok: "cache_ok w" and fl: "flush_chunk e ck w = Some (r, ck', w')"
  shows "same_table w w' \<and> cache_ok w'"
proof -
  have inv: "cs_inv (local_cache w)" using ok by (simp add: cache_ok_def)
  show ?thesis
  proof (cases "kl_map (local_cache w) (ck_uuid ck)")
    case None
    with fl ok show ?thesis by (simp add: flush_chunk_def findbykey_eq [OF inv])
  next
    case (Some i)
    from cs.take_ok [OF inv, of "ck_uuid ck"] get_erase_eq [OF inv Some] obtain c st where
      ge: "ChunkStore_get_erase i (local_cache w) = Some (c, st)"
      and st: "cs_inv st" "cs_items st = filter (\<lambda>x. cc_uuid x \<noteq> ck_uuid ck) (cs_items (local_cache w))" by auto
    let ?w = "w\<lparr>local_cache := st\<rparr>"
    have ok': "cache_ok ?w" using cache_ok_remove [OF ok st(1)] st(2) by (simp add: length_filter_le)
    show ?thesis
    proof (cases "cc_modified c")
      case False
      with fl Some ge have "w' = ?w" by (simp add: flush_chunk_def findbykey_eq [OF inv])
      with ok' show ?thesis by simp
    next
      case True
      obtain r1 k1 w1 where sv: "save_cache e ck (cc_data c) ?w = (r1, k1, w1)" by (rule prod_cases3)
      with fl Some ge True have "w' = w1" by (simp add: flush_chunk_def findbykey_eq [OF inv])
      with save_cache_frame(1) [OF sv] have m: "host.more w' = host.more ?w" by simp
      have "cache_ok w'" using cache_ok_cong [OF same_table_more [OF m] more_world(6) [OF m]] ok' by simp
      with same_table_trans [OF same_table_local_cache same_table_more [OF m]] show ?thesis by simp
    qed
  qed
qed

section \<open>The loops of read, write and flush\<close>

definition data_kept :: "world \<Rightarrow> world \<Rightarrow> bool" where
  "data_kept w w' \<longleftrightarrow> (heap_bounded w \<longrightarrow> cache_ok w \<longrightarrow> same_table w w' \<and> cache_ok w')"

lemma data_kept_refl [simp]: "data_kept w w"
  by (simp add: data_kept_def)

lemma data_kept_trans [trans]: "data_kept w w' \<Longrightarrow> data_kept w' w'' \<Longrightarrow> data_kept w w''"
  using same_table_trans same_table_bounded unfolding data_kept_def by blast

lemma data_kept_chunk:
  "load_chunk e c w = Some (r, c', w') \<Longrightarrow> data_kept w w'"
  "save_chunk e c w = Some (r, w') \<Longrightarrow> data_kept w w'"
  "flush_chunk e ck w = Some (r, ck', w') \<Longrightarrow> data_kept w w'"
  using load_chunk_frame save_chunk_frame flush_chunk_frame unfolding data_kept_def by blast+

lemma data_kept_more: "host.more w' = host.more w \<Longrightarrow> data_kept w w'"
  using same_table_more cache_ok_cong more_world(6) unfolding data_kept_def by blast

lemma data_kept_set_chunk [simp]: "data_kept w (set_chunk a i ck w)"
  using cache_ok_cong [OF same_table_set_chunk] by (simp add: data_kept_def)

lemma data_kept_upd_file: "heap w a = Some (FileObj fn) \<Longrightarrow> data_kept w (upd_obj a (FileObj fn') w)"
  using cache_ok_cong [OF same_table_upd_file] same_table_upd_file by (simp add: data_kept_def upd_obj_def)

lemma data_kept_enclave: "enclave_ok w \<Longrightarrow> data_kept w w' \<Longrightarrow> enclave_ok w'"
  using enclave_ok_bounded enclave_ok_same unfolding data_kept_def enclave_ok_def by blast

lemma read_loop_frame:
  "read_loop e a offset sz st en idxs ws buf w = Some (r, ws', buf', w') \<Longrightarrow> data_kept w w'"
proof (induction e a offset sz st en idxs ws buf w rule: read_loop.induct)
  case (2 e a offset sz st en idx idxs ws buf w)
  from "2.prems" obtain fn where fn: "heap w a = Some (FileObj fn)" "\<not> length (fn_chunks fn) \<le> idx"
    by (auto split: option.splits inode_obj.splits if_splits)
  show ?case
  proof (cases "ck_uuid (fn_chunks fn ! idx) = UUID_zero")
    case True
    with "2.prems" fn "2.IH"(1) [OF fn(1) refl fn(2) refl refl refl True] show ?thesis
      by (auto simp: Let_def split: if_splits)
  next
    case False
    from "2.prems" fn False obtain ok c w1 where
      ld: "load_chunk e (ChunkCache_ctor CHUNKSIZE a (of_nat idx)) w = Some (ok, c, w1)"
      by (auto simp: Let_def split: bind_splits)
    note k1 = data_kept_chunk(1) [OF ld]
    show ?thesis
    proof (cases "ok \<and> \<not> seg_start offset st idx < 0")
      case no: False
      with "2.prems" fn False ld k1 show ?thesis by (auto simp: Let_def split: if_splits)
    next
      case True
      let ?n = "word_of_int (seg_end offset sz en idx - seg_start offset st idx) :: size_t"
      from "2.prems" fn False ld True obtain buf1 ok2 w2 where
        mc: "mem_copy_s e buf (unat ws) (unat (sz - ws)) (cc_data c) (nat (seg_start offset st idx)) (unat ?n) = Some buf1"
        and sv: "save_chunk e c w1 = Some (ok2, w2)"
        and rest: "(if \<not> ok2 then Some (EINVAL, ws + ?n, buf1, w2)
          else read_loop e a offset sz st en idxs (ws + ?n) buf1 w2) = Some (r, ws', buf', w')"
        by (auto simp: Let_def simp del: of_int_diff split: bind_splits)
      note k2 = data_kept_trans [OF k1 data_kept_chunk(2) [OF sv]]
      show ?thesis
      proof (cases ok2)
        case False
        with rest k2 show ?thesis by simp
      next
        case ok2: True
        from True ok2 have B: "\<not> \<not> ok" "\<not> seg_start offset st idx < 0" "\<not> \<not> ok2" by simp_all
        from rest ok2 have "read_loop e a offset sz st en idxs (ws + ?n) buf1 w2 = Some (r, ws', buf', w')" by simp
        from "2.IH"(2) [OF fn(1) refl fn(2) refl refl refl False ld refl refl B(1,2) mc sv refl B(3) this] k2
        show ?thesis by (rule data_kept_trans [rotated])
      qed
    qed
  qed
qed simp


lemma data_kept_open_chunk:
  assumes "(if ck_uuid ck = UUID_zero
      then (case UUID_gen_rand e w of (u, w) \<Rightarrow> Some (c, set_chunk a idx (ck\<lparr>ck_uuid := u\<rparr>) w))
      else if P then (do { (ok, c, w) \<leftarrow> load_chunk e c w; Some (c, w) }) else Some (c, w)) = Some (c', w')"
  shows "data_kept w w'"
proof (cases "ck_uuid ck = UUID_zero")
  case True
  obtain u w1 where g: "UUID_gen_rand e w = (u, w1)" by fastforce
  have "host.more w1 = host.more w" using gen_rand_more [of e w] g by simp
  from data_kept_trans [OF data_kept_more [OF this] data_kept_set_chunk] True g assms show ?thesis by auto
next
  case False
  then show ?thesis using assms data_kept_chunk(1) by (auto split: if_splits bind_splits)
qed

lemma write_loop_frame:
  "write_loop e a buf offset sz st en ps ls idxs ws w = Some (r, ws', w') \<Longrightarrow> data_kept w w'"
proof (induction idxs arbitrary: ws w)
  case (Cons idx idxs)
  from Cons.prems obtain fn where fn: "heap w a = Some (FileObj fn)" "\<not> length (fn_chunks fn) \<le> idx"
    by (auto split: option.splits inode_obj.splits if_splits)
  let ?n = "word_of_int (seg_end offset sz en idx - seg_start offset st idx) :: size_t"
  from Cons.prems fn obtain c1 w1 data ok w2 where
    op: "(if ck_uuid (fn_chunks fn ! idx) = UUID_zero
       then (case UUID_gen_rand e w of (u, w) \<Rightarrow>
         Some (ChunkCache_ctor CHUNKSIZE a (of_nat idx), set_chunk a idx ((fn_chunks fn ! idx)\<lparr>ck_uuid := u\<rparr>) w))
       else if seg_start offset st idx \<noteq> 0 \<or> seg_end offset sz en idx \<noteq> (if Suc idx = ps then ls else int CHUNKSIZE)
       then (do { (ok, c, w) \<leftarrow> load_chunk e (ChunkCache_ctor CHUNKSIZE a (of_nat idx)) w; Some (c, w) })
       else Some (ChunkCache_ctor CHUNKSIZE a (of_nat idx), w)) = Some (c1, w1)"
    and sv: "save_chunk e (c1\<lparr>cc_data := data, cc_modified := True\<rparr>) w1 = Some (ok, w2)"
    and rest: "(if \<not> ok then Some (EINVAL, ws + ?n, w2)
      else write_loop e a buf offset sz st en ps ls idxs (ws + ?n) w2) = Some (r, ws', w')"
    by (auto simp: Let_def simp del: of_int_diff split: bind_splits if_split_asm)
  have k: "data_kept w w2"
    by (rule data_kept_trans [OF data_kept_open_chunk [OF op] data_kept_chunk(2) [OF sv]])
  show ?case
  proof (cases ok)
    case True
    with rest Cons.IH [of "ws + ?n" w2] have "data_kept w2 w'" by simp
    with k show ?thesis by (rule data_kept_trans)
  qed (use rest k in simp)
qed simp

lemma flush_loop_frame:
  "flush_loop e a idxs w = Some (r, w') \<Longrightarrow> data_kept w w'"
proof (induction idxs arbitrary: w)
  case (Cons idx idxs)
  from Cons.prems obtain fn where fn: "heap w a = Some (FileObj fn)" "\<not> length (fn_chunks fn) \<le> idx"
    by (auto split: option.splits inode_obj.splits if_splits)
  with Cons.prems obtain ok ck w1 where
    fl: "flush_chunk e (fn_chunks fn ! idx) w = Some (ok, ck, w1)" by (auto split: bind_splits)
  with Cons.prems fn have
    rest: "(if \<not> ok then Some (EIO, set_chunk a idx ck w1) else flush_loop e a idxs (set_chunk a idx ck w1)) = Some (r, w')"
    by (simp add: Let_def)
  have k: "data_kept w (set_chunk a idx ck w1)"
    by (rule data_kept_trans [OF data_kept_chunk(3) [OF fl] data_kept_set_chunk])
  show ?case
  proof (cases ok)
    case True
    with rest Cons.IH [of "set_chunk a idx ck w1"] have "data_kept (set_chunk a idx ck w1) w'" by simp
    with k show ?thesis by (rule data_kept_trans)
  qed (use rest k in simp)
qed simp


section \<open>Handlers\<close>

lemma enclave_ok_more: "enclave_ok w \<Longrightarrow> host.more w' = host.more w \<Longrightarrow> enclave_ok w'"
  using data_kept_enclave data_kept_more by blast

lemma cache_ok_grow:
  assumes "cache_ok w" and "local_cache w' = local_cache w" and "next_addr w \<le> next_addr w'"
    and "\<And>a. a < next_addr w \<Longrightarrow> kinds w' a = kinds w a \<or> kinds w' a = None"
  shows "cache_ok w'"
proof -
  have "ptr_ok w' a" if p: "ptr_ok w a" for a
  proof -
    from p have a: "a < next_addr w" "kinds w a \<noteq> Some False" by (simp_all add: ptr_ok_def)
    from assms(4) [OF a(1)] a(2) have "kinds w' a \<noteq> Some False" by (auto simp del: kinds_None)
    with a(1) assms(3) show ?thesis by (simp add: ptr_ok_def)
  qed
  with assms(1,2) show ?thesis by (auto simp: cache_ok_def)
qed

lemma enclave_ok_upd_obj:
  assumes ok: "enclave_ok w" and a: "heap w a = Some obj" and k: "is_file obj' = is_file obj"
  shows "enclave_ok (upd_obj a obj' w)"
proof -
  have s: "same_table w (upd_obj a obj' w)"
    using a k by (auto simp: same_table_def upd_obj_def kinds_def fun_eq_iff)
  have "cache_ok (upd_obj a obj' w)"
    using cache_ok_cong [OF s] ok by (simp add: enclave_ok_def) (simp add: upd_obj_def)
  then show ?thesis by (rule enclave_ok_same [OF ok s])
qed

lemma enclave_ok_bind_inode:
  assumes ok: "enclave_ok w"
  shows "enclave_ok (bind_inode ino obj w)"
proof -
  let ?w = "bind_inode ino obj w"
  have t: "table_ok w" and ran: "\<And>a. heap w a \<noteq> None \<Longrightarrow> a \<in> ran (inode_map w)" and c: "cache_ok w"
    using ok by (auto simp: enclave_ok_def)
  have f: "inode_map ?w = (inode_map w)(ino \<mapsto> next_addr w)" "next_addr ?w = Suc (next_addr w)"
    "superinfo ?w = superinfo w" "local_cache ?w = local_cache w"
    by (simp_all add: bind_inode_def Let_def)
  have h: "heap ?w a = (if a = next_addr w then Some obj else if inode_map w ino = Some a then None else heap w a)" for a
    by (auto simp: bind_inode_def Let_def split: option.split)
  have "a \<in> ran (inode_map ?w)" if "heap ?w a \<noteq> None" for a
  proof (cases "a = next_addr w")
    case False
    with that h [of a] have "inode_map w ino \<noteq> Some a" "heap w a \<noteq> None" by (auto split: if_splits)
    with ran [of a] obtain j where "inode_map w j = Some a" "j \<noteq> ino" by (auto simp: ran_def)
    then show ?thesis by (auto simp: f ran_def)
  qed (auto simp: f ran_def)
  moreover have "cache_ok ?w"
    by (rule cache_ok_grow [OF c f(4)]) (auto simp: f(2) kinds_def h)
  ultimately show ?thesis
    using table_ok_bind_inode [OF t] ok f(3) unfolding enclave_ok_def by simp
qed

lemma enclave_ok_erase_inode:
  assumes ok: "enclave_ok w"
  shows "enclave_ok (erase_inode ino w)"
proof (cases "inode_map w ino")
  case None
  then show ?thesis using ok by (simp add: erase_inode_def)
next
  case (Some b)
  let ?w = "erase_inode ino w"
  have t: "table_ok w" and ran: "\<And>a. heap w a \<noteq> None \<Longrightarrow> a \<in> ran (inode_map w)" and c: "cache_ok w"
    using ok by (auto simp: enclave_ok_def)
  have f: "?w = w\<lparr>inode_map := (inode_map w)(ino := None), heap := (heap w)(b := None)\<rparr>"
    using Some by (simp add: erase_inode_def)
  have "a \<in> ran (inode_map ?w)" if "heap ?w a \<noteq> None" for a
  proof -
    from that have "a \<noteq> b" "heap w a \<noteq> None" by (auto simp: f split: if_splits)
    moreover from this(2) ran [of a] obtain j where "inode_map w j = Some a" by (auto simp: ran_def)
    moreover from calculation Some have "j \<noteq> ino" by auto
    ultimately show ?thesis by (auto simp: f ran_def)
  qed
  moreover have "cache_ok ?w" by (rule cache_ok_grow [OF c]) (auto simp: f kinds_def)
  moreover have "superinfo ?w = superinfo w" by (simp add: f)
  ultimately show ?thesis using table_ok_erase_inode [OF t, of ino] ok unfolding enclave_ok_def by simp
qed

lemma enclave_ok_superinfo: "enclave_ok w \<Longrightarrow> enclave_ok (w\<lparr>superinfo := Some si\<rparr>)"
  by (simp add: enclave_ok_def table_ok_def cache_ok_def ptr_ok_def kinds_def)


lemma find_inode_cell: "find_inode w ino = Some (a, obj) \<Longrightarrow> heap w a = Some obj"
  by (simp add: find_inode_iff)

lemma is_file_refcount [simp]: "is_file (obj_set_refcount n obj) = is_file obj"
  by (cases obj) simp_all

lemma enclave_ok_load:
  assumes "enclave_ok w" and "load_metadata e vload u m w = Some (r, m', w')"
  shows "enclave_ok w'" and "enclave_ok (bind_inode ino obj w')"
  using enclave_ok_more [OF assms(1) load_metadata_frame(1) [OF assms(2)]] enclave_ok_bind_inode by auto

lemma lookup_fetch_enclave:
  assumes ok: "enclave_ok w" and lf: "lookup_fetch e dent w = Some (r, w')"
  shows "enclave_ok w' \<and> (\<forall>b obj. r = Inr (b, obj) \<longrightarrow> find_inode w' (de_ino dent) = Some (b, obj))"
proof -
  have t: "table_ok w" using ok by (simp add: enclave_ok_def)
  have "enclave_ok w'"
  proof (cases "find_inode w (de_ino dent)")
    case (Some p)
    with lf ok show ?thesis by (auto simp: lookup_fetch_def)
  next
    case None
    show ?thesis
    proof (cases "de_type dent = T_DT_DIR")
      case True
      with lf None show ?thesis
        by (auto simp: lookup_fetch_def split: bind_splits if_splits intro: enclave_ok_load [OF ok])
    next
      case False
      show ?thesis
      proof (cases "de_type dent = T_DT_REG")
        case True
        with lf None False show ?thesis
          by (auto simp: lookup_fetch_def split: bind_splits if_splits intro: enclave_ok_load [OF ok])
      next
        case no: False
        with lf None False ok show ?thesis by (auto simp: lookup_fetch_def)
      qed
    qed
  qed
  then show ?thesis using lookup_fetch_cases [OF t lf] by (auto split: sum.splits)
qed

lemma lookup_enclave:
  assumes ok: "enclave_ok w" and lk: "ecall_fs_lookup e parent name w = Some (r, ino, st, w')"
  shows "enclave_ok w'"
proof (cases "\<exists>a dn dent. find_inode w parent = Some (a, DirObj dn) \<and>
    find (\<lambda>d. de_name d = name) (dn_dirent dn) = Some dent")
  case False
  then have "w' = w" using lk by (auto simp: ecall_fs_lookup_def split: option.splits inode_obj.splits)
  then show ?thesis using ok by simp
next
  case True
  with lk obtain dent r1 w1 where lf: "lookup_fetch e dent w = Some (r1, w1)"
    and w': "w' = w1 \<or> (\<exists>b obj. r1 = Inr (b, obj) \<and> w' = upd_obj b (obj_set_refcount (obj_refcount obj + 1) obj) w1)"
    by (auto simp: ecall_fs_lookup_def split: bind_splits sum.splits if_splits)
  from lookup_fetch_enclave [OF ok lf] w' show ?thesis
    by (auto intro!: enclave_ok_upd_obj dest: find_inode_cell)
qed

lemma forget_enclave:
  assumes ok: "enclave_ok w" and f: "ecall_fs_forget ino n w = (r, w')"
  shows "enclave_ok w'"
proof (cases "find_inode w ino")
  case None
  with f ok show ?thesis by (simp add: ecall_fs_forget_def)
next
  case (Some p)
  with f have "w' = erase_inode ino w \<or> (\<exists>n. w' = upd_obj (fst p) (obj_set_refcount n (snd p)) w)"
    by (auto simp: ecall_fs_forget_def Let_def split: prod.splits if_splits)
  with Some enclave_ok_erase_inode [OF ok] enclave_ok_upd_obj [OF ok, of "fst p" "snd p"] show ?thesis
    by (auto simp: find_inode_cell)
qed

lemma add_shape_enclave:
  assumes ok: "enclave_ok w" and p: "find_inode w parent = Some (a, DirObj dn)"
    and sh: "add_shape w si a dn name ty obj0 obj w'" and k: "is_file obj = is_file obj0"
  shows "enclave_ok w'"
proof -
  from sh obtain dn' w0 w1 where m0: "host.more w0 = host.more w"
    and w1: "host.more w1 = host.more (upd_obj a (DirObj dn') w0)"
    and w': "host.more w' = host.more (upd_obj (next_addr w1) obj
         ((bind_inode (si_max_ino si) obj0 w1)\<lparr>superinfo := Some (si\<lparr>si_max_ino := si_max_ino si + 1\<rparr>)\<rparr>))"
    unfolding add_shape_def by blast
  have a0: "heap w0 a = Some (DirObj dn)" using find_inode_cell [OF p] more_world(2) [OF m0] by simp
  have "enclave_ok (upd_obj a (DirObj dn') w0)"
    by (rule enclave_ok_upd_obj [OF enclave_ok_more [OF ok m0] a0]) simp
  then have "enclave_ok w1" using w1 by (rule enclave_ok_more)
  then have b: "enclave_ok ((bind_inode (si_max_ino si) obj0 w1)\<lparr>superinfo := Some (si\<lparr>si_max_ino := si_max_ino si + 1\<rparr>)\<rparr>)"
    by (intro enclave_ok_superinfo enclave_ok_bind_inode)
  have "heap ((bind_inode (si_max_ino si) obj0 w1)\<lparr>superinfo := Some (si\<lparr>si_max_ino := si_max_ino si + 1\<rparr>)\<rparr>) (next_addr w1) = Some obj0"
    by (simp add: bind_inode_def Let_def)
  from enclave_ok_upd_obj [OF b this k] w' show ?thesis by (rule enclave_ok_more)
qed

lemma create_enclave:
  assumes ok: "enclave_ok w" and cr: "ecall_fs_create e parent name w = Some (r, ino, st, w')"
  shows "enclave_ok w'"
proof (cases "\<exists>a dn. find_inode w parent = Some (a, DirObj dn) \<and> entries (dn_dirent dn) name = None")
  case False
  then have "w' = w" using cr
    by (auto simp: ecall_fs_create_def entries_None split: option.splits inode_obj.splits if_splits)
  then show ?thesis using ok by simp
next
  case True
  then obtain a dn where p: "find_inode w parent = Some (a, DirObj dn)" and nm: "entries (dn_dirent dn) name = None"
    by blast
  from ok obtain si where si: "superinfo w = Some si" by (auto simp: enclave_ok_def)
  from create_shape [OF si p nm, of e] cr add_shape_enclave [OF ok p] show ?thesis by fastforce
qed

lemma mkdir_enclave:
  assumes ok: "enclave_ok w" and cr: "ecall_fs_mkdir e parent name w = Some (r, ino, st, w')"
  shows "enclave_ok w'"
proof (cases "\<exists>a dn. find_inode w parent = Some (a, DirObj dn) \<and> entries (dn_dirent dn) name = None")
  case False
  then have "w' = w" using cr
    by (auto simp: ecall_fs_mkdir_def entries_None split: option.splits inode_obj.splits if_splits)
  then show ?thesis using ok by simp
next
  case True
  then obtain a dn where p: "find_inode w parent = Some (a, DirObj dn)" and nm: "entries (dn_dirent dn) name = None"
    by blast
  from ok obtain si where si: "superinfo w = Some si" by (auto simp: enclave_ok_def)
  from mkdir_shape [OF si p nm, of e] cr add_shape_enclave [OF ok p] show ?thesis by fastforce
qed

lemma save_metadata_more: "save_metadata e vdump u m w = (ok, w') \<Longrightarrow> host.more w' = host.more w"
  using save_metadata_frame(1) [of e vdump u m w] by simp

lemma unlink_entry_enclave:
  assumes ok: "enclave_ok w" and p: "find_inode w parent = Some (a, DirObj dn)" and m: "host.more w0 = host.more w"
    and un: "unlink_entry e a dn name w0 = (r, w')"
  shows "enclave_ok w'"
proof -
  obtain dn' where m': "host.more w' = host.more (upd_obj a (DirObj dn') w0)"
    using un by (auto simp: unlink_entry_def Let_def split: prod.splits if_splits dest: save_metadata_more)
  have "heap w0 a = Some (DirObj dn)" using find_inode_cell [OF p] more_world(2) [OF m] by simp
  then have "enclave_ok (upd_obj a (DirObj dn') w0)"
    by (rule enclave_ok_upd_obj [OF enclave_ok_more [OF ok m]]) simp
  then show ?thesis using m' by (rule enclave_ok_more)
qed


lemma unlink_enclave:
  assumes ok: "enclave_ok w" and un: "ecall_fs_unlink e parent name w = Some (r, w')"
  shows "enclave_ok w'"
proof (cases "\<exists>a dn dent. find_inode w parent = Some (a, DirObj dn) \<and>
    find (\<lambda>d. de_name d = name) (dn_dirent dn) = Some dent \<and> de_type dent \<noteq> T_DT_DIR")
  case False
  then have "w' = w" using un
    by (auto simp: ecall_fs_unlink_def split: option.splits inode_obj.splits if_splits)
  then show ?thesis using ok by simp
next
  case True
  then obtain a dn dent where p: "find_inode w parent = Some (a, DirObj dn)"
    and d: "find (\<lambda>d. de_name d = name) (dn_dirent dn) = Some dent" "de_type dent \<noteq> T_DT_DIR" by blast
  with un obtain ok1 fn w1 where ld: "load_metadata e Filenode_load (de_uuid dent)
      (Filenode_ctor (de_uuid dent) (junk64 e w) (junk64 e w)) w = Some (ok1, fn, w1)"
    by (auto simp: ecall_fs_unlink_def split: bind_splits)
  obtain ok2 w2 where rm: "remove_metadata e (de_uuid dent) w1 = (ok2, w2)" by fastforce
  note m1 = load_metadata_frame(1) [OF ld]
  have m2: "host.more w2 = host.more w" by (simp only: remove_metadata_frame(1) [OF rm] m1)
  have m3: "host.more (remove_chunks e (fn_chunks fn) w2) = host.more w" by (simp only: remove_chunks_frame m2)
  show ?thesis
  proof (cases "ok1 \<and> ok2")
    case True
    with un p d ld rm have "unlink_entry e a dn name (remove_chunks e (fn_chunks fn) w2) = (r, w')"
      by (simp add: ecall_fs_unlink_def)
    then show ?thesis by (rule unlink_entry_enclave [OF ok p m3])
  next
    case False
    with un p d ld rm have "w' = w1 \<or> w' = w2" by (auto simp: ecall_fs_unlink_def split: if_splits)
    then show ?thesis using enclave_ok_more [OF ok] m1 m2 by auto
  qed
qed

lemma rmdir_enclave:
  assumes ok: "enclave_ok w" and un: "ecall_fs_rmdir e parent name w = Some (r, w')"
  shows "enclave_ok w'"
proof (cases "\<exists>a dn dent. find_inode w parent = Some (a, DirObj dn) \<and>
    find (\<lambda>d. de_name d = name) (dn_dirent dn) = Some dent \<and> de_type dent = T_DT_DIR")
  case False
  then have "w' = w" using un
    by (auto simp: ecall_fs_rmdir_def split: option.splits inode_obj.splits if_splits)
  then show ?thesis using ok by simp
next
  case True
  then obtain a dn dent where p: "find_inode w parent = Some (a, DirObj dn)"
    and d: "find (\<lambda>d. de_name d = name) (dn_dirent dn) = Some dent" "de_type dent = T_DT_DIR" by blast
  with un obtain ok1 cd w1 where ld: "load_metadata e Dirnode_load (de_uuid dent)
      (Dirnode_ctor (de_uuid dent) (junk64 e w)) w = Some (ok1, cd, w1)"
    by (auto simp: ecall_fs_rmdir_def split: bind_splits)
  obtain ok2 w2 where rm: "remove_metadata e (de_uuid dent) w1 = (ok2, w2)" by fastforce
  note m1 = load_metadata_frame(1) [OF ld]
  have m2: "host.more w2 = host.more w" by (simp only: remove_metadata_frame(1) [OF rm] m1)
  show ?thesis
  proof (cases "ok1 \<and> dn_dirent cd = [] \<and> ok2")
    case True
    with un p d ld rm have "unlink_entry e a dn name w2 = (r, w')" by (simp add: ecall_fs_rmdir_def)
    then show ?thesis by (rule unlink_entry_enclave [OF ok p m2])
  next
    case False
    with un p d ld rm have "w' = w1 \<or> w' = w2" by (auto simp: ecall_fs_rmdir_def split: if_splits)
    then show ?thesis using enclave_ok_more [OF ok] m1 m2 by auto
  qed
qed

lemma open_enclave:
  assumes ok: "enclave_ok w" and op: "ecall_fs_open e ino flags w = (r, w')"
  shows "enclave_ok w'"
proof (cases "\<exists>a fn. find_inode w ino = Some (a, FileObj fn) \<and> flags AND OF_TRUNC \<noteq> 0")
  case False
  with op ok show ?thesis by (auto simp: ecall_fs_open_def split: option.splits inode_obj.splits)
next
  case True
  then obtain a fn where f: "find_inode w ino = Some (a, FileObj fn)" and t: "flags AND OF_TRUNC \<noteq> 0" by blast
  let ?w = "remove_chunks e (fn_chunks fn) w"
  have m: "host.more ?w = host.more w" by (rule remove_chunks_frame)
  have "heap ?w a = Some (FileObj fn)" using find_inode_cell [OF f] more_world(2) [OF m] by simp
  from enclave_ok_upd_obj [OF enclave_ok_more [OF ok m] this] op f t show ?thesis
    by (auto simp: ecall_fs_open_def Let_def)
qed

lemma read_enclave:
  assumes ok: "enclave_ok w" and rd: "ecall_fs_read e ino buf offset sz w = Some (r, sz', buf', w')"
  shows "enclave_ok w'"
proof -
  from rd have "w' = w \<or> (\<exists>a sz st en idxs r ws buf1. read_loop e a offset sz st en idxs 0 buf w = Some (r, ws, buf1, w'))"
    unfolding ecall_fs_read_def Let_def
    by (auto split: option.splits inode_obj.splits if_splits bind_splits; blast)
  then have "data_kept w w'" using read_loop_frame by auto
  with ok show ?thesis by (rule data_kept_enclave)
qed

lemma write_enclave:
  assumes ok: "enclave_ok w" and wr: "ecall_fs_write e ino buf offset sz w = Some (r, sz', w')"
  shows "enclave_ok w'"
proof (cases "\<exists>a fn. find_inode w ino = Some (a, FileObj fn)")
  case False
  with wr ok show ?thesis by (auto simp: ecall_fs_write_def split: option.splits inode_obj.splits)
next
  case True
  then obtain a fn where f: "find_inode w ino = Some (a, FileObj fn)" by blast
  define w0 where "w0 = (if of_nat (length (fn_chunks fn)) < end_chunk offset sz
    then upd_obj a (FileObj (fn\<lparr>fn_chunks := chunks_resize (unat (end_chunk offset sz)) (fn_chunks fn)\<rparr>)) w else w)"
  from wr f obtain r1 ws w1 where
    wl: "write_loop e a buf offset sz (first_chunk offset) (end_chunk offset sz) (length (fn_chunks fn))
      (uint ((fn_size fn + of_nat CHUNKSIZE - 1) mod of_nat CHUNKSIZE))
      [unat (first_chunk offset)..<unat (end_chunk offset sz)] 0 w0 = Some (r1, ws, w1)"
    by (auto simp: ecall_fs_write_def Let_def w0_def split: bind_splits)
  have k0: "data_kept w w0"
    using data_kept_upd_file [OF find_inode_cell [OF f]] by (simp add: w0_def)
  note k1 = data_kept_trans [OF k0 write_loop_frame [OF wl]]
  show ?thesis
  proof (cases "r1 = RC_OK")
    case False
    with wr f wl have "w' = w1" by (simp add: ecall_fs_write_def Let_def w0_def)
    with k1 ok show ?thesis by (blast intro: data_kept_enclave)
  next
    case True
    with wr f wl have "(case heap w1 a of Some (FileObj fn) \<Rightarrow>
        Some (RC_OK, ws, upd_obj a (FileObj (fn\<lparr>fn_size := max (fn_size fn) (offset + ws)\<rparr>)) w1) | _ \<Rightarrow> None) = Some (r, sz', w')"
      by (simp add: ecall_fs_write_def Let_def w0_def)
    then obtain fn1 fn2 where "heap w1 a = Some (FileObj fn1)" "w' = upd_obj a (FileObj fn2) w1"
      by (auto split: option.splits inode_obj.splits)
    with data_kept_trans [OF k1 data_kept_upd_file] ok show ?thesis by (blast intro: data_kept_enclave)
  qed
qed

lemma flush_enclave:
  assumes ok: "enclave_ok w" and fl: "ecall_fs_flush e ino w = Some (r, w')"
  shows "enclave_ok w'"
proof (cases "\<exists>a fn. find_inode w ino = Some (a, FileObj fn)")
  case False
  with fl ok show ?thesis by (auto simp: ecall_fs_flush_def split: option.splits inode_obj.splits)
next
  case True
  then obtain a fn where f: "find_inode w ino = Some (a, FileObj fn)" by blast
  with fl obtain r1 w1 where l: "flush_loop e a [0..<length (fn_chunks fn)] w = Some (r1, w1)"
    and rest: "(if r1 \<noteq> RC_OK then Some (r1, w1)
      else (case heap w1 a of Some (FileObj fn) \<Rightarrow>
        (case save_metadata e Filenode_dump (md_uuid fn) fn w1 of (ok, w) \<Rightarrow> Some (if ok then RC_OK else EIO, w))
      | _ \<Rightarrow> None)) = Some (r, w')"
    by (auto simp: ecall_fs_flush_def split: bind_splits)
  have "host.more w' = host.more w1"
    using rest by (auto split: if_splits option.splits inode_obj.splits prod.splits dest: save_metadata_more)
  with data_kept_trans [OF flush_loop_frame [OF l] data_kept_more] ok show ?thesis
    by (blast intro: data_kept_enclave)
qed

lemma fallocate_enclave:
  assumes ok: "enclave_ok w" and fa: "ecall_fs_fallocate ino mode offset len w = (r, w')"
  shows "enclave_ok w'"
proof -
  have "data_kept w w'"
    using fa by (auto simp: ecall_fs_fallocate_def Let_def split: option.splits inode_obj.splits if_splits
        intro!: data_kept_upd_file dest: find_inode_cell)
  with ok show ?thesis by (rule data_kept_enclave)
qed


section \<open>The transition relation\<close>

text \<open>
  One step under the environment \<open>e\<close>.  The calls that return an attribute, a directory listing or the
  right of access change nothing and have no rule.
\<close>

inductive step :: "'c env \<Rightarrow> world \<Rightarrow> world \<Rightarrow> bool" for e where
  Lookup: "ecall_fs_lookup e parent name w = Some (r, ino, st, w') \<Longrightarrow> step e w w'"
| Forget: "ecall_fs_forget ino nlookup w = (i, w') \<Longrightarrow> step e w w'"
| Mkdir: "ecall_fs_mkdir e parent name w = Some (r, ino, st, w') \<Longrightarrow> step e w w'"
| Create: "ecall_fs_create e parent name w = Some (r, ino, st, w') \<Longrightarrow> step e w w'"
| Unlink: "ecall_fs_unlink e parent name w = Some (r, w') \<Longrightarrow> step e w w'"
| Rmdir: "ecall_fs_rmdir e parent name w = Some (r, w') \<Longrightarrow> step e w w'"
| Open: "ecall_fs_open e ino flags w = (r, w') \<Longrightarrow> step e w w'"
| Read: "ecall_fs_read e ino buf offset sz w = Some (r, sz', buf', w') \<Longrightarrow> step e w w'"
| Write: "ecall_fs_write e ino buf offset sz w = Some (r, sz', w') \<Longrightarrow> step e w w'"
| Flush: "ecall_fs_flush e ino w = Some (r, w') \<Longrightarrow> step e w w'"
| Fallocate: "ecall_fs_fallocate ino mode offset len w = (r, w') \<Longrightarrow> step e w w'"
| Outside: "host.more w' = host.more w \<Longrightarrow> step e w w'"

inductive reachable :: "'c env \<Rightarrow> world \<Rightarrow> world \<Rightarrow> bool" for e w where
  Start: "reachable e w w"
| Step: "reachable e w w' \<Longrightarrow> step e w' w'' \<Longrightarrow> reachable e w w''"

lemmas handler_enclave = lookup_enclave forget_enclave mkdir_enclave create_enclave unlink_enclave rmdir_enclave
  open_enclave read_enclave write_enclave flush_enclave fallocate_enclave

lemma step_enclave:
  assumes "step e w w'" and "enclave_ok w"
  shows "enclave_ok w'"
  using assms
proof (cases rule: step.cases)
  case Outside
  then show ?thesis by (rule enclave_ok_more [OF assms(2)])
qed (erule (1) handler_enclave)+

lemma reachable_enclave:
  assumes "reachable e w w'" and "enclave_ok w"
  shows "enclave_ok w'"
  using assms by (induction rule: reachable.induct) (auto intro: step_enclave)


section \<open>Progress of the eviction loop\<close>

text \<open>The loop ends, with a result, when the files of all cached chunks are open.\<close>

lemma evict_chunks_ends:
  assumes "cs_inv (local_cache w)"
    and "\<forall>c\<in>set (cs_items (local_cache w)). ChunkCache_chunk w c \<noteq> None"
  shows "\<exists>ok w'. evict_chunks e w = Some (ok, w') \<and> (ok \<longrightarrow> length (cs_items (local_cache w')) \<le> MAX_CACHE_NUM)"
  using assms
proof (induction e w rule: evict_chunks.induct)
  case (1 e w)
  show ?case
  proof (cases "length (kl_nodes (local_cache w)) \<le> MAX_CACHE_NUM")
    case True
    then show ?thesis by (intro exI [of _ True] exI [of _ w]) (simp add: evict_chunks.simps [of e w] length_items)
  next
    case False
    then obtain old rest where items: "cs_items (local_cache w) = old # rest"
      using length_items [of "local_cache w"] by (cases "cs_items (local_cache w)") auto
    from get_pop_front_eq [OF "1.prems"(1) items] obtain st where
      st: "ChunkStore_get_pop_front (local_cache w) = Some (old, st)" "cs_inv st" "cs_items st = rest" by blast
    let ?w = "w\<lparr>local_cache := st\<rparr>"
    have cc: "ChunkCache_chunk ?w = ChunkCache_chunk w" by (simp add: fun_eq_iff ChunkCache_chunk_def)
    have alive: "\<forall>c\<in>set rest. ChunkCache_chunk w c \<noteq> None" using "1.prems"(2) items by simp
    from "1.prems"(2) items cc obtain ck where ck: "ChunkCache_chunk ?w old = Some ck" by auto
    show ?thesis
    proof (cases "cc_modified old")
      case no: False
      from "1.IH"(1) [OF False st(1) refl ck no] st cc alive
      have "\<exists>ok w'. evict_chunks e ?w = Some (ok, w') \<and> (ok \<longrightarrow> length (cs_items (local_cache w')) \<le> MAX_CACHE_NUM)"
        by simp
      then show ?thesis by (simp add: evict_chunks.simps [of e w] False st(1) ck no)
    next
      case True
      obtain r ck' w1 where sv: "save_cache e \<lparr>ck_uuid = ck_uuid ck, ck_iv = 0, ck_tag = 0\<rparr> (cc_data old) ?w = (r, ck', w1)"
        by (rule prod_cases3)
      have m: "host.more w1 = host.more ?w" by (rule save_cache_frame(1) [OF sv])
      let ?w2 = "set_chunk (cc_filenode old) (unat (cc_idx old)) ck' w1"
      have lc: "local_cache ?w2 = st" using more_world(6) [OF m] by simp
      have "heap w1 = heap w" using more_world(2) [OF m] by simp
      then have al: "ChunkCache_chunk ?w2 c \<noteq> None" if "ChunkCache_chunk w c \<noteq> None" for c
        using that by (auto simp: ChunkCache_chunk_def set_chunk_def split: option.splits inode_obj.splits if_splits)
      show ?thesis
      proof (cases r)
        case no: False
        then show ?thesis
          by (intro exI [of _ False] exI [of _ w1]) (simp add: evict_chunks.simps [of e w] False st(1) ck True sv)
      next
        case r: True
        have "\<not> \<not> cc_modified old" "\<not> \<not> r" using True r by simp_all
        from "1.IH"(2) [OF False st(1) refl ck this(1) sv [symmetric] refl this(2)] st(2,3) lc alive al
        have "\<exists>ok w'. evict_chunks e ?w2 = Some (ok, w') \<and> (ok \<longrightarrow> length (cs_items (local_cache w')) \<le> MAX_CACHE_NUM)"
          by simp
        then show ?thesis
          by (simp add: evict_chunks.simps [of e w] False st(1) ck True sv r)
      qed
    qed
  qed
qed

end
