(* ===== verification/Namespace_Claims.thy ===== *)
theory Namespace_Claims
  imports Reachable Sample_World
begin

text \<open>
  The properties of the calls on names: \<open>create\<close> and \<open>mkdir\<close> refine an abstract insertion into the name
  space, \<open>lookup\<close>, \<open>forget\<close>, \<open>unlink\<close> and \<open>rmdir\<close> do what their callers rely on, and every sequence of
  calls keeps the enclave's invariant.
\<close>

section \<open>Samples\<close>

lemma sample_table_ok: "table_ok sample_world"
  by (simp add: table_ok_def sample_world_def)

lemma sample_view: "view sample_world 1 = Some (DirNode [''a.txt'' \<mapsto> (5, T_DT_REG)])"
  by (simp add: view_dir [OF sample_find(2)] sample_root_def entries_def fun_eq_iff)

lemma sample_superinfo: "superinfo sample_world = Some sample_super" "si_max_ino sample_super = 6"
  "inode_map sample_world 6 = None"
  by (simp_all add: sample_world_def sample_super_def)

lemma sample_enclave_ok: "enclave_ok sample_world"
  by (simp add: enclave_ok_def sample_table_ok cache_ok_def) (simp add: sample_world_def split: if_splits)

lemma sample_key: "length (volkey sample_world) = VOLKEYSIZE"
  by (simp add: sample_world_def)

text \<open>The sample file in the store, as no lookup has counted it.\<close>

definition sample_stored_file :: filenode where
  "sample_stored_file = sample_file\<lparr>in_refcount := 0\<rparr>"

lemma sample_file_storable: "Filenode_storable sample_stored_file"
proof -
  have "unat (chunks_for 3) = 1" by code_simp
  then show ?thesis
    by (simp add: sample_stored_file_def sample_file_def Filenode_storable_def Filenode_bytes_def
        sizeof_filenode_buffer_def sizeof_chunk_def)
qed

text \<open>A root directory that has one directory, which is empty and in the store.\<close>

definition sample_child :: dirnode where
  "sample_child = \<lparr>md_uuid = 104, in_ino = 7, in_refcount = 0, dn_name = ''d'', dn_dirent = []\<rparr>"

definition sample_parent :: dirnode where
  "sample_parent = sample_root\<lparr>dn_dirent := [\<lparr>de_ino = 7, de_name = ''d'', de_type = T_DT_DIR, de_uuid = 104\<rparr>]\<rparr>"

definition sample_tree :: world where
  "sample_tree = sample_world\<lparr>heap := [0 \<mapsto> DirObj sample_parent, 1 \<mapsto> FileObj sample_file]\<rparr>"

lemma sample_tree_facts: "table_ok sample_tree" "find_inode sample_tree 1 = Some (0, DirObj sample_parent)"
  "length (volkey sample_tree) = VOLKEYSIZE"
  by (simp_all add: table_ok_def find_inode_def sample_tree_def) (simp_all add: sample_world_def)

lemma sample_dirs_storable: "Dirnode_storable sample_root" "Dirnode_storable sample_parent" "Dirnode_storable sample_child"
  by (simp_all add: sample_root_def sample_parent_def sample_child_def Dirnode_storable_def Dirent_storable_def
      Dirnode_bytes_def sizeof_dirnode_buffer_def sizeof_dirent_def fs_consts no_nul_def)

section \<open>New entries\<close>

text \<open>
  C4.  \<open>ecall_fs_create\<close> refines the abstract insertion \<open>spec_add\<close> on the name space, on every branch: a
  parent that is unknown, or a file, or has the name is refused with the code the specification gives and
  nothing changes; otherwise the name leads to the next inode number and to an empty file with one
  reference.
\<close>

theorem create_refines:
  assumes "table_ok w" and "superinfo w = Some si" and "inode_map w (si_max_ino si) = None"
  shows "\<exists>r ino st w'. ecall_fs_create e parent name w = Some (r, ino, st, w') \<and>
    (r, ino, view w') = spec_add (si_max_ino si) parent name T_DT_REG (FileNode 0) (view w) \<and>
    (r \<noteq> RC_OK \<longrightarrow> st = None \<and> w' = w) \<and>
    (r = RC_OK \<longrightarrow> (\<exists>fn. added w si (FileObj fn) st w' \<and> fn_size fn = 0 \<and> fn_chunks fn = []))"
  by (rule ecall_fs_create_ok [OF assms])

theorem create_refines_witness:
  "\<exists>st w'. ecall_fs_create sample_env 1 ''b.txt'' sample_world = Some (RC_OK, 6, st, w') \<and>
    view w' 6 = Some (FileNode 0) \<and> view w' 1 = Some (DirNode [''a.txt'' \<mapsto> (5, T_DT_REG), ''b.txt'' \<mapsto> (6, T_DT_REG)])"
proof -
  have "inode_map sample_world (si_max_ino sample_super) = None" by (simp add: sample_superinfo)
  from create_refines [OF sample_table_ok sample_superinfo(1) this, of sample_env 1 "''b.txt''"] obtain r ino st w' where
    "ecall_fs_create sample_env 1 ''b.txt'' sample_world = Some (r, ino, st, w')"
    and s: "(r, ino, view w') = spec_add 6 1 ''b.txt'' T_DT_REG (FileNode 0) (view sample_world)"
    by (auto simp: sample_superinfo)
  moreover from s have "r = RC_OK" "ino = 6"
    "view w' = (view sample_world)(1 \<mapsto> DirNode [''a.txt'' \<mapsto> (5, T_DT_REG), ''b.txt'' \<mapsto> (6, T_DT_REG)], 6 \<mapsto> FileNode 0)"
    by (simp_all add: spec_add_def sample_view)
  ultimately show ?thesis by simp
qed

text \<open>
  C15.  \<open>ecall_fs_mkdir\<close> refines the same specification with an empty directory.
\<close>

theorem mkdir_refines:
  assumes "table_ok w" and "superinfo w = Some si" and "inode_map w (si_max_ino si) = None"
  shows "\<exists>r ino st w'. ecall_fs_mkdir e parent name w = Some (r, ino, st, w') \<and>
    (r, ino, view w') = spec_add (si_max_ino si) parent name T_DT_DIR (DirNode Map.empty) (view w) \<and>
    (r \<noteq> RC_OK \<longrightarrow> st = None \<and> w' = w) \<and>
    (r = RC_OK \<longrightarrow> (\<exists>dn. added w si (DirObj dn) st w' \<and> dn_dirent dn = []))"
  by (rule ecall_fs_mkdir_ok [OF assms])

theorem mkdir_refines_witness:
  "ecall_fs_mkdir sample_env 1 ''a.txt'' sample_world = Some (EEXIST, 0, None, sample_world)"
proof -
  have "inode_map sample_world (si_max_ino sample_super) = None" by (simp add: sample_superinfo)
  from mkdir_refines [OF sample_table_ok sample_superinfo(1) this, of sample_env 1 "''a.txt''"] obtain r ino st w' where
    "ecall_fs_mkdir sample_env 1 ''a.txt'' sample_world = Some (r, ino, st, w')"
    and s: "(r, ino, view w') = spec_add 6 1 ''a.txt'' T_DT_DIR (DirNode Map.empty) (view sample_world)"
    and x: "r \<noteq> RC_OK \<longrightarrow> st = None \<and> w' = sample_world"
    by (auto simp: sample_superinfo)
  moreover from s have "r = EEXIST" "ino = 0" by (simp_all add: spec_add_def sample_view)
  ultimately show ?thesis by simp
qed

section \<open>Looking up and forgetting\<close>

text \<open>
  C14.  \<open>ecall_fs_lookup\<close> on any host: what the name space already shows is kept; on success the number
  is the one the parent's entry has for the name, and it leads to an object of that number, whose
  attributes are returned; and on failure no number is.
\<close>

theorem lookup_resolves:
  assumes "table_ok w" and "ecall_fs_lookup e parent name w = Some (r, ino, st, w')"
  shows "table_ok w' \<and> (\<forall>x. view w x \<noteq> None \<longrightarrow> view w' x = view w x) \<and>
    (if r = RC_OK
     then (\<exists>es ty b obj. view w parent = Some (DirNode es) \<and> es name = Some (ino, ty) \<and>
       find_inode w' ino = Some (b, obj) \<and> obj_ino obj = ino \<and> st = Some (obj_dump_stat obj) \<and>
       (\<forall>x. x \<noteq> ino \<longrightarrow> view w' x = view w x))
     else r \<in> {ENOENT, ENONET} \<and> ino = 0 \<and> st = None)"
  by (rule ecall_fs_lookup_ok [OF assms])

theorem lookup_resolves_witness:
  "\<exists>st w'. ecall_fs_lookup sample_env 1 ''a.txt'' sample_world = Some (RC_OK, 5, st, w') \<and>
    table_ok w' \<and> st \<noteq> None"
proof -
  obtain r ino st w' where lk: "ecall_fs_lookup sample_env 1 ''a.txt'' sample_world = Some (r, ino, st, w')" and r: "r = RC_OK" "ino = 5"
    by (simp add: ecall_fs_lookup_def sample_find Let_def) (simp add: sample_root_def sample_find sample_file_def lookup_fetch_def)
  with lookup_resolves [OF sample_table_ok lk] show ?thesis by auto
qed




section \<open>Removing entries\<close>

text \<open>
  C12.  Unlinking a file whose metadata is in the store removes its name from the directory and, of all
  files in the store, its metadata file and its chunks', and no other but the directory's own.
\<close>

theorem unlink_removes:
  assumes "env_lawful e" and "host_reliable e" and "table_ok w"
    and "find_inode w parent = Some (a, DirObj dn)" and "Dirnode_storable dn"
    and "distinct (map de_name (dn_dirent dn))"
    and "dent \<in> set (dn_dirent dn)" and "de_name dent = name" and "de_type dent \<noteq> T_DT_DIR"
    and "stored_file e w fn" and "md_uuid fn = de_uuid dent"
  shows "\<exists>w'. ecall_fs_unlink e parent name w = Some (RC_OK, w') \<and> table_ok w' \<and>
    view w' = (view w)(parent \<mapsto> DirNode ((entries (dn_dirent dn))(name := None))) \<and>
    (\<forall>f. f \<noteq> UUID_unparse (md_uuid dn) \<longrightarrow> files w' f =
      (if f = UUID_unparse (de_uuid dent) \<or> f \<in> chunk_files (fn_chunks fn) then None else files w f))"
  by (rule ecall_fs_unlink_ok [OF assms])

theorem unlink_removes_witness:
  "\<exists>w1 w2. save_metadata sample_env Filenode_dump 101 sample_stored_file sample_world = (True, w1) \<and>
    view w1 1 = Some (DirNode [''a.txt'' \<mapsto> (5, T_DT_REG)]) \<and> files w1 (UUID_unparse 101) \<noteq> None \<and>
    ecall_fs_unlink sample_env 1 ''a.txt'' w1 = Some (RC_OK, w2) \<and>
    view w2 1 = Some (DirNode Map.empty) \<and> files w2 (UUID_unparse 101) = None"
proof -
  let ?d = "\<lparr>de_ino = 5, de_name = ''a.txt'', de_type = T_DT_REG, de_uuid = 101\<rparr>"
  have u: "md_uuid sample_stored_file = de_uuid ?d" "in_refcount sample_stored_file = 0"
    by (simp_all add: sample_stored_file_def sample_file_def)
  from filenode.save_metadata_ok [OF sample_env_lawful sample_env_reliable sample_key sample_file_storable, of 101]
  obtain img w1 where sv: "save_metadata sample_env Filenode_dump 101 sample_stored_file sample_world = (True, w1)"
    and st: "stored_meta sample_env w1 101 img" "\<forall>m0. Filenode_fresh m0 sample_stored_file \<longrightarrow> Filenode_load m0 img = Some (True, sample_stored_file)"
    and m: "host.more w1 = host.more sample_world" by blast
  have t: "table_ok w1" using table_ok_more [OF m] sample_table_ok by simp
  have f: "find_inode w1 1 = Some (0, DirObj sample_root)" using find_inode_more [OF m] sample_find by simp
  have v: "view w1 = view sample_world" by (rule view_more [OF m])
  have "stored_file sample_env w1 sample_stored_file" using st u by (auto simp: stored_file_def)
  moreover have "distinct (map de_name (dn_dirent sample_root))" "?d \<in> set (dn_dirent sample_root)" "de_type ?d \<noteq> T_DT_DIR"
    by (simp_all add: sample_root_def fs_consts)
  ultimately obtain w2 where "ecall_fs_unlink sample_env 1 ''a.txt'' w1 = Some (RC_OK, w2)"
    and "view w2 = (view w1)(1 \<mapsto> DirNode ((entries (dn_dirent sample_root))(''a.txt'' := None)))"
    and fl: "\<forall>f. f \<noteq> UUID_unparse (md_uuid sample_root) \<longrightarrow> files w2 f =
      (if f = UUID_unparse (de_uuid ?d) \<or> f \<in> chunk_files (fn_chunks sample_stored_file) then None else files w1 f)"
    using unlink_removes [OF sample_env_lawful sample_env_reliable t f sample_dirs_storable(1), of ?d "''a.txt''" sample_stored_file] u
    by auto
  moreover have "files w1 (UUID_unparse 101) \<noteq> None" using st(1) by (auto simp: stored_meta_def)
  moreover have "UUID_unparse 101 \<noteq> UUID_unparse (md_uuid sample_root)" by (simp add: UUID_unparse_inject sample_root_def)
  moreover from this fl have "files w2 (UUID_unparse 101) = None" by simp
  moreover have "(entries (dn_dirent sample_root))(''a.txt'' := None) = Map.empty"
    by (simp add: sample_root_def entries_def fun_eq_iff)
  ultimately show ?thesis using sv v by (intro exI [of _ w1] exI [of _ w2]) (simp add: sample_view)
qed

text \<open>
  C13.  Removing a directory that is in the store: an empty one disappears from its parent and from the
  store; for one with entries the call answers \<open>ENOTEMPTY\<close> and neither the name space nor the store changes.
\<close>

theorem rmdir_removes_empty:
  assumes "env_lawful e" and "host_reliable e" and "table_ok w"
    and "find_inode w parent = Some (a, DirObj dn)" and "Dirnode_storable dn"
    and "distinct (map de_name (dn_dirent dn))"
    and "dent \<in> set (dn_dirent dn)" and "de_name dent = name" and "de_type dent = T_DT_DIR"
    and "stored_dir e w cd" and "md_uuid cd = de_uuid dent"
  shows "\<exists>r w'. ecall_fs_rmdir e parent name w = Some (r, w') \<and> table_ok w' \<and>
    (if dn_dirent cd = [] then r = RC_OK \<and>
       view w' = (view w)(parent \<mapsto> DirNode ((entries (dn_dirent dn))(name := None))) \<and>
       (\<forall>f. f \<noteq> UUID_unparse (md_uuid dn) \<longrightarrow> files w' f =
         (if f = UUID_unparse (de_uuid dent) then None else files w f))
     else r = ENOTEMPTY \<and> view w' = view w \<and> files w' = files w)"
  by (rule ecall_fs_rmdir_ok [OF assms])

theorem rmdir_removes_empty_witness:
  "\<exists>w1 w2. save_metadata sample_env Dirnode_dump 104 sample_child sample_tree = (True, w1) \<and>
    ecall_fs_rmdir sample_env 1 ''d'' w1 = Some (RC_OK, w2) \<and> view w2 1 = Some (DirNode Map.empty)"
proof -
  let ?d = "\<lparr>de_ino = 7, de_name = ''d'', de_type = T_DT_DIR, de_uuid = 104\<rparr>"
  have u: "md_uuid sample_child = de_uuid ?d" "in_refcount sample_child = 0" "dn_dirent sample_child = []"
    by (simp_all add: sample_child_def)
  from dirnode.save_metadata_ok [OF sample_env_lawful sample_env_reliable sample_tree_facts(3) sample_dirs_storable(3), of 104]
  obtain img w1 where sv: "save_metadata sample_env Dirnode_dump 104 sample_child sample_tree = (True, w1)"
    and st: "stored_meta sample_env w1 104 img" "\<forall>m0. Dirnode_fresh m0 sample_child \<longrightarrow> Dirnode_load m0 img = Some (True, sample_child)"
    and m: "host.more w1 = host.more sample_tree" by blast
  have t: "table_ok w1" using table_ok_more [OF m] sample_tree_facts by simp
  have f: "find_inode w1 1 = Some (0, DirObj sample_parent)" using find_inode_more [OF m] sample_tree_facts by simp
  have "stored_dir sample_env w1 sample_child" using st u by (auto simp: stored_dir_def)
  moreover have "distinct (map de_name (dn_dirent sample_parent))" "?d \<in> set (dn_dirent sample_parent)"
    by (simp_all add: sample_parent_def)
  ultimately obtain w2 where "ecall_fs_rmdir sample_env 1 ''d'' w1 = Some (RC_OK, w2)"
    and "view w2 = (view w1)(1 \<mapsto> DirNode ((entries (dn_dirent sample_parent))(''d'' := None)))"
    using rmdir_removes_empty [OF sample_env_lawful sample_env_reliable t f sample_dirs_storable(2), of ?d "''d''" sample_child] u
    by auto
  moreover have "(entries (dn_dirent sample_parent))(''d'' := None) = Map.empty"
    by (simp add: sample_parent_def entries_def fun_eq_iff)
  ultimately show ?thesis using sv by (intro exI [of _ w1] exI [of _ w2]) simp
qed

section \<open>Every sequence of calls\<close>

text \<open>
  C5.  The enclave's invariant holds after any sequence of calls, with any arguments, whatever the host
  does in between: the inode table leads to objects, each to a different one, and owns them all; the
  superinfo is there; and the cache is consistent and within its bound.
\<close>

theorem enclave_invariant:
  assumes "enclave_ok w" and "reachable e w w'"
  shows "enclave_ok w'"
  by (rule reachable_enclave [OF assms(2,1)])

theorem enclave_invariant_witness:
  "\<exists>st w'. ecall_fs_create sample_env 1 ''b.txt'' sample_world = Some (RC_OK, 6, st, w') \<and> enclave_ok w'"
proof -
  obtain ino st w' where c: "ecall_fs_create sample_env 1 ''b.txt'' sample_world = Some (RC_OK, ino, st, w')" and i: "ino = 6"
    using ecall_fs_create_ok [OF sample_table_ok sample_superinfo(1), of sample_env 1 "''b.txt''"] sample_superinfo
    by (auto simp: spec_add_def sample_view)
  from enclave_invariant [OF sample_enclave_ok Step [OF Start Create [OF c]]] c i show ?thesis by auto
qed

text \<open>
  C26.  The eviction loop of \<open>save_chunk\<close> ends: when the files of all cached chunks are open it returns,
  and when it reports success the cache is within its bound.
\<close>

theorem eviction_ends:
  assumes "cs_inv (local_cache w)"
    and "\<forall>c\<in>set (cs_items (local_cache w)). ChunkCache_chunk w c \<noteq> None"
  shows "\<exists>ok w'. evict_chunks e w = Some (ok, w') \<and> (ok \<longrightarrow> length (cs_items (local_cache w')) \<le> MAX_CACHE_NUM)"
  by (rule evict_chunks_ends [OF assms])

theorem eviction_ends_witness:
  "cs_items (local_cache sample_cached_world) = [sample_cache] \<and>
    (\<exists>ok w'. evict_chunks sample_env sample_cached_world = Some (ok, w'))"
proof -
  have "ChunkCache_chunk sample_cached_world sample_cache \<noteq> None"
    by (simp add: ChunkCache_chunk_def sample_cached_world_def sample_cache_def sample_cached_file_def)
  with eviction_ends [of sample_cached_world sample_env] data_invD(1) [OF data_okD [OF sample_cached_data_ok]]
  show ?thesis by (auto simp: sample_cached_items)
qed

end
