(* ===== verification/Usertable.thy ===== *)
theory Usertable
  imports Metadata_Io
begin

text \<open>
  Class \<open>Usertable\<close> (\<^verbatim>\<open>enclave/usertable.cpp\<close>): the users of a volume with their public keys.
  An image is a \<open>usertable_buffer_t\<close> (entry count at 0, entries from 8 on) followed by \<open>userinfo_t\<close>
  structs of 272 bytes (owner flag at 0, user number at 4, key size at 8, key at 16).

  The elliptic-curve functions of mbedTLS are parameters, in the record \<open>ecp\<close>; each returns its status.
  The table is a \<open>std::unordered_map\<close>, whose order of iteration the language leaves open: the model
  is the list of its entries in that order, and \<open>um_place\<close> says where a new entry goes.
\<close>

section \<open>The library\<close>

datatype ecp_group_id = MBEDTLS_ECP_DP_NONE | MBEDTLS_ECP_DP_SECP384R1 | MBEDTLS_ECP_DP_other nat

record ('g, 'q) ecp =
  ec_group_init :: "'g"
  ec_point_init :: "'q"
  ec_group_load :: "ecp_group_id \<Rightarrow> int \<times> 'g"
  ec_group_id :: "'g \<Rightarrow> ecp_group_id"
  ec_point_read :: "'g \<Rightarrow> bytes \<Rightarrow> size_t \<Rightarrow> int \<times> 'q"
  ec_point_write :: "'g \<Rightarrow> 'q \<Rightarrow> nat \<Rightarrow> int \<times> size_t \<times> bytes"
  ec_check_pubkey :: "'g \<Rightarrow> 'q \<Rightarrow> int"
  ec_copy :: "'q \<Rightarrow> int \<times> 'q"
  um_place :: "uid_t list \<Rightarrow> uid_t \<Rightarrow> nat"

record ('g, 'q) keypair =
  kp_grp :: "'g"
  kp_Q :: "'q"

definition keypair_init :: "('g, 'q) ecp \<Rightarrow> ('g, 'q) keypair" where
  "keypair_init E = \<lparr>kp_grp = ec_group_init E, kp_Q = ec_point_init E\<rparr>"

section \<open>One user\<close>

record ('g, 'q) Userinfo =
  ui_is_owner :: bool
  ui_pubkey :: "('g, 'q) keypair"

record ('g, 'q) Usertable = metadata +
  ut_usermap :: "(uid_t \<times> ('g, 'q) Userinfo) list"

definition grp_id :: ecp_group_id where
  "grp_id = MBEDTLS_ECP_DP_SECP384R1"

definition sizeof_userinfo :: nat where "sizeof_userinfo = 272"

definition sizeof_usertable_buffer :: nat where "sizeof_usertable_buffer = 8"

definition sizeof_pubkey :: nat where "sizeof_pubkey = 256"

text \<open>The constructors throw \<open>std::invalid_argument\<close>, here \<^term>\<open>None\<close>; the owner flag is not initialised by the first.\<close>

definition Userinfo_ctor :: "('g, 'q) ecp \<Rightarrow> bool \<Rightarrow> ('g, 'q) Userinfo option" where
  "Userinfo_ctor E junk =
     (case ec_group_load E grp_id of (r, g) \<Rightarrow>
        if r \<noteq> 0 then None
        else Some \<lparr>ui_is_owner = junk, ui_pubkey = (keypair_init E)\<lparr>kp_grp := g\<rparr>\<rparr>)"

text \<open>
  The struct at offset \<open>off\<close>.  The library is given the memory from the key on and the stated size,
  which it has to check.
\<close>

definition Userinfo_read :: "('g, 'q) ecp \<Rightarrow> bool \<Rightarrow> nat \<Rightarrow> bytes \<Rightarrow> ('g, 'q) Userinfo option" where
  "Userinfo_read E junk off buf = do {
     ui \<leftarrow> Userinfo_ctor E junk;
     let ui = ui\<lparr>ui_is_owner := (le_word (rd off 4 buf) :: 32 word) \<noteq> 0\<rparr>;
     (case ec_point_read E (kp_grp (ui_pubkey ui)) (drop (off + 16) buf) (le_word (rd (off + 8) 8 buf)) of (r, q) \<Rightarrow>
        if r \<noteq> 0 then None
        else let ui = ui\<lparr>ui_pubkey := (ui_pubkey ui)\<lparr>kp_Q := q\<rparr>\<rparr>
          in if ec_check_pubkey E (kp_grp (ui_pubkey ui)) q \<noteq> 0 then None else Some ui)
   }"

text \<open>The member \<open>load\<close> reports a failure by its result and leaves the object changed.\<close>

definition Userinfo_load :: "('g, 'q) ecp \<Rightarrow> nat \<Rightarrow> bytes \<Rightarrow> ('g, 'q) Userinfo \<Rightarrow> bool \<times> ('g, 'q) Userinfo" where
  "Userinfo_load E off buf ui =
     (let ui = ui\<lparr>ui_is_owner := (le_word (rd off 4 buf) :: 32 word) \<noteq> 0\<rparr> in
      case ec_point_read E (kp_grp (ui_pubkey ui)) (drop (off + 16) buf) (le_word (rd (off + 8) 8 buf)) of (r, q) \<Rightarrow>
      if r \<noteq> 0 then (False, ui\<lparr>ui_pubkey := keypair_init E\<rparr>)
      else let ui = ui\<lparr>ui_pubkey := (ui_pubkey ui)\<lparr>kp_Q := q\<rparr>\<rparr> in
      if ec_check_pubkey E (kp_grp (ui_pubkey ui)) q \<noteq> 0 then (False, ui) else (True, ui))"

definition Userinfo_set_pubkey ::
    "('g, 'q) ecp \<Rightarrow> ('g, 'q) keypair \<Rightarrow> ('g, 'q) Userinfo \<Rightarrow> bool \<times> ('g, 'q) Userinfo" where
  "Userinfo_set_pubkey E key ui =
     (if ec_group_id E (kp_grp (ui_pubkey ui)) \<noteq> ec_group_id E (kp_grp key) then (False, ui)
      else case ec_copy E (kp_Q key) of (r, q) \<Rightarrow>
      let ui = ui\<lparr>ui_pubkey := (ui_pubkey ui)\<lparr>kp_Q := q\<rparr>\<rparr> in
      if r \<noteq> 0 then (False, ui)
      else if ec_check_pubkey E (kp_grp (ui_pubkey ui)) q \<noteq> 0 then (False, ui)
      else (True, ui))"

definition Userinfo_dump :: "('g, 'q) ecp \<Rightarrow> ('g, 'q) Userinfo \<Rightarrow> nat \<Rightarrow> bytes \<Rightarrow> bytes" where
  "Userinfo_dump E ui off buf =
     (let buf = wr off (le_bytes 4 (if ui_is_owner ui then 1 else 0 :: 32 word)) buf;
          buf = wr (off + 16) (replicate sizeof_pubkey 0) buf in
      case ec_point_write E (kp_grp (ui_pubkey ui)) (kp_Q (ui_pubkey ui)) sizeof_pubkey of (r, olen, out) \<Rightarrow>
      let buf = wr (off + 8) (le_bytes 8 olen) (wr (off + 16) out buf)
      in if r \<noteq> 0 then wr (off + 8) (le_bytes 8 (0 :: size_t)) buf else buf)"

section \<open>The table\<close>

definition um_insert :: "('g, 'q) ecp \<Rightarrow> uid_t \<Rightarrow> ('g, 'q) Userinfo \<Rightarrow>
    (uid_t \<times> ('g, 'q) Userinfo) list \<Rightarrow> (uid_t \<times> ('g, 'q) Userinfo) list" where
  "um_insert E u ui m = (let n = um_place E (map fst m) u in take n m @ (u, ui) # drop n m)"

fun Usertable_load_entries ::
    "('g, 'q) ecp \<Rightarrow> nat \<Rightarrow> nat \<Rightarrow> bytes \<Rightarrow> (uid_t \<times> ('g, 'q) Userinfo) list \<Rightarrow>
     (bool \<times> (uid_t \<times> ('g, 'q) Userinfo) list) option" where
  "Usertable_load_entries E i 0 buf m = Some (True, m)"
| "Usertable_load_entries E i (Suc n) buf m =
     (let off = sizeof_usertable_buffer + sizeof_userinfo * i in
      if length buf < off + sizeof_userinfo then None
      else let u = le_word (rd (off + 4) 4 buf) :: uid_t in
      if u \<in> fst ` set m then Some (False, m)
      else case Userinfo_read E False off buf of
        None \<Rightarrow> Some (False, m)
      | Some ui \<Rightarrow> Usertable_load_entries E (Suc i) n buf (um_insert E u ui m))"

text \<open>As in the other classes the entry count is read before the size is compared.\<close>

definition Usertable_load :: "('g, 'q) ecp \<Rightarrow> ('g, 'q) Usertable \<Rightarrow> bytes \<Rightarrow> (bool \<times> ('g, 'q) Usertable) option" where
  "Usertable_load E ut obuf =
     (if length obuf < sizeof_usertable_buffer then None
      else let entnum = le_word (rd 0 8 obuf) :: size_t;
               rqsize = of_nat sizeof_usertable_buffer + of_nat sizeof_userinfo * entnum
      in if of_nat (length obuf) \<noteq> rqsize then Some (False, ut)
      else do {
        (ok, m) \<leftarrow> Usertable_load_entries E 0 (unat entnum) obuf (ut_usermap ut);
        Some (ok, ut\<lparr>ut_usermap := m\<rparr>)
      })"

text \<open>The index of the loop is never advanced: every user is written to the first entry.\<close>

fun Usertable_dump_entries :: "('g, 'q) ecp \<Rightarrow> (uid_t \<times> ('g, 'q) Userinfo) list \<Rightarrow> bytes \<Rightarrow> bytes" where
  "Usertable_dump_entries E [] buf = buf"
| "Usertable_dump_entries E ((u, ui) # m) buf =
     (let idx = 0; off = sizeof_usertable_buffer + sizeof_userinfo * idx
      in Usertable_dump_entries E m (Userinfo_dump E ui off (wr (off + 4) (le_bytes 4 u) buf)))"

definition Usertable_dump :: "('g, 'q) ecp \<Rightarrow> ('g, 'q) Usertable \<Rightarrow> bytes option \<Rightarrow> size_t \<Rightarrow> size_t \<times> bytes option" where
  "Usertable_dump E ut buf bsize =
     (let rqsize = of_nat sizeof_usertable_buffer + of_nat sizeof_userinfo * of_nat (length (ut_usermap ut)) in
      case buf of
        None \<Rightarrow> (rqsize, None)
      | Some obuf \<Rightarrow>
          if bsize < rqsize then (0, Some obuf)
          else (rqsize, Some (Usertable_dump_entries E (ut_usermap ut)
            (wr 0 (le_bytes 8 (of_nat (length (ut_usermap ut)) :: size_t)) obuf))))"

definition Usertable_ctor :: "uuid \<Rightarrow> ('g, 'q) Usertable" where
  "Usertable_ctor u = metadata.extend (Metadata_ctor u) \<lparr>ut_usermap = []\<rparr>"

text \<open>The assignment \<open>user_tb->usermap[u] = ui\<close>.\<close>

definition um_assign :: "('g, 'q) ecp \<Rightarrow> uid_t \<Rightarrow> ('g, 'q) Userinfo \<Rightarrow>
    (uid_t \<times> ('g, 'q) Userinfo) list \<Rightarrow> (uid_t \<times> ('g, 'q) Userinfo) list" where
  "um_assign E u ui m =
     (if u \<in> fst ` set m then map (\<lambda>(v, x). if v = u then (v, ui) else (v, x)) m else um_insert E u ui m)"

section \<open>Round trip of a table with one user\<close>

text \<open>
  What the library documents of the curve the volume uses: the group is loaded, and a valid public key
  is written in a form that is read back, whatever bytes follow it.
\<close>

definition ecp_lawful :: "('g, 'q) ecp \<Rightarrow> bool" where
  "ecp_lawful E \<longleftrightarrow> (\<exists>g. ec_group_load E grp_id = (0, g) \<and> ec_group_id E g = grp_id \<and>
     (\<forall>q. ec_copy E q = (0, q)) \<and>
     (\<forall>q. ec_check_pubkey E g q = 0 \<longrightarrow>
       (\<exists>n out. ec_point_write E g q sizeof_pubkey = (0, n, out) \<and> length out = unat n \<and> unat n \<le> sizeof_pubkey \<and>
         (\<forall>rest. ec_point_read E g (out @ rest) n = (0, q)))))"

definition ecp_group :: "('g, 'q) ecp \<Rightarrow> 'g" where
  "ecp_group E = snd (ec_group_load E grp_id)"

text \<open>A user with a valid key on that curve.\<close>

definition user_ok :: "('g, 'q) ecp \<Rightarrow> ('g, 'q) Userinfo \<Rightarrow> bool" where
  "user_ok E ui \<longleftrightarrow> kp_grp (ui_pubkey ui) = ecp_group E \<and> ec_check_pubkey E (ecp_group E) (kp_Q (ui_pubkey ui)) = 0"

lemma ecp_lawfulD:
  assumes "ecp_lawful E"
  shows "ec_group_load E grp_id = (0, ecp_group E)" and "ec_group_id E (ecp_group E) = grp_id" and "ec_copy E q = (0, q)"
    and "ec_check_pubkey E (ecp_group E) q = 0 \<Longrightarrow>
      \<exists>n out. ec_point_write E (ecp_group E) q sizeof_pubkey = (0, n, out) \<and> length out = unat n \<and> unat n \<le> sizeof_pubkey \<and>
         (\<forall>rest. ec_point_read E (ecp_group E) (out @ rest) n = (0, q))"
proof -
  from assms obtain g where g: "ec_group_load E grp_id = (0, g)" "ec_group_id E g = grp_id" "\<forall>q. ec_copy E q = (0, q)"
    "\<forall>q. ec_check_pubkey E g q = 0 \<longrightarrow>
       (\<exists>n out. ec_point_write E g q sizeof_pubkey = (0, n, out) \<and> length out = unat n \<and> unat n \<le> sizeof_pubkey \<and>
         (\<forall>rest. ec_point_read E g (out @ rest) n = (0, q)))"
    unfolding ecp_lawful_def by blast
  then have "ecp_group E = g" by (simp add: ecp_group_def)
  with g show "ec_group_load E grp_id = (0, ecp_group E)" "ec_group_id E (ecp_group E) = grp_id" "ec_copy E q = (0, q)"
    "ec_check_pubkey E (ecp_group E) q = 0 \<Longrightarrow>
      \<exists>n out. ec_point_write E (ecp_group E) q sizeof_pubkey = (0, n, out) \<and> length out = unat n \<and> unat n \<le> sizeof_pubkey \<and>
         (\<forall>rest. ec_point_read E (ecp_group E) (out @ rest) n = (0, q))" by blast+
qed

lemma length_Userinfo_dump:
  assumes "ecp_lawful E" "user_ok E ui" "off + sizeof_userinfo \<le> length buf"
  shows "length (Userinfo_dump E ui off buf) = length buf"
    and "rd (off + 4) 4 (Userinfo_dump E ui off buf) = rd (off + 4) 4 buf"
    and "o' + n \<le> off \<Longrightarrow> rd o' n (Userinfo_dump E ui off buf) = rd o' n buf"
    and "Userinfo_read E junk off (Userinfo_dump E ui off buf) = Some ui"
proof -
  note E = ecp_lawfulD [OF assms(1)]
  have "ec_check_pubkey E (ecp_group E) (kp_Q (ui_pubkey ui)) = 0" using assms(2) by (simp add: user_ok_def)
  from E(4) [OF this] obtain n out where
    w: "ec_point_write E (ecp_group E) (kp_Q (ui_pubkey ui)) sizeof_pubkey = (0, n, out)"
    and l: "length out = unat n" "unat n \<le> sizeof_pubkey"
    and r: "\<And>rest. ec_point_read E (ecp_group E) (out @ rest) n = (0, kp_Q (ui_pubkey ui))" by blast
  note l = l(1) l(2) [unfolded sizeof_pubkey_def]
  let ?b = "wr (off + 8) (le_bytes 8 n) (wr (off + 16) out (wr (off + 16) (replicate 256 0)
    (wr off (le_bytes 4 (if ui_is_owner ui then 1 else 0 :: 32 word)) buf)))"
  have d: "Userinfo_dump E ui off buf = ?b"
    using w assms(2) by (simp add: Userinfo_dump_def Let_def user_ok_def sizeof_pubkey_def)
  have L: "length buf \<ge> off + 272" using assms(3) by (simp add: sizeof_userinfo_def)
  show "length (Userinfo_dump E ui off buf) = length buf"
    and "rd (off + 4) 4 (Userinfo_dump E ui off buf) = rd (off + 4) 4 buf"
    unfolding d using L l by (simp_all add: buf_simps)
  show "rd o' n' (Userinfo_dump E ui off buf) = rd o' n' buf" if "o' + n' \<le> off" for o' n'
    unfolding d using L l that by (simp add: buf_simps)
  have ow: "rd off 4 ?b = le_bytes 4 (if ui_is_owner ui then 1 else 0 :: 32 word)" and sz: "rd (off + 8) 8 ?b = le_bytes 8 n"
    using L l by (simp_all add: buf_simps)
  have "rd (off + 16) (unat n) (wr (off + 8) (le_bytes 8 n) (wr (off + 16) out X)) = out" if "off + 272 \<le> length X" for X
    using that l by (simp add: buf_simps)
  moreover have "off + 272 \<le> length (wr (off + 16) (replicate 256 0)
      (wr off (le_bytes 4 (if ui_is_owner ui then 1 else 0 :: 32 word)) buf))" using L by (simp add: buf_simps)
  ultimately have "rd (off + 16) (unat n) ?b = out" by blast
  then have "drop (off + 16) ?b = out @ drop (unat n) (drop (off + 16) ?b)"
    unfolding rd_def by (metis append_take_drop_id)
  then have "ec_point_read E (ecp_group E) (drop (off + 16) ?b) n = (0, kp_Q (ui_pubkey ui))"
    using r by metis
  with assms(2) ow sz E(1) show "Userinfo_read E junk off (Userinfo_dump E ui off buf) = Some ui"
    unfolding d by (simp add: Userinfo_read_def Userinfo_ctor_def Let_def user_ok_def keypair_init_def)
qed


lemma Userinfo_dump_tail:
  assumes "ecp_lawful E" "user_ok E ui" "280 \<le> length buf"
  shows "drop 280 (Userinfo_dump E ui 8 buf) = drop 280 buf"
proof -
  have "ec_check_pubkey E (ecp_group E) (kp_Q (ui_pubkey ui)) = 0" using assms(2) by (simp add: user_ok_def)
  from ecp_lawfulD(4) [OF assms(1) this] obtain n out where
    w: "ec_point_write E (ecp_group E) (kp_Q (ui_pubkey ui)) sizeof_pubkey = (0, n, out)"
    and l: "length out = unat n" "unat n \<le> sizeof_pubkey" by blast
  note l = l(1) l(2) [unfolded sizeof_pubkey_def]
  show ?thesis
    using w assms(2,3) l by (simp add: Userinfo_dump_def Let_def user_ok_def sizeof_pubkey_def wr_def)
qed

definition Usertable_bytes :: "('g, 'q) Usertable \<Rightarrow> nat" where
  "Usertable_bytes ut = sizeof_usertable_buffer + sizeof_userinfo * length (ut_usermap ut)"

text \<open>More than one user is not stored: \<open>Usertable_storable\<close> excludes it, for the reason at the loop above.\<close>

definition Usertable_storable :: "('g, 'q) ecp \<Rightarrow> ('g, 'q) Usertable \<Rightarrow> bool" where
  "Usertable_storable E ut \<longleftrightarrow> ecp_lawful E \<and> length (ut_usermap ut) \<le> 1 \<and>
     (\<forall>(u, ui)\<in>set (ut_usermap ut). user_ok E ui)"

definition Usertable_fresh :: "('g, 'q) Usertable \<Rightarrow> ('g, 'q) Usertable \<Rightarrow> bool" where
  "Usertable_fresh m0 m \<longleftrightarrow> md_uuid m0 = md_uuid m \<and> ut_usermap m0 = []"

lemma Usertable_dump_image:
  assumes m: "Usertable_storable E m" and buf: "length obuf = Usertable_bytes m"
    and img: "img = Usertable_dump_entries E (ut_usermap m)
      (wr 0 (le_bytes 8 (of_nat (length (ut_usermap m)) :: size_t)) obuf)" (is "_ = Usertable_dump_entries E _ ?b")
  shows "length img = Usertable_bytes m"
    and "rd 0 8 img = le_bytes 8 (of_nat (length (ut_usermap m)) :: size_t)"
    and "Usertable_load_entries E 0 (length (ut_usermap m)) img [] = Some (True, ut_usermap m)"
proof -
  have "length img = Usertable_bytes m \<and> rd 0 8 img = le_bytes 8 (of_nat (length (ut_usermap m)) :: size_t) \<and>
      Usertable_load_entries E 0 (length (ut_usermap m)) img [] = Some (True, ut_usermap m)"
  proof (cases "ut_usermap m")
    case Nil
    then show ?thesis using buf img
      by (simp add: Usertable_bytes_def sizeof_usertable_buffer_def rd_def buf_simps)
  next
    case (Cons x xs)
    obtain u ui where x: "x = (u, ui)" by fastforce
    from m Cons x have one: "ut_usermap m = [(u, ui)]" and ok: "ecp_lawful E" "user_ok E ui"
      by (auto simp: Usertable_storable_def)
    let ?c = "wr 12 (le_bytes 4 u) ?b"
    have img': "img = Userinfo_dump E ui 8 ?c"
      using img one by (simp add: sizeof_usertable_buffer_def Let_def)
    have lb: "length obuf = 280"
      using buf one by (simp add: Usertable_bytes_def sizeof_usertable_buffer_def sizeof_userinfo_def)
    then have lc: "8 + sizeof_userinfo \<le> length ?c" by (simp add: sizeof_userinfo_def buf_simps)
    note D = length_Userinfo_dump [OF ok lc]
    have "rd 12 4 img = le_bytes 4 u" using D(2) lb by (simp add: img' buf_simps)
    moreover have "length img = 280" using D(1) lb by (simp add: img' buf_simps)
    moreover have "rd 0 8 img = le_bytes 8 (1 :: size_t)" using D(3) [of 0 8] lb one by (simp add: img' buf_simps)
    moreover have "Userinfo_read E False 8 img = Some ui" using D(4) by (simp add: img')
    ultimately show ?thesis
      using one by (simp add: Usertable_bytes_def sizeof_usertable_buffer_def sizeof_userinfo_def Let_def um_insert_def)
  qed
  then show "length img = Usertable_bytes m"
    and "rd 0 8 img = le_bytes 8 (of_nat (length (ut_usermap m)) :: size_t)"
    and "Usertable_load_entries E 0 (length (ut_usermap m)) img [] = Some (True, ut_usermap m)" by auto
qed

lemma Usertable_rqsize:
  "(of_nat sizeof_usertable_buffer + of_nat sizeof_userinfo * of_nat (length (ut_usermap m)) :: size_t) =
   of_nat (Usertable_bytes m)"
  by (simp add: Usertable_bytes_def)

interpretation usertable: metadata_codec "Usertable_dump E" "Usertable_load E" "Usertable_storable E"
  Usertable_fresh Usertable_bytes for E :: "('g, 'q) ecp"
proof
  fix m :: "('g, 'q) Usertable" and buf :: bytes
  assume m: "Usertable_storable E m" and buf: "length buf = Usertable_bytes m"
  note image = Usertable_dump_image [OF m buf refl]
  have le: "length (ut_usermap m) \<le> 1" using m by (simp add: Usertable_storable_def)
  then have n: "unat (of_nat (length (ut_usermap m)) :: size_t) = length (ut_usermap m)"
    by (simp add: unat_of_nat take_bit_eq_mod)
  have "Usertable_load E m0 (the (snd (Usertable_dump E m (Some buf) (of_nat (length buf))))) = Some (True, m)"
    if "Usertable_fresh m0 m" for m0
    using that image n
    by (simp add: Usertable_load_def Usertable_dump_def Usertable_rqsize [simplified] buf Let_def
        Usertable_fresh_def Usertable_bytes_def [of m] sizeof_usertable_buffer_def)
  then show "\<exists>img. Usertable_dump E m (Some buf) (of_nat (length buf)) = (of_nat (Usertable_bytes m), Some img) \<and>
      length img = Usertable_bytes m \<and> (\<forall>m0. Usertable_fresh m0 m \<longrightarrow> Usertable_load E m0 img = Some (True, m))"
    using image(1) by (simp add: Usertable_dump_def Usertable_rqsize buf)
next
  fix m :: "('g, 'q) Usertable"
  assume "Usertable_storable E m"
  then have "sizeof_userinfo * length (ut_usermap m) \<le> 272"
    by (simp add: Usertable_storable_def sizeof_userinfo_def)
  then show "0 < Usertable_bytes m \<and> Usertable_bytes m < 2 ^ 32"
    by (simp add: Usertable_bytes_def sizeof_usertable_buffer_def)
qed (simp add: Usertable_dump_def Usertable_rqsize)

section \<open>What happens with more users\<close>

lemma drop_wr_before: "off + length bs \<le> n \<Longrightarrow> n \<le> length buf \<Longrightarrow> drop n (wr off bs buf) = drop n buf"
  by (simp add: wr_def)

text \<open>The bytes from the second entry on are left as they were in the buffer, so they are not initialised.\<close>

lemma Usertable_dump_entries_tail:
  assumes "ecp_lawful E" and "\<forall>(u, ui)\<in>set m. user_ok E ui" and "280 \<le> length buf"
  shows "length (Usertable_dump_entries E m buf) = length buf \<and>
    drop 280 (Usertable_dump_entries E m buf) = drop 280 buf"
  using assms(2,3)
proof (induction m arbitrary: buf)
  case (Cons x m)
  obtain u ui where x: "x = (u, ui)" by fastforce
  let ?b = "wr 12 (le_bytes 4 u) buf"
  have ok: "user_ok E ui" using Cons.prems x by simp
  have l: "length ?b = length buf" using Cons.prems by (simp add: buf_simps)
  have fit: "8 + sizeof_userinfo \<le> length ?b" using l Cons.prems by (simp add: sizeof_userinfo_def)
  have d: "drop 280 ?b = drop 280 buf" using Cons.prems by (intro drop_wr_before) simp_all
  have ld: "length (Userinfo_dump E ui 8 ?b) = length buf"
    using length_Userinfo_dump(1) [OF assms(1) ok fit] l by simp
  have "drop 280 (Userinfo_dump E ui 8 ?b) = drop 280 ?b"
    by (rule Userinfo_dump_tail [OF assms(1) ok]) (use l Cons.prems in simp)
  with Cons.IH [of "Userinfo_dump E ui 8 ?b"] Cons.prems x ld d show ?case
    by (simp add: sizeof_usertable_buffer_def Let_def)
qed simp

end
