(* ===== verification/Ecall_Volume.thy ===== *)
theory Ecall_Volume
  imports Usertable Reachable
begin

text \<open>
  Creating and mounting a volume (\<^verbatim>\<open>enclave/ecall_volume.cpp\<close>).  The sealing functions of the SGX
  library, with which the volume key leaves the enclave, are parameters in the record \<open>sgx_seal\<close>.
\<close>

record sgx_seal =
  ss_calc_size :: "nat \<Rightarrow> nat \<Rightarrow> 32 word"
  ss_seal :: "nat \<Rightarrow> bytes \<Rightarrow> bytes \<Rightarrow> size_t \<Rightarrow> bool \<times> bytes"
  ss_mac_len :: "bytes \<Rightarrow> 32 word"
  ss_text_len :: "bytes \<Rightarrow> 32 word"
  ss_unseal :: "bytes \<Rightarrow> bool \<times> bytes \<times> bytes"

definition volkey_aad :: bytes where
  "volkey_aad = str_bytes ''volume key''"

text \<open>The members of a new \<open>Superinfo\<close> that are no UUIDs are not initialised.\<close>

definition Superinfo_ctor :: "uuid \<Rightarrow> 256 word \<Rightarrow> 256 word \<Rightarrow> ino_t \<Rightarrow> Superinfo" where
  "Superinfo_ctor u j1 j2 j3 = metadata.extend (Metadata_ctor u) \<lparr>si_root_dirnode = UUID_zero,
     si_user_table = UUID_zero, si_hash_root_dirnode = j1, si_hash_user_table = j2, si_max_ino = j3\<rparr>"

definition junk256 :: "'c env \<Rightarrow> world \<Rightarrow> 256 word" where
  "junk256 e w = le_word (new_bytes e (clock w) 32)"

definition ecall_calc_volkey_size :: "sgx_seal \<Rightarrow> size_t" where
  "ecall_calc_volkey_size S = ucast (ss_calc_size S (length volkey_aad) VOLKEYSIZE)"

text \<open>
  The results are the status, the UUID handed out, the buffer of the sealed key and the world; an
  exception of the constructor of \<open>Userinfo\<close> is not caught and ends the enclave.  The volume key of the
  running enclave is overwritten before the sizes are compared.
\<close>

definition ecall_create_volume ::
    "'c env \<Rightarrow> ('g, 'q) ecp \<Rightarrow> sgx_seal \<Rightarrow> ('g, 'q) keypair \<Rightarrow> bytes \<Rightarrow> size_t \<Rightarrow> world \<Rightarrow>
     (int \<times> bytes option \<times> bytes \<times> world) option" where
  "ecall_create_volume e E S pubkey sealed volkey_size w =
     (case UUID_gen_rand e w of (sp_uuid, w) \<Rightarrow>
      case UUID_gen_rand e w of (ut_uuid, w) \<Rightarrow>
      case UUID_gen_rand e w of (rt_uuid, w) \<Rightarrow> do {
        owner \<leftarrow> Userinfo_ctor E False;
        (case Userinfo_set_pubkey E pubkey (owner\<lparr>ui_is_owner := True\<rparr>) of (ok, owner) \<Rightarrow>
         if \<not> ok then Some (1, None, sealed, w)
         else let user_tb = (Usertable_ctor ut_uuid)\<lparr>ut_usermap := um_assign E 1 owner []\<rparr>;
           root_dn = (Dirnode_ctor rt_uuid (junk64 e w))\<lparr>in_ino := 1, dn_name := ''''\<rparr>;
           sp_info = (Superinfo_ctor sp_uuid (junk256 e w) (junk256 e w) (junk64 e w))\<lparr>si_user_table := ut_uuid,
             si_root_dirnode := rt_uuid, si_max_ino := 2\<rparr>;
           w = w\<lparr>volkey := read_rand e (rnd w) VOLKEYSIZE, rnd := Suc (rnd w)\<rparr>;
           key_size = ucast (ss_calc_size S (length volkey_aad) VOLKEYSIZE) :: size_t
         in if volkey_size < key_size then Some (1, None, sealed, w)
         else case ss_seal S (clock w) volkey_aad (volkey w) volkey_size of (ok, blob) \<Rightarrow>
           let w = tick w in
           if \<not> ok then Some (1, None, wr 0 (replicate (unat volkey_size) 0) (wr 0 blob sealed), w)
         else let sealed = wr 0 blob sealed in
           case save_metadata e (Usertable_dump E) (md_uuid user_tb) user_tb w of (ok, w) \<Rightarrow>
           if \<not> ok then Some (1, None, sealed, w)
         else case save_metadata e Dirnode_dump (md_uuid root_dn) root_dn w of (ok, w) \<Rightarrow>
           if \<not> ok then Some (1, None, sealed, w)
         else case save_metadata e Superinfo_dump (md_uuid sp_info) sp_info w of (ok, w) \<Rightarrow>
           if \<not> ok then Some (1, None, sealed, w)
         else Some (0, Some (UUID_dump sp_uuid), sealed, w))
      })"

text \<open>
  The arguments \<open>uid\<close> and \<open>key\<close> are not used, nor is the additional text that comes out with the key.
  The superinfo is replaced before it is loaded, also when loading fails.
\<close>

definition ecall_mount_volume ::
    "'c env \<Rightarrow> ('g, 'q) ecp \<Rightarrow> sgx_seal \<Rightarrow> size_t \<Rightarrow> ('g, 'q) keypair \<Rightarrow> bytes \<Rightarrow> bytes \<Rightarrow> size_t \<Rightarrow> world \<Rightarrow>
     (int \<times> world) option" where
  "ecall_mount_volume e E S uid key sp_uuid_in sealed volkey_size w =
     (let mac_text_len = ss_mac_len S sealed; decrypt_data_len = ss_text_len S sealed in
      if unat mac_text_len \<noteq> length volkey_aad \<or> unat decrypt_data_len \<noteq> VOLKEYSIZE then Some (1, w)
      else if volkey_size < ucast mac_text_len \<or> volkey_size < ucast decrypt_data_len then Some (1, w)
      else case ss_unseal S sealed of (ok, dec_volkey_aad, text) \<Rightarrow>
      let w = w\<lparr>volkey := wr 0 text (volkey w)\<rparr> in
      if \<not> ok then Some (1, w)
      else let si = Superinfo_ctor (UUID_load sp_uuid_in) (junk256 e w) (junk256 e w) (junk64 e w);
        w = w\<lparr>superinfo := Some si\<rparr>
      in do {
        (ok, si, w) \<leftarrow> load_metadata e Superinfo_load (md_uuid si) si w;
        let w = w\<lparr>superinfo := Some si\<rparr>;
        if \<not> ok then Some (1, w)
        else do {
          (ok, user_table_p, w) \<leftarrow> load_metadata e (Usertable_load E) (si_user_table si)
            (Usertable_ctor (si_user_table si)) w;
          if \<not> ok then Some (1, w)
          else do {
            (ok, root_dir_p, w) \<leftarrow> load_metadata e Dirnode_load (si_root_dirnode si)
              (Dirnode_ctor (si_root_dirnode si) (junk64 e w)) w;
            if \<not> ok then Some (1, w)
            else if in_ino root_dir_p \<noteq> 1 then Some (1, w)
            else Some (0, bind_inode 1 (DirObj root_dir_p) w)
          }
        }
      })"

section \<open>What the library documents\<close>

text \<open>Sealing under the size asked for gives a blob of that size, which unseals to the same texts on the same machine.\<close>

definition seal_lawful :: "sgx_seal \<Rightarrow> bool" where
  "seal_lawful S \<longleftrightarrow> (let n = ss_calc_size S (length volkey_aad) VOLKEYSIZE in VOLKEYSIZE \<le> unat n \<and>
     (\<forall>t text. length text = VOLKEYSIZE \<longrightarrow>
       (\<exists>blob. ss_seal S t volkey_aad text (ucast n) = (True, blob) \<and> length blob = unat n \<and>
         unat (ss_mac_len S blob) = length volkey_aad \<and> unat (ss_text_len S blob) = VOLKEYSIZE \<and>
         ss_unseal S blob = (True, volkey_aad, text))))"

section \<open>A created volume can be mounted\<close>

lemma gen_rand_eq: "UUID_gen_rand e w = (rand_uuid e (rnd w), w\<lparr>rnd := Suc (rnd w)\<rparr>)"
  by (simp add: UUID_gen_rand_def rand_uuid_def)

lemma unat_widen: "unat (ucast (x :: 32 word) :: 64 word) = unat x"
proof -
  have "unat x < 2 ^ LENGTH(32)" by (rule unsigned_less)
  then show ?thesis by (simp add: unsigned_ucast_eq take_bit_nat_eq_self)
qed

lemma stored_meta_cong:
  assumes "stored_meta e w u img" and "volkey w' = volkey w"
    and "files w' (UUID_unparse u) = files w (UUID_unparse u)"
  shows "stored_meta e w' u img"
  using assms by (simp add: stored_meta_def)

text \<open>The three objects of a volume under one key, each in its own file.\<close>

definition volume_stored :: "'c env \<Rightarrow> ('g, 'q) ecp \<Rightarrow> world \<Rightarrow> Superinfo \<Rightarrow> ('g, 'q) Usertable \<Rightarrow> dirnode \<Rightarrow> bool" where
  "volume_stored e E w si ut dn \<longleftrightarrow>
     si_user_table si = md_uuid ut \<and> si_root_dirnode si = md_uuid dn \<and> in_refcount dn = 0 \<and>
     (\<exists>img. stored_meta e w (md_uuid si) img \<and> (\<forall>m0. Superinfo_fresh m0 si \<longrightarrow> Superinfo_load m0 img = Some (True, si))) \<and>
     (\<exists>img. stored_meta e w (md_uuid ut) img \<and> (\<forall>m0. Usertable_fresh m0 ut \<longrightarrow> Usertable_load E m0 img = Some (True, ut))) \<and>
     (\<exists>img. stored_meta e w (md_uuid dn) img \<and> (\<forall>m0. Dirnode_fresh m0 dn \<longrightarrow> Dirnode_load m0 img = Some (True, dn)))"

lemma save_volume_ok:
  assumes e: "env_lawful e" "host_reliable e" and key: "length (volkey w) = VOLKEYSIZE"
    and ut: "Usertable_storable E ut" and dn: "Dirnode_storable dn" "in_refcount dn = 0"
    and d: "distinct [md_uuid ut, md_uuid dn, md_uuid si]"
    and l: "si_user_table si = md_uuid ut" "si_root_dirnode si = md_uuid dn"
  shows "\<exists>w1 w2 w3. save_metadata e (Usertable_dump E) (md_uuid ut) ut w = (True, w1) \<and>
    save_metadata e Dirnode_dump (md_uuid dn) dn w1 = (True, w2) \<and>
    save_metadata e Superinfo_dump (md_uuid si) si w2 = (True, w3) \<and>
    volume_stored e E w3 si ut dn \<and> host.more w3 = host.more w"
proof -
  from usertable.save_metadata_ok [OF e key ut, of "md_uuid ut"] obtain i1 w1 where
    1: "save_metadata e (Usertable_dump E) (md_uuid ut) ut w = (True, w1)" "stored_meta e w1 (md_uuid ut) i1"
      "\<forall>m0. Usertable_fresh m0 ut \<longrightarrow> Usertable_load E m0 i1 = Some (True, ut)" "host.more w1 = host.more w" by blast
  have k1: "length (volkey w1) = VOLKEYSIZE" using more_world(5) [OF 1(4)] key by simp
  from dirnode.save_metadata_ok [OF e k1 dn(1), of "md_uuid dn"] obtain i2 w2 where
    2: "save_metadata e Dirnode_dump (md_uuid dn) dn w1 = (True, w2)" "stored_meta e w2 (md_uuid dn) i2"
      "\<forall>m0. Dirnode_fresh m0 dn \<longrightarrow> Dirnode_load m0 i2 = Some (True, dn)" "host.more w2 = host.more w1"
      "\<forall>f. f \<noteq> UUID_unparse (md_uuid dn) \<longrightarrow> files w2 f = files w1 f" by blast
  have k2: "length (volkey w2) = VOLKEYSIZE" using more_world(5) [OF 2(4)] k1 by simp
  from superinfo.save_metadata_ok [OF e k2 TrueI, where m = si and u = "md_uuid si"] obtain i3 w3 where
    3: "save_metadata e Superinfo_dump (md_uuid si) si w2 = (True, w3)" "stored_meta e w3 (md_uuid si) i3"
      "\<forall>m0. Superinfo_fresh m0 si \<longrightarrow> Superinfo_load m0 i3 = Some (True, si)" "host.more w3 = host.more w2"
      "\<forall>f. f \<noteq> UUID_unparse (md_uuid si) \<longrightarrow> files w3 f = files w2 f" by blast
  have v: "volkey w3 = volkey w2" "volkey w2 = volkey w1"
    using more_world(5) [OF 2(4)] more_world(5) [OF 3(4)] by simp_all
  have nu: "UUID_unparse (md_uuid ut) \<noteq> UUID_unparse (md_uuid dn)" "UUID_unparse (md_uuid ut) \<noteq> UUID_unparse (md_uuid si)"
    "UUID_unparse (md_uuid dn) \<noteq> UUID_unparse (md_uuid si)" using d by (simp_all add: UUID_unparse_inject)
  have "stored_meta e w3 (md_uuid ut) i1" using 1(2) v 2(5) 3(5) nu by (simp add: stored_meta_def)
  moreover have "stored_meta e w3 (md_uuid dn) i2" using 2(2) v 3(5) nu by (simp add: stored_meta_def)
  ultimately
  have "volume_stored e E w3 si ut dn" using 1(3) 2(3) 3(2,3) l dn(2) unfolding volume_stored_def by blast
  moreover have "host.more w3 = host.more w" using 1(4) 2(4) 3(4) by simp
  ultimately show ?thesis using 1(1) 2(1) 3(1) by blast
qed


lemma more_superinfo: "host.more x = host.more y \<Longrightarrow> host.more (x\<lparr>superinfo := s\<rparr>) = host.more (y\<lparr>superinfo := s\<rparr>)"
  by (cases x; cases y) simp

lemma mount_stored:
  assumes e: "env_lawful e" "host_reliable e" and st: "volume_stored e E w si ut dn"
    and ino: "in_ino dn = 1" and um: "Usertable_storable E ut"
    and sl: "unat (ss_mac_len S sealed) = length volkey_aad" "unat (ss_text_len S sealed) = VOLKEYSIZE"
      "ss_unseal S sealed = (True, aad, volkey w)" "VOLKEYSIZE \<le> unat vs"
    and w2: "files w2 = files w" "length (volkey w2) = VOLKEYSIZE"
  shows "\<exists>w3. ecall_mount_volume e E S uid k (UUID_dump (md_uuid si)) sealed vs w2 = Some (0, bind_inode 1 (DirObj dn) w3) \<and>
    host.more w3 = host.more (w2\<lparr>volkey := volkey w, superinfo := Some si\<rparr>)"
proof -
  from st obtain i1 i2 i3 where
    S: "stored_meta e w (md_uuid si) i1" "\<And>m0. Superinfo_fresh m0 si \<Longrightarrow> Superinfo_load m0 i1 = Some (True, si)"
    and U: "stored_meta e w (md_uuid ut) i2" "\<And>m0. Usertable_fresh m0 ut \<Longrightarrow> Usertable_load E m0 i2 = Some (True, ut)"
    and D: "stored_meta e w (md_uuid dn) i3" "\<And>m0. Dirnode_fresh m0 dn \<Longrightarrow> Dirnode_load m0 i3 = Some (True, dn)"
    and l: "si_user_table si = md_uuid ut" "si_root_dirnode si = md_uuid dn" "in_refcount dn = 0"
    unfolding volume_stored_def by blast
  have key: "length (volkey w) = VOLKEYSIZE" using S(1) by (simp add: stored_meta_def)
  define wa where "wa = w2\<lparr>volkey := wr 0 (volkey w) (volkey w2)\<rparr>"
  define si0 where "si0 = Superinfo_ctor (md_uuid si) (junk256 e wa) (junk256 e wa) (junk64 e wa)"
  define wb where "wb = wa\<lparr>superinfo := Some si0\<rparr>"
  have va: "wr 0 (volkey w) (volkey w2) = volkey w" using key w2(2) by (simp add: wr_def)
  have cong: "stored_meta e x u img" if "stored_meta e w u img" "volkey x = volkey w" "files x = files w" for x u img
    using that by (simp add: stored_meta_def)
  have wb: "volkey wb = volkey w" "files wb = files w" by (simp_all add: wb_def wa_def va w2)
  have "Superinfo_fresh si0 si" by (simp add: Superinfo_fresh_def si0_def Superinfo_ctor_def Metadata_ctor_def metadata.defs)
  from load_metadata_stored [OF e cong [OF S(1) wb], of Superinfo_load si0] S(2) [OF this] obtain wc where
    c: "load_metadata e Superinfo_load (md_uuid si) si0 wb = Some (True, si, wc)" "host.more wc = host.more wb" "files wc = files wb"
    by auto
  define wd where "wd = wc\<lparr>superinfo := Some si\<rparr>"
  have wd: "volkey wd = volkey w" "files wd = files w"
    using more_world(5) [OF c(2)] c(3) wb by (simp_all add: wd_def)
  have "Usertable_fresh (Usertable_ctor (md_uuid ut)) ut"
    by (simp add: Usertable_fresh_def Usertable_ctor_def Metadata_ctor_def metadata.defs)
  from load_metadata_stored [OF e cong [OF U(1) wd], of "Usertable_load E" "Usertable_ctor (md_uuid ut)"] U(2) [OF this] obtain we where
    u: "load_metadata e (Usertable_load E) (md_uuid ut) (Usertable_ctor (md_uuid ut)) wd = Some (True, ut, we)"
      "host.more we = host.more wd" "files we = files wd" by auto
  have we: "volkey we = volkey w" "files we = files w" using more_world(5) [OF u(2)] u(3) wd by simp_all
  have "Dirnode_fresh (Dirnode_ctor (md_uuid dn) (junk64 e we)) dn" using l(3) by (simp add: Dirnode_fresh_def ctor_defs)
  from load_metadata_stored [OF e cong [OF D(1) we], of Dirnode_load "Dirnode_ctor (md_uuid dn) (junk64 e we)"] D(2) [OF this]
  obtain wf where
    d: "load_metadata e Dirnode_load (md_uuid dn) (Dirnode_ctor (md_uuid dn) (junk64 e we)) we = Some (True, dn, wf)"
      "host.more wf = host.more we" by auto
  have si0: "md_uuid si0 = md_uuid si" by (simp add: si0_def Superinfo_ctor_def Metadata_ctor_def metadata.defs)
  have sizes: "\<not> vs < ucast (ss_mac_len S sealed)" "\<not> vs < ucast (ss_text_len S sealed)"
    using sl by (simp_all add: word_less_nat_alt unat_widen VOLKEYSIZE_def volkey_aad_def)
  have "ecall_mount_volume e E S uid k (UUID_dump (md_uuid si)) sealed vs w2 = Some (0, bind_inode 1 (DirObj dn) wf)"
    using c(1) u(1) d(1) si0 sizes sl ino l(1,2)
    by (simp add: ecall_mount_volume_def Let_def wd_def wb_def wa_def si0_def)
  moreover have "host.more wf = host.more (w2\<lparr>volkey := volkey w, superinfo := Some si\<rparr>)"
    using d(2) u(2) more_superinfo [OF c(2), of "Some si"] by (simp add: wd_def wb_def wa_def va)
  ultimately show ?thesis by blast
qed

definition root_new :: "uuid \<Rightarrow> ino_t \<Rightarrow> dirnode" where
  "root_new u j = (Dirnode_ctor u j)\<lparr>in_ino := 1, dn_name := ''''\<rparr>"

lemma root_new_simps [simp]:
  "md_uuid (root_new u j) = u" "in_ino (root_new u j) = 1" "in_refcount (root_new u j) = 0" "dn_dirent (root_new u j) = []"
  "Dirnode_storable (root_new u j)"
  by (simp_all add: root_new_def ctor_defs Dirnode_storable_def no_nul_def MAX_PATH_LEN_def Dirnode_bytes_def
      sizeof_dirnode_buffer_def)

lemma ecall_create_volume_ok:
  fixes E :: "('g, 'q) ecp"
  assumes e: "env_lawful e" "host_reliable e" and E: "ecp_lawful E" and S: "seal_lawful S"
    and k: "ec_group_id E (kp_grp key) = grp_id" "ec_check_pubkey E (ecp_group E) (kp_Q key) = 0"
    and d: "distinct [rand_uuid e (rnd w), rand_uuid e (rnd w + 1), rand_uuid e (rnd w + 2)]"
    and sz: "length sealed = unat (ecall_calc_volkey_size S)"
  shows "\<exists>blob w1 si ut dn. ecall_create_volume e E S key sealed (ecall_calc_volkey_size S) w =
      Some (0, Some (UUID_dump (rand_uuid e (rnd w))), blob, w1) \<and>
    volume_stored e E w1 si ut dn \<and> Usertable_storable E ut \<and> md_uuid si = rand_uuid e (rnd w) \<and>
    si_max_ino si = 2 \<and> in_ino dn = 1 \<and> dn_dirent dn = [] \<and> volkey w1 = read_rand e (rnd w + 3) VOLKEYSIZE \<and>
    inode_map w1 = inode_map w \<and> heap w1 = heap w \<and>
    length blob = unat (ecall_calc_volkey_size S) \<and> VOLKEYSIZE \<le> unat (ecall_calc_volkey_size S) \<and>
    unat (ss_mac_len S blob) = length volkey_aad \<and> unat (ss_text_len S blob) = VOLKEYSIZE \<and>
    ss_unseal S blob = (True, volkey_aad, volkey w1)"
proof -
  note EL = ecp_lawfulD [OF E]
  let ?vs = "ecall_calc_volkey_size S"
  define su uu ru where "su = rand_uuid e (rnd w)" and "uu = rand_uuid e (Suc (rnd w))" and "ru = rand_uuid e (Suc (Suc (rnd w)))"
  define w3 where "w3 = w\<lparr>rnd := Suc (Suc (Suc (rnd w)))\<rparr>"
  define owner where "owner = \<lparr>ui_is_owner = True, ui_pubkey = \<lparr>kp_grp = ecp_group E, kp_Q = kp_Q key\<rparr>\<rparr>"
  define ut where "ut = (Usertable_ctor uu :: ('g, 'q) Usertable)\<lparr>ut_usermap := um_assign E 1 owner []\<rparr>"
  define dn where "dn = root_new ru (junk64 e w3)"
  define si where "si = (Superinfo_ctor su (junk256 e w3) (junk256 e w3) (junk64 e w3))\<lparr>si_user_table := uu,
    si_root_dirnode := ru, si_max_ino := 2\<rparr>"
  define w4 where "w4 = w3\<lparr>volkey := read_rand e (rnd w3) VOLKEYSIZE, rnd := Suc (rnd w3)\<rparr>"
  have key: "length (volkey w4) = VOLKEYSIZE" using env_lawfulD(2) [OF e(1)] by (simp add: w4_def)
  from S key obtain blob where blob: "ss_seal S (clock w4) volkey_aad (volkey w4) ?vs = (True, blob)"
    "length blob = unat ?vs" "VOLKEYSIZE \<le> unat ?vs" "unat (ss_mac_len S blob) = length volkey_aad"
    "unat (ss_text_len S blob) = VOLKEYSIZE" "ss_unseal S blob = (True, volkey_aad, volkey w4)"
    unfolding seal_lawful_def ecall_calc_volkey_size_def Let_def unat_widen by blast
  have wb: "wr 0 blob sealed = blob" using blob(2) sz by (simp add: wr_def)
  have ids: "md_uuid ut = uu" "md_uuid si = su" "si_user_table si = uu" "si_root_dirnode si = ru" "md_uuid dn = ru"
    by (simp_all add: ut_def si_def dn_def Usertable_ctor_def Superinfo_ctor_def Metadata_ctor_def metadata.defs)
  have ut: "Usertable_storable E ut"
    using E k(2) by (simp add: Usertable_storable_def ut_def um_assign_def um_insert_def Let_def user_ok_def owner_def)
  have dist: "distinct [md_uuid ut, md_uuid dn, md_uuid si]" using d by (auto simp: ids su_def uu_def ru_def)
  have key': "length (volkey (tick w4)) = VOLKEYSIZE" using key by simp
  from save_volume_ok [OF e key' ut, of dn si] dist ids obtain w5 w6 w7 where
    sv: "save_metadata e (Usertable_dump E) uu ut (tick w4) = (True, w5)"
      "save_metadata e Dirnode_dump ru dn w5 = (True, w6)" "save_metadata e Superinfo_dump su si w6 = (True, w7)"
    and st: "volume_stored e E w7 si ut dn" "host.more w7 = host.more (tick w4)" by (auto simp: dn_def)
  have m: "host.more w7 = host.more w4" using st(2) by simp
  have ctor: "Userinfo_ctor E False = Some \<lparr>ui_is_owner = False, ui_pubkey = \<lparr>kp_grp = ecp_group E, kp_Q = ec_point_init E\<rparr>\<rparr>"
    by (simp add: Userinfo_ctor_def EL(1) keypair_init_def)
  have setk: "Userinfo_set_pubkey E key \<lparr>ui_is_owner = True, ui_pubkey = \<lparr>kp_grp = ecp_group E, kp_Q = ec_point_init E\<rparr>\<rparr> =
      (True, owner)"
    using k by (simp add: Userinfo_set_pubkey_def EL(2,3) owner_def)
  define wx wy where "wx = w\<lparr>rnd := Suc (rnd w)\<rparr>" and "wy = wx\<lparr>rnd := Suc (rnd wx)\<rparr>"
  have g: "UUID_gen_rand e w = (su, wx)" "UUID_gen_rand e wx = (uu, wy)" "UUID_gen_rand e wy = (ru, w3)"
    by (simp_all add: gen_rand_eq su_def uu_def ru_def w3_def wx_def wy_def)
  have dn: "dn = (Dirnode_ctor ru (junk64 e w3))\<lparr>in_ino := 1, dn_name := ''''\<rparr>" by (simp add: dn_def root_new_def)
  have "ecall_create_volume e E S key sealed ?vs w = Some (0, Some (UUID_dump su), blob, w7)"
    using ctor setk blob(1) wb sv ids
    by (simp add: ecall_create_volume_def g Let_def ut_def [symmetric] dn [symmetric]
        si_def [symmetric] w4_def [symmetric]) (simp add: ecall_calc_volkey_size_def)
  moreover have more: "inode_map w7 = inode_map w" "heap w7 = heap w" "volkey w7 = volkey w4"
    using more_world [OF m] by (simp_all add: w4_def w3_def)
  moreover have "rnd w3 = rnd w + 3" by (simp add: w3_def)
  then have vk: "volkey w4 = read_rand e (rnd w + 3) VOLKEYSIZE" by (simp add: w4_def)
  moreover have "si_max_ino si = 2" "in_ino dn = 1" "dn_dirent dn = []" by (simp_all add: si_def dn_def)
  ultimately show ?thesis
    using st(1) ut ids(2) blob(2-6) unfolding su_def [symmetric] more(3) [symmetric] by blast
qed

section \<open>Whoever the host is\<close>

text \<open>What a mount that returns 0 has done.\<close>

lemma ecall_mount_volume_success:
  assumes "ecall_mount_volume e E S uid k sp sealed vs w = Some (0, w')"
  shows "\<exists>aad ptext si0 si ut0 ut dn0 dn w2 w4 w5. ss_unseal S sealed = (True, aad, ptext) \<and>
    load_metadata e Superinfo_load (UUID_load sp) si0 (w\<lparr>volkey := wr 0 ptext (volkey w), superinfo := Some si0\<rparr>) =
      Some (True, si, w2) \<and>
    load_metadata e (Usertable_load E) (si_user_table si) ut0 (w2\<lparr>superinfo := Some si\<rparr>) = Some (True, ut, w4) \<and>
    load_metadata e Dirnode_load (si_root_dirnode si) dn0 w4 = Some (True, dn, w5) \<and>
    in_ino dn = 1 \<and> w' = bind_inode 1 (DirObj dn) w5"
proof -
  obtain ok aad ptext where u: "ss_unseal S sealed = (ok, aad, ptext)" by (rule prod_cases3)
  have [simp]: "md_uuid (Superinfo_ctor u a b c) = u" for u a b c
    by (simp add: Superinfo_ctor_def Metadata_ctor_def metadata.defs)
  from assms u have ok: ok by (auto simp: ecall_mount_volume_def Let_def split: if_splits)
  define wa where "wa = w\<lparr>volkey := wr 0 ptext (volkey w)\<rparr>"
  define si0 where "si0 = Superinfo_ctor (UUID_load sp) (junk256 e wa) (junk256 e wa) (junk64 e wa)"
  from assms u ok obtain si w2 where
    s: "load_metadata e Superinfo_load (UUID_load sp) si0 (wa\<lparr>superinfo := Some si0\<rparr>) = Some (True, si, w2)"
    by (auto simp: ecall_mount_volume_def Let_def wa_def si0_def split: if_splits bind_splits)
  with assms u ok obtain ut w4 where
    t: "load_metadata e (Usertable_load E) (si_user_table si) (Usertable_ctor (si_user_table si)) (w2\<lparr>superinfo := Some si\<rparr>) =
      Some (True, ut, w4)"
    by (auto simp: ecall_mount_volume_def Let_def simp flip: wa_def si0_def split: if_splits bind_splits)
  with assms u ok s obtain dn w5 where
    d: "load_metadata e Dirnode_load (si_root_dirnode si) (Dirnode_ctor (si_root_dirnode si) (junk64 e w4)) w4 = Some (True, dn, w5)"
    and w': "in_ino dn = 1" "w' = bind_inode 1 (DirObj dn) w5"
    by (auto simp: ecall_mount_volume_def Let_def simp flip: wa_def si0_def split: if_splits bind_splits)
  from ok u have "ss_unseal S sealed = (True, aad, ptext)" by simp
  with s [unfolded wa_def world.update_convs host.update_convs] t d w' show ?thesis by blast
qed

text \<open>An enclave that has just started.\<close>

definition enclave_started :: "world \<Rightarrow> bool" where
  "enclave_started w \<longleftrightarrow> inode_map w = Map.empty \<and> heap w = Map.empty \<and> length (volkey w) = VOLKEYSIZE \<and>
     cs_inv (local_cache w) \<and> cs_items (local_cache w) = []"

lemma mount_enclave_ok:
  assumes st: "enclave_started w" and m: "ecall_mount_volume e E S uid k sp sealed vs w = Some (0, w')"
  shows "enclave_ok w'"
proof -
  from ecall_mount_volume_success [OF m] obtain ptext si0 si ut0 ut dn0 dn w2 w4 w5 where
    l: "load_metadata e Superinfo_load (UUID_load sp) si0 (w\<lparr>volkey := wr 0 ptext (volkey w), superinfo := Some si0\<rparr>) =
        Some (True, si, w2)"
      "load_metadata e (Usertable_load E) (si_user_table si) ut0 (w2\<lparr>superinfo := Some si\<rparr>) = Some (True, ut, w4)"
      "load_metadata e Dirnode_load (si_root_dirnode si) dn0 w4 = Some (True, dn, w5)"
    and w': "w' = bind_inode 1 (DirObj dn) w5" by blast
  have "enclave_ok (w\<lparr>volkey := v, superinfo := Some s\<rparr>)" for v s
    using st by (simp add: enclave_started_def enclave_ok_def table_ok_def cache_ok_def)
  from enclave_ok_load(1) [OF this l(1)] have "enclave_ok (w2\<lparr>superinfo := Some si\<rparr>)" by (rule enclave_ok_superinfo)
  from enclave_ok_load(2) [OF enclave_ok_load(1) [OF this l(2)] l(3)] show ?thesis unfolding w' .
qed

lemma mounted_view:
  assumes st: "enclave_started w" and m: "host.more w3 = host.more (w\<lparr>volkey := v, superinfo := Some si\<rparr>)"
  shows "view (bind_inode 1 (DirObj dn) w3) = [1 \<mapsto> DirNode (entries (dn_dirent dn))]"
    and "superinfo (bind_inode 1 (DirObj dn) w3) = Some si" and "volkey (bind_inode 1 (DirObj dn) w3) = v"
proof -
  note M = more_world [OF m]
  have f: "find_inode w3 x = None" for x using st M by (simp add: find_inode_def enclave_started_def)
  have "table_ok w3" using st M by (simp add: table_ok_def enclave_started_def)
  from view_bind_inode [OF this] f show "view (bind_inode 1 (DirObj dn) w3) = [1 \<mapsto> DirNode (entries (dn_dirent dn))]"
    by (simp add: fun_eq_iff view_def)
  show "superinfo (bind_inode 1 (DirObj dn) w3) = Some si" "volkey (bind_inode 1 (DirObj dn) w3) = v"
    using M by (simp_all add: bind_inode_def Let_def)
qed

end
