(* ===== verification/Fuse_Operations.thy ===== *)
theory Fuse_Operations
  imports Ecall_Volume
begin

text \<open>
  The operations of the FUSE file system (\<^verbatim>\<open>app/fuse_operations.cpp\<close>), which call the enclave and
  answer the kernel.  A handler returns the replies it has sent, in order, and the world; \<open>fi\<close> is the
  struct of the open file, whose member \<open>fh\<close> holds the entries of an open directory.

  What the repository does not decide is in the record \<open>fuse_env\<close>: whether the transition into the
  enclave succeeds, the contents of uninitialised variables and of memory from \<open>malloc\<close>, and the
  function of libfuse that lays out one entry of a listing.
\<close>

section \<open>Replies\<close>

text \<open>The members of \<open>struct stat\<close> that are set; all others are zero.  A time is seconds and nanoseconds.\<close>

record file_attr =
  fa_ino :: ino_t
  fa_mode :: "32 word"
  fa_nlink :: "64 word"
  fa_size :: off_t
  fa_atim :: "int \<times> int"
  fa_mtim :: "int \<times> int"

record entry_param =
  ep_ino :: ino_t
  ep_generation :: "64 word"
  ep_attr :: file_attr
  ep_attr_timeout :: nat
  ep_entry_timeout :: nat

record file_info =
  fi_flags :: "32 word"
  fi_fh :: "bytes option"

datatype reply = ReplyErr int | ReplyNone | ReplyEntry entry_param | ReplyAttr file_attr nat | ReplyOpen file_info
  | ReplyBuf bytes | ReplyWrite size_t | ReplyCreate entry_param file_info

record fuse_env =
  fe_ecall :: "nat \<Rightarrow> bool"
  fe_junk :: "nat \<Rightarrow> 64 word"
  fe_malloc :: "nat \<Rightarrow> nat \<Rightarrow> bytes"
  fe_direntry :: "string \<Rightarrow> file_attr \<Rightarrow> off_t \<Rightarrow> bytes"

definition zero_attr :: file_attr where
  "zero_attr = \<lparr>fa_ino = 0, fa_mode = 0, fa_nlink = 0, fa_size = 0, fa_atim = (0, 0), fa_mtim = (0, 0)\<rparr>"

definition copy_statbuf :: "stat_buffer_t \<Rightarrow> file_attr" where
  "copy_statbuf statbuf = zero_attr\<lparr>fa_ino := st_ino statbuf, fa_mode := st_mode statbuf OR 0x1FF,
     fa_nlink := st_nlink statbuf, fa_size := st_size statbuf\<rparr>"

text \<open>An output struct that the enclave has not written arrives as zeros, which the bridge put there.\<close>

definition out_stat :: "stat_buffer_t option \<Rightarrow> stat_buffer_t" where
  "out_stat s = (case s of Some s \<Rightarrow> s | None \<Rightarrow> \<lparr>st_ino = 0, st_mode = 0, st_nlink = 0, st_size = 0\<rparr>)"

definition ecall :: "fuse_env \<Rightarrow> world \<Rightarrow> bool \<times> world" where
  "ecall F w = (fe_ecall F (clock w), tick w)"

text \<open>A new \<open>fuse_entry_param\<close>; its generation number is never set.\<close>

definition mk_entry :: "fuse_env \<Rightarrow> world \<Rightarrow> ino_t \<Rightarrow> stat_buffer_t option \<Rightarrow> nat \<Rightarrow> entry_param" where
  "mk_entry F w ino statbuf timeout = \<lparr>ep_ino = ino, ep_generation = fe_junk F (clock w),
     ep_attr = copy_statbuf (out_stat statbuf), ep_attr_timeout = timeout, ep_entry_timeout = timeout\<rparr>"

section \<open>The session\<close>

record conn_info =
  co_capable :: "32 word"
  co_want :: "32 word"

definition FUSE_CAP_WRITEBACK_CACHE :: "32 word" where
  "FUSE_CAP_WRITEBACK_CACHE = push_bit 16 1"

definition secfs_init :: "int \<Rightarrow> conn_info \<Rightarrow> conn_info" where
  "secfs_init writeback conn =
     (if writeback \<noteq> 0 \<and> co_capable conn AND FUSE_CAP_WRITEBACK_CACHE \<noteq> 0
      then conn\<lparr>co_want := co_want conn OR FUSE_CAP_WRITEBACK_CACHE\<rparr> else conn)"

section \<open>Names and attributes\<close>

definition secfs_lookup :: "'c env \<Rightarrow> fuse_env \<Rightarrow> ino_t \<Rightarrow> string \<Rightarrow> world \<Rightarrow> (reply list \<times> world) option" where
  "secfs_lookup e F parent name w =
     (case ecall F w of (ok, w) \<Rightarrow>
      if \<not> ok then Some ([ReplyErr (rc_code ENOENT)], w)
      else do {
        (err, ino, statbuf, w) \<leftarrow> ecall_fs_lookup e parent name w;
        if err \<noteq> RC_OK then Some ([ReplyErr (rc_code err)], w)
        else Some ([ReplyEntry (mk_entry F w ino statbuf 10)], w)
      })"

definition secfs_forget :: "fuse_env \<Rightarrow> ino_t \<Rightarrow> size_t \<Rightarrow> world \<Rightarrow> (reply list \<times> world) option" where
  "secfs_forget F ino nlookup w =
     (case ecall F w of (ok, w) \<Rightarrow>
      if \<not> ok then Some ([ReplyNone], w)
      else case ecall_fs_forget ino nlookup w of (remain, w) \<Rightarrow> Some ([ReplyNone], w))"

definition secfs_getattr :: "fuse_env \<Rightarrow> ino_t \<Rightarrow> world \<Rightarrow> (reply list \<times> world) option" where
  "secfs_getattr F ino w =
     (case ecall F w of (ok, w) \<Rightarrow>
      if \<not> ok then Some ([ReplyErr (rc_code ENOENT)], w)
      else case ecall_fs_getattr ino w of (err, statbuf) \<Rightarrow>
      if err \<noteq> RC_OK then Some ([ReplyErr (rc_code err)], w)
      else Some ([ReplyAttr (copy_statbuf (out_stat statbuf)) 1], w))"

definition FUSE_SET_ATTR_ATIME :: "32 word" where "FUSE_SET_ATTR_ATIME = push_bit 4 1"
definition FUSE_SET_ATTR_MTIME :: "32 word" where "FUSE_SET_ATTR_MTIME = push_bit 5 1"
definition FUSE_SET_ATTR_ATIME_NOW :: "32 word" where "FUSE_SET_ATTR_ATIME_NOW = push_bit 7 1"
definition FUSE_SET_ATTR_MTIME_NOW :: "32 word" where "FUSE_SET_ATTR_MTIME_NOW = push_bit 8 1"
definition UTIME_NOW :: int where "UTIME_NOW = 2 ^ 30 - 1"
definition UTIME_OMIT :: int where "UTIME_OMIT = 2 ^ 30 - 2"

definition set_time :: "bool \<Rightarrow> bool \<Rightarrow> int \<times> int \<Rightarrow> int \<times> int" where
  "set_time now given t = (if now then (0, UTIME_NOW) else if given then t else (0, UTIME_OMIT))"

text \<open>
  The request is answered with the attributes of the file and the times asked for; nothing is changed
  in the enclave, whatever \<open>to_set\<close> asks for.
\<close>

definition secfs_setattr ::
    "fuse_env \<Rightarrow> ino_t \<Rightarrow> file_attr \<Rightarrow> 32 word \<Rightarrow> world \<Rightarrow> (reply list \<times> world) option" where
  "secfs_setattr F ino attr to_set w =
     (case ecall F w of (ok, w) \<Rightarrow>
      if \<not> ok then Some ([ReplyErr (rc_code ENOENT)], w)
      else case ecall_fs_getattr ino w of (err, statbuf) \<Rightarrow>
      if err \<noteq> RC_OK then Some ([ReplyErr (rc_code err)], w)
      else let st = copy_statbuf (out_stat statbuf);
        st = (if to_set AND (FUSE_SET_ATTR_ATIME OR FUSE_SET_ATTR_MTIME) \<noteq> 0
          then st\<lparr>fa_atim := set_time (to_set AND FUSE_SET_ATTR_ATIME_NOW \<noteq> 0) (to_set AND FUSE_SET_ATTR_ATIME \<noteq> 0) (fa_atim attr),
            fa_mtim := set_time (to_set AND FUSE_SET_ATTR_MTIME_NOW \<noteq> 0) (to_set AND FUSE_SET_ATTR_MTIME \<noteq> 0) (fa_mtim attr)\<rparr>
          else st)
        in Some ([ReplyAttr st 1], w))"

definition secfs_mkdir :: "'c env \<Rightarrow> fuse_env \<Rightarrow> ino_t \<Rightarrow> string \<Rightarrow> world \<Rightarrow> (reply list \<times> world) option" where
  "secfs_mkdir e F parent name w =
     (case ecall F w of (ok, w) \<Rightarrow>
      if \<not> ok then Some ([ReplyErr (rc_code ENOENT)], w)
      else do {
        (err, ino, statbuf, w) \<leftarrow> ecall_fs_mkdir e parent name w;
        if err \<noteq> RC_OK then Some ([ReplyErr (rc_code err)], w)
        else Some ([ReplyEntry (mk_entry F w ino statbuf 1)], w)
      })"

definition secfs_unlink :: "'c env \<Rightarrow> fuse_env \<Rightarrow> ino_t \<Rightarrow> string \<Rightarrow> world \<Rightarrow> (reply list \<times> world) option" where
  "secfs_unlink e F parent name w =
     (case ecall F w of (ok, w) \<Rightarrow>
      if \<not> ok then Some ([ReplyErr (rc_code ENOENT)], w)
      else do {
        (err, w) \<leftarrow> ecall_fs_unlink e parent name w;
        Some ([ReplyErr (rc_code err)], w)
      })"

definition secfs_rmdir :: "'c env \<Rightarrow> fuse_env \<Rightarrow> ino_t \<Rightarrow> string \<Rightarrow> world \<Rightarrow> (reply list \<times> world) option" where
  "secfs_rmdir e F parent name w =
     (case ecall F w of (ok, w) \<Rightarrow>
      if \<not> ok then Some ([ReplyErr (rc_code ENOENT)], w)
      else do {
        (err, w) \<leftarrow> ecall_fs_rmdir e parent name w;
        Some ([ReplyErr (rc_code err)], w)
      })"

definition secfs_access :: "fuse_env \<Rightarrow> ino_t \<Rightarrow> int \<Rightarrow> world \<Rightarrow> (reply list \<times> world) option" where
  "secfs_access F ino amask w =
     (case ecall F w of (ok, w) \<Rightarrow>
      if \<not> ok then Some ([ReplyErr (rc_code ENOENT)], w)
      else Some ([ReplyErr (rc_code (ecall_fs_access ino amask w))], w))"

section \<open>Files\<close>

definition secfs_open :: "'c env \<Rightarrow> fuse_env \<Rightarrow> ino_t \<Rightarrow> file_info \<Rightarrow> world \<Rightarrow> (reply list \<times> world) option" where
  "secfs_open e F ino fi w =
     (case ecall F w of (ok, w) \<Rightarrow>
      if \<not> ok then Some ([ReplyErr (rc_code ENOENT)], w)
      else case ecall_fs_open e ino (fi_flags fi) w of (err, w) \<Rightarrow>
      if err \<noteq> RC_OK then Some ([ReplyErr (rc_code err)], w)
      else Some ([ReplyOpen fi], w))"

definition secfs_read :: "'c env \<Rightarrow> fuse_env \<Rightarrow> ino_t \<Rightarrow> size_t \<Rightarrow> off_t \<Rightarrow> world \<Rightarrow> (reply list \<times> world) option" where
  "secfs_read e F ino sz off w =
     (let buf = fe_malloc F (clock w) (unat sz) in
      case ecall F w of (ok, w) \<Rightarrow>
      if \<not> ok then Some ([ReplyErr (rc_code ENOENT)], w)
      else do {
        (err, rsize, buf, w) \<leftarrow> ecall_fs_read e ino buf off sz w;
        if err \<noteq> RC_OK then Some ([ReplyErr (rc_code err)], w)
        else Some ([ReplyBuf (take (unat rsize) buf)], w)
      })"

definition secfs_write ::
    "'c env \<Rightarrow> fuse_env \<Rightarrow> ino_t \<Rightarrow> bytes \<Rightarrow> size_t \<Rightarrow> off_t \<Rightarrow> world \<Rightarrow> (reply list \<times> world) option" where
  "secfs_write e F ino buf sz off w =
     (case ecall F w of (ok, w) \<Rightarrow>
      if \<not> ok then Some ([ReplyErr (rc_code ENOENT)], w)
      else do {
        (err, wsize, w) \<leftarrow> ecall_fs_write e ino buf off sz w;
        if err \<noteq> RC_OK then Some ([ReplyErr (rc_code err)], w)
        else Some ([ReplyWrite wsize], w)
      })"

definition secfs_flush :: "'c env \<Rightarrow> fuse_env \<Rightarrow> ino_t \<Rightarrow> world \<Rightarrow> (reply list \<times> world) option" where
  "secfs_flush e F ino w =
     (case ecall F w of (ok, w) \<Rightarrow>
      if \<not> ok then Some ([ReplyErr (rc_code ENOENT)], w)
      else do {
        (err, w) \<leftarrow> ecall_fs_flush e ino w;
        Some ([ReplyErr (rc_code err)], w)
      })"

definition secfs_create ::
    "'c env \<Rightarrow> fuse_env \<Rightarrow> ino_t \<Rightarrow> string \<Rightarrow> file_info \<Rightarrow> world \<Rightarrow> (reply list \<times> world) option" where
  "secfs_create e F parent name fi w =
     (case ecall F w of (ok, w) \<Rightarrow>
      if \<not> ok then Some ([ReplyErr (rc_code ENOENT)], w)
      else do {
        (err, ino, statbuf, w) \<leftarrow> ecall_fs_create e parent name w;
        if err \<noteq> RC_OK then Some ([ReplyErr (rc_code err)], w)
        else Some ([ReplyCreate (mk_entry F w ino statbuf 1) fi], w)
      })"

definition secfs_fallocate ::
    "fuse_env \<Rightarrow> ino_t \<Rightarrow> int \<Rightarrow> off_t \<Rightarrow> off_t \<Rightarrow> world \<Rightarrow> (reply list \<times> world) option" where
  "secfs_fallocate F ino mode offset len w =
     (case ecall F w of (ok, w) \<Rightarrow>
      if \<not> ok then Some ([ReplyErr (rc_code ENOENT)], w)
      else case ecall_fs_fallocate ino mode offset len w of (err, w) \<Rightarrow> Some ([ReplyErr (rc_code err)], w))"

section \<open>Directories\<close>

text \<open>
  After an error of the first call the handler has replied and goes on.  The count is then zero, the
  value the bridge returns, or not initialised when the transition itself failed.  The bridge passes
  the enclave a zeroed copy of the buffer and refuses a size that does not fit a \<open>size_t\<close>.
\<close>

definition secfs_opendir ::
    "'c env \<Rightarrow> fuse_env \<Rightarrow> ino_t \<Rightarrow> file_info \<Rightarrow> world \<Rightarrow> (reply list \<times> file_info \<times> world) option" where
  "secfs_opendir e F ino fi w =
     (case ecall F w of (ok, w) \<Rightarrow>
      case (if \<not> ok then ([ReplyErr (rc_code ENOENT)], fe_junk F (clock w))
        else case ecall_fs_get_dirent_size ino w of (err, n) \<Rightarrow>
          if err \<noteq> RC_OK then ([ReplyErr (rc_code err)], 0)
          else ([], case n of Some n \<Rightarrow> n | None \<Rightarrow> 0)) of (replies, count) \<Rightarrow>
      case ecall F w of (ok, w) \<Rightarrow>
      if \<not> ok \<or> 2 ^ 64 \<le> sizeof_dirent * unat count then Some (replies @ [ReplyErr (rc_code ENOENT)], fi, w)
      else do {
        (err, dirp) \<leftarrow> ecall_fs_get_dirent ino (replicate (sizeof_dirent * unat count) 0) count w;
        if err \<noteq> RC_OK then Some (replies @ [ReplyErr (rc_code err)], fi, w)
        else let fi = fi\<lparr>fi_fh := Some dirp\<rparr> in Some (replies @ [ReplyOpen fi], fi, w)
      })"

text \<open>One entry as libfuse lays it out, from the struct at index \<open>i\<close>.\<close>

definition listing_entry :: "fuse_env \<Rightarrow> bytes \<Rightarrow> nat \<Rightarrow> bytes option" where
  "listing_entry F vec i = do {
     name \<leftarrow> c_string (sizeof_dirent * i) vec;
     let st = zero_attr\<lparr>fa_mode := push_bit 12 (le_word (rd (sizeof_dirent * i + 280) 4 vec)),
       fa_ino := le_word (rd (sizeof_dirent * i + 272) 8 vec)\<rparr>;
     Some (fe_direntry F name st (of_nat i + 1))
   }"

text \<open>libfuse copies an entry only if it fits into the remaining space; its size is returned in any case.\<close>

fun readdir_loop :: "fuse_env \<Rightarrow> bytes \<Rightarrow> nat list \<Rightarrow> nat \<Rightarrow> nat \<Rightarrow> bytes \<Rightarrow> (nat \<times> bytes) option" where
  "readdir_loop F vec [] p rem buf = Some (rem, buf)"
| "readdir_loop F vec (i # is) p rem buf = do {
     ent \<leftarrow> listing_entry F vec i;
     if length ent > rem then Some (rem, buf)
     else readdir_loop F vec is (p + length ent) (rem - length ent) (wr p ent buf)
   }"

definition secfs_readdir :: "fuse_env \<Rightarrow> size_t \<Rightarrow> off_t \<Rightarrow> file_info \<Rightarrow> (reply list) option" where
  "secfs_readdir F sz offset fi = do {
     vec \<leftarrow> fi_fh fi;
     (rem, buf) \<leftarrow> readdir_loop F vec [unat offset..<length vec div sizeof_dirent] 0 (unat sz)
       (replicate (unat sz) 0);
     Some [ReplyBuf (take (unat sz - rem) buf)]
   }"

definition secfs_releasedir :: "file_info \<Rightarrow> reply list \<times> file_info" where
  "secfs_releasedir fi = ([ReplyErr 0], fi\<lparr>fi_fh := None\<rparr>)"

section \<open>The table of operations\<close>

text \<open>A request of the kernel, and the handler \<open>secfs_oper\<close> of \<^verbatim>\<open>app/main.cpp\<close> registers for it.\<close>

datatype request = Req_lookup ino_t string | Req_forget ino_t size_t | Req_getattr ino_t
  | Req_setattr ino_t file_attr "32 word" | Req_mkdir ino_t string | Req_unlink ino_t string | Req_rmdir ino_t string
  | Req_open ino_t | Req_read ino_t size_t off_t | Req_write ino_t bytes size_t off_t | Req_flush ino_t
  | Req_opendir ino_t | Req_readdir ino_t size_t off_t | Req_releasedir ino_t | Req_access ino_t int
  | Req_create ino_t string | Req_fallocate ino_t int off_t off_t

fun secfs_oper ::
    "'c env \<Rightarrow> fuse_env \<Rightarrow> request \<Rightarrow> file_info \<Rightarrow> world \<Rightarrow> (reply list \<times> file_info \<times> world) option" where
  "secfs_oper e F (Req_lookup parent name) fi w = map_option (\<lambda>(r, w). (r, fi, w)) (secfs_lookup e F parent name w)"
| "secfs_oper e F (Req_forget ino n) fi w = map_option (\<lambda>(r, w). (r, fi, w)) (secfs_forget F ino n w)"
| "secfs_oper e F (Req_getattr ino) fi w = map_option (\<lambda>(r, w). (r, fi, w)) (secfs_getattr F ino w)"
| "secfs_oper e F (Req_setattr ino attr to_set) fi w = map_option (\<lambda>(r, w). (r, fi, w)) (secfs_setattr F ino attr to_set w)"
| "secfs_oper e F (Req_mkdir parent name) fi w = map_option (\<lambda>(r, w). (r, fi, w)) (secfs_mkdir e F parent name w)"
| "secfs_oper e F (Req_unlink parent name) fi w = map_option (\<lambda>(r, w). (r, fi, w)) (secfs_unlink e F parent name w)"
| "secfs_oper e F (Req_rmdir parent name) fi w = map_option (\<lambda>(r, w). (r, fi, w)) (secfs_rmdir e F parent name w)"
| "secfs_oper e F (Req_open ino) fi w = map_option (\<lambda>(r, w). (r, fi, w)) (secfs_open e F ino fi w)"
| "secfs_oper e F (Req_read ino sz off) fi w = map_option (\<lambda>(r, w). (r, fi, w)) (secfs_read e F ino sz off w)"
| "secfs_oper e F (Req_write ino buf sz off) fi w = map_option (\<lambda>(r, w). (r, fi, w)) (secfs_write e F ino buf sz off w)"
| "secfs_oper e F (Req_flush ino) fi w = map_option (\<lambda>(r, w). (r, fi, w)) (secfs_flush e F ino w)"
| "secfs_oper e F (Req_opendir ino) fi w = secfs_opendir e F ino fi w"
| "secfs_oper e F (Req_readdir ino sz off) fi w = map_option (\<lambda>r. (r, fi, w)) (secfs_readdir F sz off fi)"
| "secfs_oper e F (Req_releasedir ino) fi w = (case secfs_releasedir fi of (r, fi) \<Rightarrow> Some (r, fi, w))"
| "secfs_oper e F (Req_access ino amask) fi w = map_option (\<lambda>(r, w). (r, fi, w)) (secfs_access F ino amask w)"
| "secfs_oper e F (Req_create parent name) fi w = map_option (\<lambda>(r, w). (r, fi, w)) (secfs_create e F parent name fi w)"
| "secfs_oper e F (Req_fallocate ino mode off len) fi w = map_option (\<lambda>(r, w). (r, fi, w)) (secfs_fallocate F ino mode off len w)"

end
