(* ===== verification/Fuse_Replies.thy ===== *)
theory Fuse_Replies
  imports Fuse_Operations
begin

text \<open>
  What the FUSE handlers keep and what they answer: the enclave's invariant holds after every request,
  a request is answered once (a directory that cannot be opened twice), and the pages of a listing
  are the entries of the directory in order, none lost or repeated.
\<close>

section \<open>The invariant of the enclave\<close>

lemma ecall_eq: "ecall F w = (ok, w') \<longleftrightarrow> ok = fe_ecall F (clock w) \<and> w' = tick w"
  by (auto simp: ecall_def)

lemma tick_enclave: "enclave_ok w \<Longrightarrow> enclave_ok (tick w)"
  by (rule enclave_ok_more) (simp_all add: tick_def)

lemmas secfs_defs = secfs_lookup_def secfs_forget_def secfs_getattr_def secfs_setattr_def secfs_mkdir_def
  secfs_unlink_def secfs_rmdir_def secfs_access_def secfs_open_def secfs_read_def secfs_write_def
  secfs_flush_def secfs_create_def secfs_fallocate_def

lemma secfs_oper_enclave:
  assumes ok: "enclave_ok w" and run: "secfs_oper e F rq fi w = Some (rs, fi', w')"
  shows "enclave_ok w'"
proof -
  note t = tick_enclave [OF ok]
  show ?thesis
  proof (cases rq)
    case (Req_opendir ino)
    with run t show ?thesis
      by (auto simp: secfs_opendir_def ecall_eq Let_def intro: tick_enclave split: prod.splits if_splits option.splits bind_splits)
  qed (use run t ok in \<open>auto simp: secfs_defs ecall_eq Let_def secfs_releasedir_def
      split: prod.splits if_splits option.splits bind_splits dest: handler_enclave [OF t]\<close>)
qed


section \<open>One answer for a request\<close>

lemma secfs_oper_replies:
  assumes run: "secfs_oper e F rq fi w = Some (rs, fi', w')"
  shows "length rs = 1 \<or> (\<exists>ino err x. rq = Req_opendir ino \<and> rs = [ReplyErr err, x])"
proof (cases rq)
  case (Req_opendir ino)
  with run show ?thesis
    by (auto simp: secfs_opendir_def ecall_eq Let_def split: prod.splits if_splits option.splits bind_splits)
qed (use run in \<open>auto simp: secfs_defs ecall_eq Let_def secfs_releasedir_def secfs_readdir_def
    split: prod.splits if_splits option.splits bind_splits\<close>)

text \<open>Opening a directory that the enclave does not have, or a file, is answered twice with the same error.\<close>

lemma opendir_error_twice:
  assumes F: "fe_ecall F (clock w)" "fe_ecall F (Suc (clock w))"
    and nd: "\<forall>a dn. find_inode w ino \<noteq> Some (a, DirObj dn)"
  shows "\<exists>err w'. secfs_opendir e F ino fi w = Some ([ReplyErr err, ReplyErr err], fi, w') \<and> err \<noteq> 0 \<and>
    host.more w' = host.more w"
proof -
  have t: "find_inode (tick x) ino = find_inode x ino" for x :: world by (simp add: tick_def find_inode_def)
  define err where "err = (if find_inode w ino = None then ENOENT else ENOTDIR)"
  have e1: "ecall_fs_get_dirent_size ino (tick w) = (err, None)"
    using nd by (auto simp: ecall_fs_get_dirent_size_def t err_def split: option.splits inode_obj.splits)
  have e2: "ecall_fs_get_dirent ino buf n (tick (tick w)) = Some (err, buf)" for buf n
    using nd by (auto simp: ecall_fs_get_dirent_def t err_def split: option.splits inode_obj.splits)
  have "err \<noteq> RC_OK" "rc_code err \<noteq> 0" by (simp_all add: err_def)
  moreover have "clock (tick w) = Suc (clock w)" "host.more (tick (tick w)) = host.more w" by (simp_all add: tick_def)
  ultimately show ?thesis
    by (intro exI [of _ "rc_code err"] exI [of _ "tick (tick w)"]) (simp add: secfs_opendir_def ecall_def e1 e2 F)
qed


section \<open>The entries the enclave hands out\<close>

lemma get_dirent_frame:
  assumes "get_dirent_loop i count ds buf = Some buf'"
  shows "length buf' = length buf \<and> (\<forall>o' n. o' + n \<le> sizeof_dirent * i \<longrightarrow> rd o' n buf' = rd o' n buf)"
  using assms
proof (induction i count ds buf rule: get_dirent_loop.induct)
  case (2 i count d ds buf)
  then show ?case
    by (auto simp: Let_def rd_Dirent_dump_before split: if_splits)
qed simp

text \<open>
  With room for \<open>count\<close> entries the enclave writes that many, or all there are, and each is the struct
  of its entry.  For a count of zero and a directory with entries, it writes out of bounds.
\<close>

lemma get_dirent_ok:
  assumes "\<forall>d\<in>set ds. Dirent_storable d" and "i < count \<or> ds = []" and "length buf = sizeof_dirent * count"
  shows "\<exists>buf'. get_dirent_loop i count ds buf = Some buf' \<and> length buf' = length buf \<and>
    (\<forall>j < min (length ds) (count - i). Dirent_ctor (sizeof_dirent * (i + j)) buf' = Some (ds ! j))"
  using assms
proof (induction i count ds buf rule: get_dirent_loop.induct)
  case (2 i count d ds buf)
  let ?off = "sizeof_dirent * i"
  let ?buf = "Dirent_dump d ?off buf"
  from 2(3) have i: "i < count" by simp
  then have "sizeof_dirent * Suc i \<le> sizeof_dirent * count" by (intro mult_le_mono2) simp
  then have fits: "?off + sizeof_dirent \<le> length buf" using 2(4) by simp
  have here: "Dirent_ctor ?off buf' = Some d" if "length buf' = length buf"
    "rd ?off sizeof_dirent buf' = rd ?off sizeof_dirent ?buf" for buf'
    using that 2(2) fits by (intro Dirent_ctor_dump [OF _ fits]) simp_all
  show ?case
  proof (cases "count \<le> Suc i")
    case True
    then have "min (length (d # ds)) (count - i) = 1" using i by simp
    then show ?thesis using here [of ?buf] fits True by simp
  next
    case False
    from "2.IH" [OF _ refl False] 2(2,4) False fits obtain buf' where
      l: "get_dirent_loop (Suc i) count ds ?buf = Some buf'" and len: "length buf' = length ?buf"
      and rest: "\<And>j. j < min (length ds) (count - Suc i) \<Longrightarrow> Dirent_ctor (sizeof_dirent * (Suc i + j)) buf' = Some (ds ! j)"
      by auto
    have "rd ?off sizeof_dirent buf' = rd ?off sizeof_dirent ?buf"
      using get_dirent_frame [OF l] by simp
    with here len fits have first: "Dirent_ctor ?off buf' = Some d" by simp
    have "Dirent_ctor (sizeof_dirent * (i + j)) buf' = Some ((d # ds) ! j)"
      if j: "j < min (length (d # ds)) (count - i)" for j
      using first rest [of "j - 1"] j by (cases j) auto
    with l len fits False show ?thesis by (simp del: min_less_iff_conj)
  qed
qed simp

lemma get_dirent_zero:
  assumes "ds \<noteq> []"
  shows "get_dirent_loop 0 0 ds [] = None"
  using assms by (cases ds) (simp_all add: sizeof_dirent_def)


section \<open>The pages of a listing\<close>

text \<open>Entry \<open>i\<close> of a listing, as libfuse lays it out for the directory entry \<open>d\<close>; its offset is that of the next.\<close>

definition dirent_attr :: "Dirent \<Rightarrow> file_attr" where
  "dirent_attr d = zero_attr\<lparr>fa_mode := push_bit 12 (de_type d), fa_ino := de_ino d\<rparr>"

definition entry_bytes :: "fuse_env \<Rightarrow> Dirent list \<Rightarrow> nat \<Rightarrow> bytes" where
  "entry_bytes F ds i = fe_direntry F (de_name (ds ! i)) (dirent_attr (ds ! i)) (of_nat i + 1)"

lemma listing_entry_eq:
  assumes "Dirent_ctor (sizeof_dirent * i) vec = Some (ds ! i)"
  shows "listing_entry F vec i = Some (entry_bytes F ds i)"
proof -
  from assms obtain name where "c_string (sizeof_dirent * i) vec = Some name"
    and "ds ! i = \<lparr>de_ino = le_word (rd (sizeof_dirent * i + 272) 8 vec), de_name = name,
      de_type = le_word (rd (sizeof_dirent * i + 280) 4 vec), de_uuid = UUID_load (rd (sizeof_dirent * i + 256) 16 vec)\<rparr>"
    by (auto simp: Dirent_ctor_def split: if_splits bind_splits)
  then show ?thesis by (simp add: listing_entry_def entry_bytes_def dirent_attr_def)
qed

text \<open>One page: as many entries as fit, in order, from the offset on.\<close>

definition page :: "fuse_env \<Rightarrow> Dirent list \<Rightarrow> nat \<Rightarrow> nat \<Rightarrow> bytes" where
  "page F ds k m = concat (map (entry_bytes F ds) [k..<k + m])"

lemma page_0 [simp]: "page F ds k 0 = []"
  by (simp add: page_def)

lemma page_Suc: "page F ds k (Suc m) = entry_bytes F ds k @ page F ds (Suc k) m"
  by (simp add: page_def upt_conv_Cons del: upt_Suc)

lemma page_add: "page F ds k (m + m') = page F ds k m @ page F ds (k + m) m'"
  by (induction m arbitrary: k) (simp_all add: page_Suc)

lemma readdir_loop_ok:
  assumes "\<And>i. k \<le> i \<Longrightarrow> i < n \<Longrightarrow> listing_entry F vec i = Some (entry_bytes F ds i)"
    and "length buf = p + rem" and "k \<le> n"
  shows "\<exists>m buf'. k + m \<le> n \<and> length (page F ds k m) \<le> rem \<and>
    readdir_loop F vec [k..<n] p rem buf = Some (rem - length (page F ds k m), buf') \<and>
    take (p + length (page F ds k m)) buf' = take p buf @ page F ds k m \<and>
    (k + m < n \<longrightarrow> rem < length (page F ds k (Suc m)))"
  using assms
proof (induction "n - k" arbitrary: k p rem buf)
  case 0
  then show ?case by (intro exI [of _ 0] exI [of _ buf]) simp
next
  case (Suc x)
  then have k: "k < n" by simp
  then have up: "[k..<n] = k # [Suc k..<n]" by (rule upt_conv_Cons)
  let ?e = "entry_bytes F ds k"
  have e: "listing_entry F vec k = Some ?e" using Suc.prems(1) k by simp
  show ?case
  proof (cases "length ?e > rem")
    case True
    then show ?thesis using k e by (intro exI [of _ 0] exI [of _ buf]) (simp add: up page_Suc)
  next
    case False
    let ?buf = "wr p ?e buf"
    have lb: "length ?buf = p + length ?e + (rem - length ?e)" using False Suc.prems(2) by (simp add: length_wr)
    have tb: "take (p + length ?e) ?buf = take p buf @ ?e" using Suc.prems(2) False by (simp add: wr_def)
    have x: "x = n - Suc k" "Suc k \<le> n" using Suc.hyps(2) k by simp_all
    have en: "listing_entry F vec i = Some (entry_bytes F ds i)" if "Suc k \<le> i" "i < n" for i
      using Suc.prems(1) that by simp
    from Suc.hyps(1) [OF x(1) en lb x(2)] obtain m buf' where
      m: "Suc k + m \<le> n" "length (page F ds (Suc k) m) \<le> rem - length ?e"
        "readdir_loop F vec [Suc k..<n] (p + length ?e) (rem - length ?e) ?buf =
          Some (rem - length ?e - length (page F ds (Suc k) m), buf')"
        "take (p + length ?e + length (page F ds (Suc k) m)) buf' = take (p + length ?e) ?buf @ page F ds (Suc k) m"
        "Suc k + m < n \<longrightarrow> rem - length ?e < length (page F ds (Suc k) (Suc m))"
      by blast
    show ?thesis
      using m False e tb by (intro exI [of _ "Suc m"] exI [of _ buf']) (auto simp: up page_Suc [of F ds k] add.assoc)
  qed
qed

text \<open>An open directory: its entries in memory, as \<open>opendir\<close> has read them.\<close>

definition dir_open :: "file_info \<Rightarrow> Dirent list \<Rightarrow> bool" where
  "dir_open fi ds \<longleftrightarrow> (\<exists>vec. fi_fh fi = Some vec \<and> length vec = sizeof_dirent * length ds \<and>
     (\<forall>i < length ds. Dirent_ctor (sizeof_dirent * i) vec = Some (ds ! i)))"

lemma secfs_readdir_ok:
  assumes fi: "dir_open fi ds" and k: "unat offset \<le> length ds"
  shows "\<exists>m. unat offset + m \<le> length ds \<and> length (page F ds (unat offset) m) \<le> unat sz \<and>
    secfs_readdir F sz offset fi = Some [ReplyBuf (page F ds (unat offset) m)] \<and>
    (unat offset + m < length ds \<longrightarrow> unat sz < length (page F ds (unat offset) (Suc m)))"
proof -
  from fi obtain vec where vec: "fi_fh fi = Some vec" "length vec = sizeof_dirent * length ds"
    and ent: "\<And>i. i < length ds \<Longrightarrow> listing_entry F vec i = Some (entry_bytes F ds i)"
    by (auto simp: dir_open_def intro: listing_entry_eq)
  have n: "length vec div sizeof_dirent = length ds" using vec(2) by (simp add: sizeof_dirent_def)
  from readdir_loop_ok [where k = "unat offset" and n = "length ds" and F = F and vec = vec and ds = ds and
      buf = "replicate (unat sz) 0" and p = 0 and rem = "unat sz"] ent k
  show ?thesis by (fastforce simp: secfs_readdir_def vec(1) n)
qed

text \<open>
  How the kernel reads a directory: it asks again with the offset of the last entry it received, until
  it receives nothing.  The function \<open>nxt\<close> takes that offset out of a page.
\<close>

fun list_directory :: "nat \<Rightarrow> fuse_env \<Rightarrow> (bytes \<Rightarrow> off_t) \<Rightarrow> size_t \<Rightarrow> file_info \<Rightarrow> off_t \<Rightarrow> bytes option" where
  "list_directory 0 F nxt sz fi off = None"
| "list_directory (Suc fuel) F nxt sz fi off =
     (case secfs_readdir F sz off fi of
        Some [ReplyBuf buf] \<Rightarrow>
          if buf = [] then Some [] else map_option (\<lambda>rest. buf @ rest) (list_directory fuel F nxt sz fi (nxt buf))
      | _ \<Rightarrow> None)"

definition direntry_lawful :: "fuse_env \<Rightarrow> (bytes \<Rightarrow> off_t) \<Rightarrow> bool" where
  "direntry_lawful F nxt \<longleftrightarrow>
     (\<forall>name st off pre. fe_direntry F name st off \<noteq> [] \<and> nxt (pre @ fe_direntry F name st off) = off)"

lemma entry_bytes_nonempty: "direntry_lawful F nxt \<Longrightarrow> entry_bytes F ds i \<noteq> []"
  by (simp add: direntry_lawful_def entry_bytes_def)

lemma page_next:
  assumes "direntry_lawful F nxt"
  shows "nxt (page F ds k (Suc m)) = of_nat (k + m) + 1"
proof -
  have "page F ds k (Suc m) = page F ds k m @ entry_bytes F ds (k + m)"
    using page_add [of F ds k m 1] by (simp add: page_Suc)
  then show ?thesis using assms by (simp add: direntry_lawful_def entry_bytes_def)
qed

lemma list_directory_from:
  assumes F: "direntry_lawful F nxt" and fi: "dir_open fi ds" and small: "length ds < 2 ^ 63"
    and fit: "\<And>i. i < length ds \<Longrightarrow> length (entry_bytes F ds i) \<le> unat sz"
    and k: "k \<le> length ds" and fuel: "length ds - k < fuel"
  shows "list_directory fuel F nxt sz fi (of_nat k) = Some (page F ds k (length ds - k))"
  using k fuel
proof (induction fuel arbitrary: k)
  case (Suc fuel)
  have u: "unat (of_nat j :: off_t) = j" if "j \<le> length ds" for j
    using that small by (simp add: unat_of_nat take_bit_eq_mod)
  from secfs_readdir_ok [OF fi, of "of_nat k" F sz] Suc.prems(1) u obtain m where
    m: "k + m \<le> length ds" and r: "secfs_readdir F sz (of_nat k) fi = Some [ReplyBuf (page F ds k m)]"
    and mx: "k + m < length ds \<Longrightarrow> unat sz < length (page F ds k (Suc m))" by auto
  show ?case
  proof (cases m)
    case 0
    have "k = length ds"
    proof (rule ccontr)
      assume "k \<noteq> length ds"
      then have "k < length ds" using Suc.prems(1) by simp
      with mx 0 fit [of k] show False by (simp add: page_Suc)
    qed
    with r 0 show ?thesis by simp
  next
    case (Suc j)
    have "page F ds k m \<noteq> []" using entry_bytes_nonempty [OF F] Suc by (simp add: page_Suc)
    moreover have "nxt (page F ds k m) = of_nat (k + m)" using page_next [OF F] Suc by (simp add: ac_simps)
    moreover have "list_directory fuel F nxt sz fi (of_nat (k + m)) = Some (page F ds (k + m) (length ds - (k + m)))"
      using m Suc Suc.prems by (intro Suc.IH) simp_all
    moreover have "page F ds k (length ds - k) = page F ds k m @ page F ds (k + m) (length ds - (k + m))"
      using m page_add [of F ds k m "length ds - (k + m)"] by simp
    ultimately show ?thesis using r by simp
  qed
qed simp

lemma list_directory_complete:
  assumes "direntry_lawful F nxt" and "dir_open fi ds" and "length ds < 2 ^ 63"
    and "\<And>i. i < length ds \<Longrightarrow> length (entry_bytes F ds i) \<le> unat sz"
  shows "list_directory (Suc (length ds)) F nxt sz fi 0 = Some (concat (map (entry_bytes F ds) [0..<length ds]))"
  using list_directory_from [OF assms, of 0 "Suc (length ds)"] by (simp add: page_def)


lemma find_inode_tick [simp]: "find_inode (tick w) ino = find_inode w ino"
  by (simp add: tick_def find_inode_def)

lemma secfs_opendir_ok:
  assumes F: "fe_ecall F (clock w)" "fe_ecall F (Suc (clock w))"
    and dn: "find_inode w ino = Some (a, DirObj dn)" and st: "Dirnode_storable dn"
  shows "\<exists>fi'. secfs_opendir e F ino fi w = Some ([ReplyOpen fi'], fi', tick (tick w)) \<and>
    dir_open fi' (dn_dirent dn)"
proof -
  let ?ds = "dn_dirent dn" and ?n = "length (dn_dirent dn)"
  have small: "unat (of_nat ?n :: size_t) = ?n" by (rule Dirnode_entnum [OF st])
  have "sizeof_dirent * ?n < 2 ^ 64" using st by (simp add: Dirnode_storable_def Dirnode_bytes_def)
  then have fits: "\<not> 2 ^ 64 \<le> sizeof_dirent * ?n" by simp
  have "\<forall>d\<in>set ?ds. Dirent_storable d" using st by (simp add: Dirnode_storable_def)
  from get_dirent_ok [OF this, of 0 ?n "replicate (sizeof_dirent * ?n) 0"] obtain vec where
    vec: "get_dirent_loop 0 ?n ?ds (replicate (sizeof_dirent * ?n) 0) = Some vec" "length vec = sizeof_dirent * ?n"
      "\<forall>j < ?n. Dirent_ctor (sizeof_dirent * j) vec = Some (?ds ! j)" by auto
  let ?fi = "fi\<lparr>fi_fh := Some vec\<rparr>"
  have "clock (tick w) = Suc (clock w)" by (simp add: tick_def)
  then have "secfs_opendir e F ino fi w = Some ([ReplyOpen ?fi], ?fi, tick (tick w))"
    by (simp add: secfs_opendir_def ecall_def F dn ecall_fs_get_dirent_size_def ecall_fs_get_dirent_def small
        fits [simplified] vec(1) Let_def)
  moreover have "dir_open ?fi ?ds" using vec(2,3) by (simp add: dir_open_def)
  ultimately show ?thesis by blast
qed

section \<open>Bytes through the interface\<close>

text \<open>The clock, which the transition into the enclave advances, does not matter to the data.\<close>

lemma tick_data:
  "chunk_at (tick w) = chunk_at w" "stored_chunk e (tick w) = stored_chunk e w"
  "heap (tick w) = heap w" "local_cache (tick w) = local_cache w" "rnd (tick w) = rnd w" "volkey (tick w) = volkey w"
  by (simp_all add: fun_eq_iff chunk_at_def stored_chunk_def tick_def Let_def split: option.splits)

lemma data_ok_tick: "data_ok e w \<Longrightarrow> data_ok e (tick w)"
  by (simp add: data_ok_def data_inv_def uuids_unique_def cached_ok_def tick_data)

lemma holds_tick: "holds e (tick w) a bs = holds e w a bs"
proof -
  have "chunk_content e (tick w) = chunk_content e w" by (simp add: fun_eq_iff chunk_content_def tick_data split: option.splits)
  then have "blocks e (tick w) a = blocks e w a" unfolding blocks_def by (simp only: tick_data)
  then show ?thesis unfolding holds_def by (simp only: tick_data)
qed

lemma fresh_uuids_tick: "fresh_uuids e (tick w) n = fresh_uuids e w n"
  by (simp add: fresh_uuids_def tick_data)


text \<open>The reply to a write, and to a read of the same place after any request that leaves the file as it is.\<close>

lemma secfs_write_ok:
  assumes e: "env_lawful e" "host_reliable e" and ok: "data_ok e w" and F: "fe_ecall F (clock w)"
    and fn: "find_inode w ino = Some (a, FileObj fn)" and hd: "holds e w a bs"
    and req: "request_ok off sz" and buf: "unat sz = length buf"
    and fr: "fresh_uuids e w (unat (end_chunk off sz))" and keep: "unat off + unat sz + 1 \<noteq> length bs"
  shows "\<exists>w' fn'. secfs_write e F ino buf sz off w = Some ([ReplyWrite sz], w') \<and> data_ok e w' \<and>
    find_inode w' ino = Some (a, FileObj fn') \<and> holds e w' a (overlay (unat off) buf bs)"
proof -
  from ecall_fs_write_ok [OF e data_ok_tick [OF ok], of ino a fn bs off sz buf] assms obtain w' fn' where
    "ecall_fs_write e ino buf off sz (tick w) = Some (RC_OK, sz, w')" "data_ok e w'"
    "find_inode w' ino = Some (a, FileObj fn')" "holds e w' a (overlay (unat off) (take (unat sz) buf) bs)"
    by (auto simp: holds_tick fresh_uuids_tick)
  then show ?thesis using F buf by (auto simp: secfs_write_def ecall_def)
qed

lemma secfs_read_ok:
  assumes e: "env_lawful e" "host_reliable e" and ok: "data_ok e w" and F: "fe_ecall F (clock w)"
    and mal: "\<And>t n. length (fe_malloc F t n) = n"
    and fn: "find_inode w ino = Some (a, FileObj fn)" and hd: "holds e w a bs" and off: "unat off \<le> length bs"
  shows "\<exists>w'. secfs_read e F ino sz off w = Some ([ReplyBuf (rd (unat off) (unat sz) bs)], w') \<and> data_ok e w' \<and>
    (\<forall>b bs'. holds e w b bs' \<longrightarrow> holds e w' b bs')"
proof -
  let ?buf = "fe_malloc F (clock w) (unat sz)" and ?out = "rd (unat off) (unat sz) bs"
  have "heap w a = Some (FileObj fn)" using find_inode_heap [OF fn] by simp
  with hd have wf: "file_wf fn" and len: "length bs = unat (fn_size fn)" by (auto elim!: holdsD)
  have fb: "file_bytes e (tick w) a = Some bs" using hd by (intro holds_file_bytes) (simp add: holds_tick)
  from ecall_fs_read_ok [OF e data_ok_tick [OF ok] _ wf fb, of ino off sz ?buf] fn off len mal obtain w' where
    rd: "ecall_fs_read e ino ?buf off sz (tick w) = Some (RC_OK, of_nat (length ?out), wr 0 ?out ?buf, w')"
    and sc: "same_contents e (tick w) w'" and ok': "data_ok e w'" by auto
  have lo: "length ?out \<le> unat sz" by (simp add: rd_def)
  also have "unat sz < 2 ^ LENGTH(64)" by (rule unsigned_less)
  finally have "unat (of_nat (length ?out) :: size_t) = length ?out" by (simp add: unat_of_nat take_bit_eq_mod)
  moreover have "take (length ?out) (wr 0 ?out ?buf) = ?out" by (simp add: wr_def)
  ultimately have "secfs_read e F ino sz off w = Some ([ReplyBuf ?out], w')"
    by (simp add: secfs_read_def ecall_def F rd)
  with ok' same_contents_holds [OF sc] show ?thesis by (auto simp: holds_tick)
qed

end
