(* ===== verification/Fuse_Claims.thy ===== *)
theory Fuse_Claims
  imports Fuse_Replies Sample_World
begin

text \<open>
  The properties of the FUSE handlers: what the kernel is answered, and that listing a directory page by
  page gives every entry once.
\<close>

section \<open>Samples\<close>

definition sample_fuse :: fuse_env where
  "sample_fuse = \<lparr>fe_ecall = (\<lambda>_. True), fe_junk = (\<lambda>_. 0), fe_malloc = (\<lambda>t n. replicate n 0),
     fe_direntry = (\<lambda>name st off. str_bytes name @ le_bytes 8 off)\<rparr>"

definition sample_next :: "bytes \<Rightarrow> off_t" where
  "sample_next b = le_word (drop (length b - 8) b)"

definition sample_fi :: file_info where
  "sample_fi = \<lparr>fi_flags = 0, fi_fh = None\<rparr>"

lemma sample_fuse_simps [simp]:
  "fe_ecall sample_fuse t" "fe_malloc sample_fuse t n = replicate n 0"
  "fe_direntry sample_fuse name st off = str_bytes name @ le_bytes 8 off"
  by (simp_all add: sample_fuse_def)

lemma sample_direntry: "direntry_lawful sample_fuse sample_next"
  by (auto simp: direntry_lawful_def sample_next_def simp flip: length_0_conv)

lemma sample_root_storable: "Dirnode_storable sample_root"
  by (simp add: sample_root_def Dirnode_storable_def Dirent_storable_def
      Dirnode_bytes_def sizeof_dirnode_buffer_def sizeof_dirent_def fs_consts no_nul_def)

section \<open>Bytes\<close>

text \<open>
  C10.  Through the FUSE interface: a write is answered with its size, and a read of the same place then
  with the bytes written.
\<close>

theorem fuse_read_after_write:
  assumes "env_lawful e" and "host_reliable e" and "data_ok e w"
    and "\<And>t. fe_ecall F t" and "\<And>t n. length (fe_malloc F t n) = n"
    and "find_inode w ino = Some (a, FileObj fn)" and "holds e w a bs"
    and "request_ok off sz" and "unat sz = length buf"
    and "fresh_uuids e w (unat (end_chunk off sz))" and "unat off + unat sz + 1 \<noteq> length bs"
  shows "\<exists>w1 w2. secfs_write e F ino buf sz off w = Some ([ReplyWrite sz], w1) \<and>
    secfs_read e F ino sz off w1 = Some ([ReplyBuf buf], w2)"
proof -
  from secfs_write_ok [OF assms(1-4) assms(6-11)] obtain w1 fn' where
    w1: "secfs_write e F ino buf sz off w = Some ([ReplyWrite sz], w1)" "data_ok e w1"
      "find_inode w1 ino = Some (a, FileObj fn')" "holds e w1 a (overlay (unat off) buf bs)" by blast
  have "rd (unat off) (unat sz) (overlay (unat off) buf bs) = buf"
    using rd_overlay [of "unat off" buf bs] assms(9) by simp
  moreover have "unat off \<le> length (overlay (unat off) buf bs)" by (simp add: length_overlay)
  ultimately show ?thesis
    using secfs_read_ok [OF assms(1,2) w1(2) assms(4,5) w1(3,4), of off sz] w1(1) by auto
qed

theorem fuse_read_after_write_witness:
  "\<exists>w1 w2. secfs_write sample_env sample_fuse 5 [104, 105] 2 2 sample_world = Some ([ReplyWrite 2], w1) \<and>
    secfs_read sample_env sample_fuse 5 2 2 w1 = Some ([ReplyBuf [104, 105]], w2)"
proof -
  have "fresh_uuids sample_env sample_world (unat (end_chunk 2 2))"
    using sample_fresh by (simp add: end_chunk_def CHUNKSIZE_def)
  from fuse_read_after_write [OF sample_env_lawful sample_env_reliable sample_data_ok _ _ sample_find(1) sample_holds
      _ _ this, of sample_fuse "[104, 105]"]
  show ?thesis by (auto simp: request_ok_def CHUNKSIZE_def)
qed

section \<open>Answers\<close>

text \<open>
  C31.  Every request is answered exactly once, with one exception: \<open>opendir\<close>, which after an error goes
  on and may answer a second time.
\<close>

theorem one_reply:
  assumes "secfs_oper e F rq fi w = Some (rs, fi', w')"
  shows "length rs = 1 \<or> (\<exists>ino err x. rq = Req_opendir ino \<and> rs = [ReplyErr err, x])"
  by (rule secfs_oper_replies [OF assms])

theorem one_reply_witness:
  "\<exists>rs fi' w'. secfs_oper sample_env sample_fuse (Req_getattr 5) sample_fi sample_world = Some (rs, fi', w') \<and> length rs = 1"
proof -
  obtain rs fi' w' where g: "secfs_oper sample_env sample_fuse (Req_getattr 5) sample_fi sample_world = Some (rs, fi', w')"
    by (auto simp: secfs_getattr_def ecall_def ecall_fs_getattr_def sample_find)
  from one_reply [OF this] g show ?thesis by auto
qed

text \<open>
  C32.  Opening a directory that is not open in the enclave, or is a file, is answered twice with the same
  error (lines 283 to 298 of \<^verbatim>\<open>fuse_operations.cpp\<close>), where libfuse allows one answer.
\<close>

theorem opendir_answers_twice:
  assumes "fe_ecall F (clock w)" and "fe_ecall F (Suc (clock w))"
    and "\<And>a dn. find_inode w ino \<noteq> Some (a, DirObj dn)"
  shows "\<exists>err w'. secfs_opendir e F ino fi w = Some ([ReplyErr err, ReplyErr err], fi, w') \<and> err \<noteq> 0 \<and>
    host.more w' = host.more w"
  using opendir_error_twice [OF assms(1,2)] assms(3) by blast

theorem opendir_answers_twice_witness:
  "\<exists>err w'. secfs_opendir sample_env sample_fuse 5 sample_fi sample_world = Some ([ReplyErr err, ReplyErr err], sample_fi, w')"
  using opendir_answers_twice [of sample_fuse sample_world 5 sample_env sample_fi] sample_find by auto

text \<open>
  C33.  When the transition into the enclave fails, nothing changes in the enclave or the store, and the
  answers are \<open>ENOENT\<close>; only \<open>forget\<close>, which has no error answer, and the requests that do not enter
  the enclave are answered otherwise.
\<close>

theorem no_transition_no_change:
  assumes "\<And>t. \<not> fe_ecall F t" and "secfs_oper e F rq fi w = Some (rs, fi', w')"
  shows "host.more w' = host.more w \<and> files w' = files w \<and>
    (set rs = {ReplyErr 2} \<or> (\<exists>ino n. rq = Req_forget ino n \<and> rs = [ReplyNone]) \<or>
      (\<exists>ino sz off. rq = Req_readdir ino sz off) \<or> (\<exists>ino. rq = Req_releasedir ino))"
  using assms by (cases rq) (auto simp: secfs_defs ecall_def secfs_opendir_def secfs_releasedir_def Let_def)

theorem no_transition_no_change_witness:
  "\<exists>rs fi' w'. secfs_oper sample_env (sample_fuse\<lparr>fe_ecall := \<lambda>_. False\<rparr>) (Req_unlink 1 ''a.txt'') sample_fi sample_world =
      Some (rs, fi', w') \<and> set rs = {ReplyErr 2}"
proof -
  let ?F = "sample_fuse\<lparr>fe_ecall := \<lambda>_. False\<rparr>"
  obtain rs fi' w' where g: "secfs_oper sample_env ?F (Req_unlink 1 ''a.txt'') sample_fi sample_world = Some (rs, fi', w')"
    by (auto simp: secfs_unlink_def ecall_def)
  from no_transition_no_change [OF _ g] g show ?thesis by auto
qed

section \<open>Listing a directory\<close>

text \<open>
  C27.  The buffer of directory entries: with room for \<open>count\<close> entries the enclave writes that many, or
  all there are, each of which reads back as its entry, and stays within the buffer; with a count of
  zero and a directory that has entries it writes past the end, since it compares only after writing.
\<close>

theorem get_dirent_bounds:
  assumes "find_inode w ino = Some (a, DirObj dn)" and "Dirnode_storable dn"
    and "length buf = sizeof_dirent * unat count"
  shows "if unat count = 0 \<and> dn_dirent dn \<noteq> [] then ecall_fs_get_dirent ino buf count w = None
    else (\<exists>buf'. ecall_fs_get_dirent ino buf count w = Some (RC_OK, buf') \<and> length buf' = length buf \<and>
      (\<forall>j < min (length (dn_dirent dn)) (unat count). Dirent_ctor (sizeof_dirent * j) buf' = Some (dn_dirent dn ! j)))"
proof (cases "unat count = 0 \<and> dn_dirent dn \<noteq> []")
  case True
  with get_dirent_zero [of "dn_dirent dn"] assms show ?thesis by (simp add: ecall_fs_get_dirent_def)
next
  case False
  have st: "\<forall>d\<in>set (dn_dirent dn). Dirent_storable d" using assms(2) by (simp add: Dirnode_storable_def)
  have "0 < unat count \<or> dn_dirent dn = []" using False by auto
  from get_dirent_ok [OF st this assms(3)] False assms(1) show ?thesis by (auto simp: ecall_fs_get_dirent_def)
qed

theorem get_dirent_bounds_witness:
  "\<exists>buf'. ecall_fs_get_dirent 1 (replicate 288 0) 1 sample_world = Some (RC_OK, buf') \<and>
    Dirent_ctor 0 buf' = Some \<lparr>de_ino = 5, de_name = ''a.txt'', de_type = T_DT_REG, de_uuid = 101\<rparr>"
  using get_dirent_bounds [OF sample_find(2) sample_root_storable, of "replicate 288 0" 1]
  by (auto simp: sizeof_dirent_def sample_root_def)

text \<open>
  C28.  A page of a listing never exceeds the size the kernel asks for, consists of the entries from the
  offset on, in order, and ends only where the next entry does not fit.
\<close>

theorem readdir_page:
  assumes "dir_open fi ds" and "unat offset \<le> length ds"
  shows "\<exists>m. unat offset + m \<le> length ds \<and> length (page F ds (unat offset) m) \<le> unat sz \<and>
    secfs_readdir F sz offset fi = Some [ReplyBuf (page F ds (unat offset) m)] \<and>
    (unat offset + m < length ds \<longrightarrow> unat sz < length (page F ds (unat offset) (Suc m)))"
  by (rule secfs_readdir_ok [OF assms])

theorem readdir_page_witness:
  "\<exists>fi w' m. secfs_opendir sample_env sample_fuse 1 sample_fi sample_world = Some ([ReplyOpen fi], fi, w') \<and>
    secfs_readdir sample_fuse 4 0 fi = Some [ReplyBuf (page sample_fuse (dn_dirent sample_root) 0 m)] \<and> m = 0"
proof -
  from secfs_opendir_ok [OF _ _ sample_find(2) sample_root_storable, of sample_fuse sample_env sample_fi] obtain fi where
    o: "secfs_opendir sample_env sample_fuse 1 sample_fi sample_world = Some ([ReplyOpen fi], fi, tick (tick sample_world))"
      "dir_open fi (dn_dirent sample_root)" by auto
  from readdir_page [OF o(2), of 0 sample_fuse 4] obtain m where
    m: "secfs_readdir sample_fuse 4 0 fi = Some [ReplyBuf (page sample_fuse (dn_dirent sample_root) 0 m)]"
      "length (page sample_fuse (dn_dirent sample_root) 0 m) \<le> 4" by auto
  have "m = 0"
  proof (rule ccontr)
    assume "m \<noteq> 0"
    then obtain k where "m = Suc k" by (cases m) auto
    with m(2) show False by (simp add: page_Suc entry_bytes_def)
  qed
  with o(1) m(1) show ?thesis by blast
qed

text \<open>
  C11.  Listing ends and is complete: the kernel that opens a directory and asks for page after page,
  each from the offset of the last entry it has received, receives every entry once, in order, after
  at most one page for each entry and a last one, when each entry fits a page.
\<close>

theorem listing_complete:
  assumes "fe_ecall F (clock w)" and "fe_ecall F (Suc (clock w))"
    and "find_inode w ino = Some (a, DirObj dn)" and "Dirnode_storable dn" and "direntry_lawful F nxt"
    and "\<And>i. i < length (dn_dirent dn) \<Longrightarrow> length (entry_bytes F (dn_dirent dn) i) \<le> unat sz"
  shows "\<exists>fi' w'. secfs_opendir e F ino fi w = Some ([ReplyOpen fi'], fi', w') \<and>
    list_directory (Suc (length (dn_dirent dn))) F nxt sz fi' 0 =
      Some (concat (map (entry_bytes F (dn_dirent dn)) [0..<length (dn_dirent dn)]))"
proof -
  from secfs_opendir_ok [OF assms(1-4)] obtain fi' where
    o: "secfs_opendir e F ino fi w = Some ([ReplyOpen fi'], fi', tick (tick w))" "dir_open fi' (dn_dirent dn)" by blast
  have "length (dn_dirent dn) < 2 ^ 63"
    using assms(4) by (simp add: Dirnode_storable_def Dirnode_bytes_def sizeof_dirent_def)
  from list_directory_complete [OF assms(5) o(2) this assms(6)] o(1) show ?thesis by blast
qed

theorem listing_complete_witness:
  "\<exists>fi w'. secfs_opendir sample_env sample_fuse 1 sample_fi sample_world = Some ([ReplyOpen fi], fi, w') \<and>
    list_directory 2 sample_fuse sample_next 100 fi 0 = Some (str_bytes ''a.txt'' @ le_bytes 8 (1 :: off_t))"
proof -
  have l: "length (dn_dirent sample_root) = 1" by (simp add: sample_root_def)
  have e: "entry_bytes sample_fuse (dn_dirent sample_root) 0 = str_bytes ''a.txt'' @ le_bytes 8 (1 :: off_t)"
    by (simp add: entry_bytes_def sample_root_def)
  have le: "length (str_bytes ''a.txt'' @ le_bytes 8 (1 :: off_t)) \<le> unat (100 :: size_t)" by simp
  have "\<And>i. i < length (dn_dirent sample_root) \<Longrightarrow> length (entry_bytes sample_fuse (dn_dirent sample_root) i) \<le> unat (100 :: size_t)"
    using e le unfolding l by simp
  from listing_complete [OF _ _ sample_find(2) sample_root_storable sample_direntry this, of sample_env sample_fi]
  show ?thesis by (auto simp: l e numeral_2_eq_2)
qed

end
