(* ===== verification/App_Volume.thy ===== *)
theory App_Volume
  imports Ecall_Volume App_Cache "HOL-Library.AList"
begin

text \<open>
  Class \<open>Volume\<close> of the application (\<^verbatim>\<open>app/volume.cpp\<close>) and the configuration of its backend
  (\<^verbatim>\<open>app/backend/local.cpp\<close>): reading the configuration, starting the enclave, creating and mounting.

  What the repository does not decide is in the record \<open>app_env\<close>: the JSON library's parser and
  printer, the key parser of mbedTLS and its base64, libuuid, the status of files, and whether an
  enclave starts and is entered.  The store of a world is the directory the configuration names.
  A result \<^term>\<open>None\<close> is an exception that nothing catches.
\<close>

section \<open>Configurations\<close>

text \<open>Values of the JSON library; an object is the list of its members.\<close>

datatype json = JNull | JBool bool | JInt int | JString string | JArray "json list" | JObject "(string \<times> json) list"

fun js_members :: "json \<Rightarrow> string \<rightharpoonup> json" where
  "js_members (JObject ms) = map_of ms"
| "js_members _ = Map.empty"

fun is_string :: "json option \<Rightarrow> bool" where
  "is_string (Some (JString _)) = True" | "is_string _ = False"

fun is_object :: "json option \<Rightarrow> bool" where
  "is_object (Some (JObject _)) = True" | "is_object _ = False"

text \<open>Conversions throw for a value of another type; assignment turns null into an object.\<close>

fun as_string :: "json option \<Rightarrow> string option" where
  "as_string (Some (JString s)) = Some s" | "as_string _ = None"

fun as_int :: "json option \<Rightarrow> int option" where
  "as_int (Some (JInt i)) = Some i" | "as_int _ = None"

fun js_set :: "string \<Rightarrow> json \<Rightarrow> json \<Rightarrow> json option" where
  "js_set k v (JObject ms) = Some (JObject (AList.update k v ms))"
| "js_set k v JNull = Some (JObject [(k, v)])"
| "js_set k v _ = None"

section \<open>Paths\<close>

text \<open>The operator \<open>/\<close> of \<open>std::filesystem::path\<close>, and \<open>parent_path\<close> for a path with at most one leading slash.\<close>

definition path_append :: "string \<Rightarrow> string \<Rightarrow> string" where
  "path_append base p =
     (if p \<noteq> [] \<and> List.hd p = CHR ''/'' then p
      else if base = [] \<or> List.last base = CHR ''/'' then base @ p
      else base @ ''/'' @ p)"

definition parent_path :: "string \<Rightarrow> string" where
  "parent_path p =
     (let dir = rev (dropWhile (\<lambda>c. c \<noteq> CHR ''/'') (rev p));
          stem = rev (dropWhile (\<lambda>c. c = CHR ''/'') (rev dir))
      in if stem = [] then dir else stem)"

section \<open>State and environment\<close>

datatype file_type = FT_none | FT_directory | FT_other

record LocalStorage =
  ls_base_dir :: string
  ls_is_loaded :: bool

record ('g, 'q) volume =
  vo_api :: "LocalStorage option"
  vo_is_loaded :: bool
  vo_config :: json
  vo_enclave_path :: string
  vo_pubkey_path :: string
  vo_key_path :: string
  vo_base_dir :: string
  vo_eid :: "64 word"
  vo_pubkey :: "('g, 'q) keypair"
  vo_key :: "('g, 'q) keypair"
  vo_key_d :: bytes
  vo_writeback :: int
  vo_debug :: int

text \<open>
  A parsed key: whether it is one of an elliptic curve, its group and point, and the private number.
  The three copy functions are asked for their status by the names of the members copied.
\<close>

record ('g, 'q) pk_context =
  pk_eckey :: bool
  pk_pair :: "('g, 'q) keypair"
  pk_d :: bytes

record ('g, 'q) app_env =
  js_parse :: "bytes \<Rightarrow> json option"
  js_dump :: "json \<Rightarrow> bytes option"
  txt_open_r :: "string \<Rightarrow> bool"
  txt_open_w :: "string \<Rightarrow> bool"
  txt_written :: "nat \<Rightarrow> nat"
  fs_status :: "string \<Rightarrow> bool \<times> file_type"
  pk_parse_keyfile :: "string \<Rightarrow> int \<times> ('g, 'q) pk_context"
  pk_parse_public_keyfile :: "string \<Rightarrow> int \<times> ('g, 'q) pk_context"
  pk_copy :: "string \<Rightarrow> int"
  b64_decode :: "string \<Rightarrow> bytes option"
  b64_encode :: "bytes \<Rightarrow> string"
  uu_parse :: "string \<Rightarrow> int \<times> bytes"
  uu_unparse :: "bytes \<Rightarrow> string"
  create_enclave :: "string \<Rightarrow> bool \<times> 64 word"
  enter_ok :: "nat \<Rightarrow> bool"

definition Volume_ctor :: "('g, 'q) ecp \<Rightarrow> ('g, 'q) volume" where
  "Volume_ctor E = \<lparr>vo_api = None, vo_is_loaded = False, vo_config = JNull, vo_enclave_path = '''',
     vo_pubkey_path = '''', vo_key_path = '''', vo_base_dir = '''', vo_eid = 0, vo_pubkey = keypair_init E,
     vo_key = keypair_init E, vo_key_d = [], vo_writeback = 0, vo_debug = 0\<rparr>"

text \<open>The memory of an enclave that starts: the globals of \<^verbatim>\<open>enclave/volume.cpp\<close>.\<close>

definition enclave_boot :: "world \<Rightarrow> world" where
  "enclave_boot w = w\<lparr>inode_map := Map.empty, heap := Map.empty, superinfo := None,
     volkey := replicate VOLKEYSIZE 0, local_cache := \<lparr>kl_nodes = [], kl_map = Map.empty, kl_next = 0\<rparr>\<rparr>"

section \<open>The backend\<close>

definition LocalStorage_load_config :: "json option \<Rightarrow> LocalStorage option" where
  "LocalStorage_load_config config =
     (let ret = \<lparr>ls_base_dir = '''', ls_is_loaded = False\<rparr> in
      if \<not> is_object config then Some ret
      else case Option.bind config (\<lambda>c. js_members c ''base_dir'') of
        None \<Rightarrow> Some ret
      | base_dir \<Rightarrow> do {
          dir \<leftarrow> as_string base_dir;
          Some (ret\<lparr>ls_base_dir := dir, ls_is_loaded := True\<rparr>)
        })"

definition LocalStorage_init :: "('g, 'q) app_env \<Rightarrow> LocalStorage \<Rightarrow> int" where
  "LocalStorage_init A ls =
     (case fs_status A (ls_base_dir ls) of (ec, t) \<Rightarrow>
        if ec then 0 else if t = FT_none then 0 else if t \<noteq> FT_directory then 0 else 1)"

text \<open>The new value of \<open>api\<close>, which is also the result.\<close>

definition load_api_instance :: "json \<Rightarrow> (LocalStorage option) option" where
  "load_api_instance storage_config =
     (let m = js_members storage_config in
      if \<not> is_string (m ''type'') then Some None
      else if \<not> is_object (m ''config'') then Some None
      else if as_string (m ''type'') \<noteq> Some ''local'' then Some None
      else do {
        api \<leftarrow> LocalStorage_load_config (m ''config'');
        if \<not> ls_is_loaded api then Some None else Some (Some api)
      })"

definition init_api_instance :: "('g, 'q) app_env \<Rightarrow> ('g, 'q) volume \<Rightarrow> (bool \<times> ('g, 'q) volume) option" where
  "init_api_instance A v =
     (case js_members (vo_config v) ''storage'' of
        Some (JObject ms) \<Rightarrow> do {
          api \<leftarrow> load_api_instance (JObject ms);
          (case api of
             None \<Rightarrow> Some (False, v\<lparr>vo_api := None\<rparr>)
           | Some ls \<Rightarrow> Some (LocalStorage_init A ls \<noteq> 0, v\<lparr>vo_api := Some ls\<rparr>))
        }
      | _ \<Rightarrow> Some (False, v))"

section \<open>Enclave and keys\<close>

definition init_enclave :: "('g, 'q) app_env \<Rightarrow> ('g, 'q) volume \<Rightarrow> world \<Rightarrow> bool \<times> ('g, 'q) volume \<times> world" where
  "init_enclave A v w =
     (case as_string (js_members (vo_config v) ''enclave_path'') of
        None \<Rightarrow> (False, v, w)
      | Some p \<Rightarrow>
          let v = v\<lparr>vo_enclave_path := path_append (vo_base_dir v) p\<rparr> in
          case create_enclave A (vo_enclave_path v) of (ok, eid) \<Rightarrow>
          if \<not> ok then (False, v, w) else (True, v\<lparr>vo_eid := eid\<rparr>, enclave_boot w))"

definition load_key :: "('g, 'q) app_env \<Rightarrow> ('g, 'q) volume \<Rightarrow> bool \<times> ('g, 'q) volume" where
  "load_key A v =
     (case as_string (js_members (vo_config v) ''key_path'') of
        None \<Rightarrow> (False, v)
      | Some p \<Rightarrow>
          let v = v\<lparr>vo_key_path := path_append (vo_base_dir v) p\<rparr> in
          case pk_parse_keyfile A (vo_key_path v) of (r, ctx) \<Rightarrow>
          if r \<noteq> 0 then (False, v)
          else if \<not> pk_eckey ctx then (False, v)
          else if pk_copy A ''Q'' \<noteq> 0 \<or> pk_copy A ''grp'' \<noteq> 0 \<or> pk_copy A ''d'' \<noteq> 0 then (False, v)
          else (True, v\<lparr>vo_key := pk_pair ctx, vo_key_d := pk_d ctx\<rparr>))"

definition load_pubkey :: "('g, 'q) app_env \<Rightarrow> ('g, 'q) volume \<Rightarrow> bool \<times> ('g, 'q) volume" where
  "load_pubkey A v =
     (case as_string (js_members (vo_config v) ''public_key_path'') of
        None \<Rightarrow> (False, v)
      | Some p \<Rightarrow>
          let v = v\<lparr>vo_pubkey_path := path_append (vo_base_dir v) p\<rparr> in
          case pk_parse_public_keyfile A (vo_pubkey_path v) of (r, ctx) \<Rightarrow>
          if r \<noteq> 0 then (False, v)
          else if \<not> pk_eckey ctx then (False, v)
          else if pk_copy A ''Q'' \<noteq> 0 \<or> pk_copy A ''grp'' \<noteq> 0 then (False, v)
          else (True, v\<lparr>vo_pubkey := pk_pair ctx\<rparr>))"

section \<open>Mounting and creating\<close>

text \<open>The fields are checked, then the three steps run until one fails; an integer is cut to an \<open>int\<close>.\<close>

definition mount_volume :: "'c env \<Rightarrow> ('g, 'q) ecp \<Rightarrow> sgx_seal \<Rightarrow> ('g, 'q) app_env \<Rightarrow> ('g, 'q) volume \<Rightarrow> world \<Rightarrow>
    (bool \<times> ('g, 'q) volume \<times> world) option" where
  "mount_volume e E S A v w =
     (let m = js_members (vo_config v) in
      case (as_string (m ''superinfo''), as_int (m ''uid'')) of (Some si, Some uid) \<Rightarrow>
        (case uu_parse A si of (r, sp_uuid) \<Rightarrow>
         if r \<noteq> 0 then Some (False, v, w)
         else case as_string (m ''volume_key'') of
           None \<Rightarrow> Some (False, v, w)
         | Some encoded \<Rightarrow>
             (case b64_decode A encoded of
                None \<Rightarrow> Some (False, v, w)
              | Some sealed \<Rightarrow>
                  case load_key A v of (ok, v) \<Rightarrow>
                  if \<not> ok then Some (False, v, w)
                  else case init_enclave A v w of (ok, v, w) \<Rightarrow>
                  if \<not> ok then Some (False, v, w)
                  else do {
                    (ok, v) \<leftarrow> init_api_instance A v;
                    if \<not> ok then Some (False, v, w)
                    else if \<not> enter_ok A (clock w) then Some (False, v, tick w)
                    else do {
                      (err, w) \<leftarrow> ecall_mount_volume e E S (scast (word_of_int uid :: 32 word)) (vo_key v) sp_uuid
                        sealed (of_nat (length sealed)) (tick w);
                      Some (err = 0, v, w)
                    }
                  }))
      | _ \<Rightarrow> Some (False, v, w))"

text \<open>
  The bridge hands the enclave a zeroed buffer for the sealed key.  The configuration is changed only
  when the enclave has succeeded.
\<close>

definition create_volume :: "'c env \<Rightarrow> ('g, 'q) ecp \<Rightarrow> sgx_seal \<Rightarrow> ('g, 'q) app_env \<Rightarrow> ('g, 'q) volume \<Rightarrow> world \<Rightarrow>
    (bool \<times> ('g, 'q) volume \<times> world) option" where
  "create_volume e E S A v w =
     (case load_pubkey A v of (ok, v) \<Rightarrow>
      if \<not> ok then Some (False, v, w)
      else case init_enclave A v w of (ok, v, w) \<Rightarrow>
      if \<not> ok then Some (False, v, w)
      else do {
        (ok, v) \<leftarrow> init_api_instance A v;
        if \<not> ok then Some (False, v, w)
        else if \<not> enter_ok A (clock w) then Some (False, v, tick w)
        else let w = tick w; volkey_size = ecall_calc_volkey_size S in
        if \<not> enter_ok A (clock w) then Some (False, v, tick w)
        else do {
          (err, sp_uuid, sealed, w) \<leftarrow> ecall_create_volume e E S (vo_pubkey v)
            (replicate (unat volkey_size) 0) volkey_size (tick w);
          (case sp_uuid of
             Some sp_uuid \<Rightarrow> if err \<noteq> 0 then Some (False, v, w) else do {
               c \<leftarrow> js_set ''superinfo'' (JString (uu_unparse A sp_uuid)) (vo_config v);
               c \<leftarrow> js_set ''uid'' (JInt 1) c;
               c \<leftarrow> js_set ''volume_key'' (JString (b64_encode A sealed)) c;
               Some (True, v\<lparr>vo_config := c\<rparr>, w)
             }
           | None \<Rightarrow> Some (False, v, w))
        }
      })"

section \<open>The configuration file\<close>

definition load_config ::
    "('g, 'q) app_env \<Rightarrow> (string \<rightharpoonup> bytes) \<Rightarrow> string \<Rightarrow> ('g, 'q) volume \<Rightarrow> bool \<times> ('g, 'q) volume" where
  "load_config A texts config_file v =
     (case (if txt_open_r A config_file then texts config_file else None) of
        None \<Rightarrow> (False, v)
      | Some t \<Rightarrow>
          (case js_parse A t of
             None \<Rightarrow> (False, v)
           | Some c \<Rightarrow> (True, v\<lparr>vo_config := c, vo_base_dir := parent_path config_file, vo_is_loaded := True\<rparr>)))"

text \<open>The printer throws for strings that are not UTF-8, and nothing catches it.\<close>

definition dump_config ::
    "('g, 'q) app_env \<Rightarrow> (string \<rightharpoonup> bytes) \<Rightarrow> string \<Rightarrow> ('g, 'q) volume \<Rightarrow> (bool \<times> (string \<rightharpoonup> bytes)) option" where
  "dump_config A texts config_file v =
     (if \<not> txt_open_w A config_file then Some (False, texts)
      else do {
        t \<leftarrow> js_dump A (vo_config v);
        Some (True, texts(config_file \<mapsto> take (txt_written A (length t)) t))
      })"


section \<open>What the libraries document\<close>

text \<open>
  What is printed is parsed to a value with the same members.  What has been parsed can be printed, since
  the parser accepts UTF-8 only, and members with numbers and ASCII strings do not change this.  Encoded
  bytes and UUIDs are ASCII and decode to themselves.
\<close>

definition ascii :: "string \<Rightarrow> bool" where
  "ascii s \<longleftrightarrow> (\<forall>c\<in>set s. (of_char c :: nat) < 128)"

fun plain_value :: "json \<Rightarrow> bool" where
  "plain_value (JInt i) = True"
| "plain_value (JString s) = ascii s"
| "plain_value _ = False"

definition app_lawful :: "('g, 'q) app_env \<Rightarrow> bool" where
  "app_lawful A \<longleftrightarrow>
     (\<forall>ms t. distinct (map fst ms) \<and> js_dump A (JObject ms) = Some t \<longrightarrow>
        (\<exists>ms'. js_parse A t = Some (JObject ms') \<and> map_of ms' = map_of ms)) \<and>
     (\<forall>t j. js_parse A t = Some j \<longrightarrow> js_dump A j \<noteq> None) \<and>
     (\<forall>ms k v. js_dump A (JObject ms) \<noteq> None \<and> ascii k \<and> plain_value v \<longrightarrow>
        js_dump A (JObject (AList.update k v ms)) \<noteq> None) \<and>
     (\<forall>b. b64_decode A (b64_encode A b) = Some b \<and> ascii (b64_encode A b)) \<and>
     (\<forall>b. length b = 16 \<longrightarrow> uu_parse A (uu_unparse A b) = (0, b) \<and> ascii (uu_unparse A b))"

lemma app_lawfulD:
  assumes "app_lawful A"
  shows "distinct (map fst ms) \<Longrightarrow> js_dump A (JObject ms) = Some t \<Longrightarrow>
      \<exists>ms'. js_parse A t = Some (JObject ms') \<and> map_of ms' = map_of ms"
    and "js_parse A t = Some j \<Longrightarrow> \<exists>t'. js_dump A j = Some t'"
    and "js_dump A (JObject ms) \<noteq> None \<Longrightarrow> ascii k \<Longrightarrow> plain_value v \<Longrightarrow> js_dump A (JObject (AList.update k v ms)) \<noteq> None"
    and "b64_decode A (b64_encode A b) = Some b" "ascii (b64_encode A b)"
    and "length b = 16 \<Longrightarrow> uu_parse A (uu_unparse A b) = (0, b)" "length b = 16 \<Longrightarrow> ascii (uu_unparse A b)"
  using assms unfolding app_lawful_def by blast+

definition app_reliable :: "('g, 'q) app_env \<Rightarrow> bool" where
  "app_reliable A \<longleftrightarrow> (\<forall>t. enter_ok A t) \<and> (\<forall>n. txt_written A n = n) \<and> (\<forall>m. pk_copy A m = 0)"

lemma app_reliableD [simp]:
  assumes "app_reliable A"
  shows "enter_ok A t" "txt_written A n = n" "pk_copy A m = 0"
  using assms by (simp_all add: app_reliable_def)

text \<open>
  A configuration to create a volume with and to mount it: the enclave starts, the keys are those of
  the right curve and the backend is a directory.
\<close>

definition config_ready :: "('g, 'q) ecp \<Rightarrow> ('g, 'q) app_env \<Rightarrow> string \<Rightarrow> (string \<rightharpoonup> json) \<Rightarrow> bool" where
  "config_ready E A dir m \<longleftrightarrow>
     (\<exists>p eid. m ''enclave_path'' = Some (JString p) \<and> create_enclave A (path_append dir p) = (True, eid)) \<and>
     (\<exists>ss cs d. m ''storage'' = Some (JObject ss) \<and> map_of ss ''type'' = Some (JString ''local'') \<and>
       map_of ss ''config'' = Some (JObject cs) \<and> map_of cs ''base_dir'' = Some (JString d) \<and>
       fs_status A d = (False, FT_directory)) \<and>
     (\<exists>p ctx. m ''key_path'' = Some (JString p) \<and> pk_parse_keyfile A (path_append dir p) = (0, ctx) \<and> pk_eckey ctx) \<and>
     (\<exists>p ctx. m ''public_key_path'' = Some (JString p) \<and> pk_parse_public_keyfile A (path_append dir p) = (0, ctx) \<and>
       pk_eckey ctx \<and> ec_group_id E (kp_grp (pk_pair ctx)) = grp_id \<and>
       ec_check_pubkey E (ecp_group E) (kp_Q (pk_pair ctx)) = 0)"

lemma config_ready_cong:
  "(\<And>k. k \<in> {''enclave_path'', ''storage'', ''key_path'', ''public_key_path''} \<Longrightarrow> m' k = m k) \<Longrightarrow>
   config_ready E A dir m' = config_ready E A dir m"
  by (simp add: config_ready_def)

text \<open>The three steps of setting up do not touch the configuration.\<close>

lemma load_key_ready:
  assumes "config_ready E A (vo_base_dir v) (js_members (vo_config v))" and "app_reliable A"
  shows "\<exists>v'. load_key A v = (True, v') \<and> vo_config v' = vo_config v \<and> vo_base_dir v' = vo_base_dir v"
  using assms by (auto simp: config_ready_def load_key_def Let_def)

lemma load_pubkey_ready:
  assumes "config_ready E A (vo_base_dir v) (js_members (vo_config v))" and "app_reliable A"
  shows "\<exists>v'. load_pubkey A v = (True, v') \<and> vo_config v' = vo_config v \<and> vo_base_dir v' = vo_base_dir v \<and>
    ec_group_id E (kp_grp (vo_pubkey v')) = grp_id \<and> ec_check_pubkey E (ecp_group E) (kp_Q (vo_pubkey v')) = 0"
  using assms by (auto simp: config_ready_def load_pubkey_def Let_def)

lemma init_enclave_ready:
  assumes "config_ready E A (vo_base_dir v) (js_members (vo_config v))"
  shows "\<exists>v'. init_enclave A v w = (True, v', enclave_boot w) \<and> vo_config v' = vo_config v \<and>
    vo_base_dir v' = vo_base_dir v \<and> vo_pubkey v' = vo_pubkey v \<and> vo_key v' = vo_key v"
  using assms by (auto simp: config_ready_def init_enclave_def Let_def)

lemma init_api_ready:
  assumes "config_ready E A (vo_base_dir v) (js_members (vo_config v))"
  shows "\<exists>v'. init_api_instance A v = Some (True, v') \<and> vo_config v' = vo_config v \<and>
    vo_base_dir v' = vo_base_dir v \<and> vo_pubkey v' = vo_pubkey v \<and> vo_key v' = vo_key v"
  using assms by (auto simp: config_ready_def init_api_instance_def load_api_instance_def LocalStorage_load_config_def
      LocalStorage_init_def Let_def)

lemma enclave_boot_started [simp]: "enclave_started (enclave_boot w)"
  by (simp add: enclave_started_def enclave_boot_def kl_inv_def cs_items_def kl_values_def)

lemma enclave_boot_host [simp]: "files (enclave_boot w) = files w" "clock (enclave_boot w) = clock w" "rnd (enclave_boot w) = rnd w"
  by (simp_all add: enclave_boot_def)

lemma started_tick: "enclave_started w \<Longrightarrow> enclave_started (tick w)"
  by (simp add: enclave_started_def tick_def)

section \<open>Whoever the host is\<close>

text \<open>A mount that succeeds has found every field, started the enclave, and left it in order.\<close>

lemma mount_volume_success:
  assumes "mount_volume e E S A v w = Some (True, v', w')"
  shows "\<exists>si uid sp_uuid encoded sealed key. js_members (vo_config v) ''superinfo'' = Some (JString si) \<and>
    js_members (vo_config v) ''uid'' = Some (JInt uid) \<and> uu_parse A si = (0, sp_uuid) \<and>
    js_members (vo_config v) ''volume_key'' = Some (JString encoded) \<and> b64_decode A encoded = Some sealed \<and>
    fst (load_key A v) \<and>
    ecall_mount_volume e E S (scast (word_of_int uid :: 32 word)) key sp_uuid sealed (of_nat (length sealed))
      (tick (enclave_boot w)) = Some (0, w')"
proof -
  have str: "as_string x = Some s \<longleftrightarrow> x = Some (JString s)" for x s by (cases x rule: as_string.cases) auto
  have int: "as_int x = Some i \<longleftrightarrow> x = Some (JInt i)" for x i by (cases x rule: as_int.cases) auto
  have ini: "init_enclave A x y = (True, x', y') \<Longrightarrow> y' = enclave_boot y" for x y x' y'
    by (auto simp: init_enclave_def Let_def split: option.splits prod.splits if_splits)
  show ?thesis
    using assms by (auto simp: mount_volume_def Let_def str int split: option.splits prod.splits if_splits bind_splits
        dest!: ini)
qed


lemma mount_volume_enclave:
  assumes "mount_volume e E S A v w = Some (True, v', w')"
  shows "enclave_ok w'"
proof -
  from mount_volume_success [OF assms] obtain uid key sp sealed where
    "ecall_mount_volume e E S uid key sp sealed (of_nat (length sealed)) (tick (enclave_boot w)) = Some (0, w')"
    by blast
  then show ?thesis by (rule mount_enclave_ok [OF started_tick [OF enclave_boot_started]])
qed

section \<open>A created volume is mounted\<close>

text \<open>The volume that the configuration \<open>m\<close> describes lies in the store of \<open>w\<close>.\<close>

definition volume_ready ::
    "'c env \<Rightarrow> ('g, 'q) ecp \<Rightarrow> sgx_seal \<Rightarrow> ('g, 'q) app_env \<Rightarrow> (string \<rightharpoonup> json) \<Rightarrow> world \<Rightarrow> Superinfo \<Rightarrow> dirnode \<Rightarrow> bool" where
  "volume_ready e E S A m w si dn \<longleftrightarrow>
     (\<exists>ut blob aad uid. m ''superinfo'' = Some (JString (uu_unparse A (UUID_dump (md_uuid si)))) \<and>
        m ''uid'' = Some (JInt uid) \<and> m ''volume_key'' = Some (JString (b64_encode A blob)) \<and>
        volume_stored e E w si ut dn \<and> Usertable_storable E ut \<and> in_ino dn = 1 \<and>
        unat (ss_mac_len S blob) = length volkey_aad \<and> unat (ss_text_len S blob) = VOLKEYSIZE \<and>
        ss_unseal S blob = (True, aad, volkey w) \<and> VOLKEYSIZE \<le> unat (of_nat (length blob) :: size_t))"

lemma mount_volume_ready:
  assumes e: "env_lawful e" "host_reliable e" and A: "app_lawful A" "app_reliable A"
    and c: "config_ready E A (vo_base_dir v) (js_members (vo_config v))"
    and vol: "volume_ready e E S A (js_members (vo_config v)) w si dn" and f: "files w2 = files w"
  shows "\<exists>v' w3. mount_volume e E S A v w2 = Some (True, v', w3) \<and>
    view w3 = [1 \<mapsto> DirNode (entries (dn_dirent dn))] \<and> superinfo w3 = Some si \<and> volkey w3 = volkey w"
proof -
  from vol obtain ut blob aad uid where m: "js_members (vo_config v) ''superinfo'' = Some (JString (uu_unparse A (UUID_dump (md_uuid si))))"
      "js_members (vo_config v) ''uid'' = Some (JInt uid)" "js_members (vo_config v) ''volume_key'' = Some (JString (b64_encode A blob))"
    and st: "volume_stored e E w si ut dn" "Usertable_storable E ut" "in_ino dn = 1"
    and S: "unat (ss_mac_len S blob) = length volkey_aad" "unat (ss_text_len S blob) = VOLKEYSIZE"
      "ss_unseal S blob = (True, aad, volkey w)" "VOLKEYSIZE \<le> unat (of_nat (length blob) :: size_t)"
    unfolding volume_ready_def by blast
  from load_key_ready [OF c A(2)] obtain v1 where
    v1: "load_key A v = (True, v1)" "vo_config v1 = vo_config v" "vo_base_dir v1 = vo_base_dir v" by blast
  with c have c1: "config_ready E A (vo_base_dir v1) (js_members (vo_config v1))" by simp
  from init_enclave_ready [OF c1] obtain v2 where
    v2: "init_enclave A v1 w2 = (True, v2, enclave_boot w2)" "vo_config v2 = vo_config v1" "vo_base_dir v2 = vo_base_dir v1"
    by blast
  with c1 have c2: "config_ready E A (vo_base_dir v2) (js_members (vo_config v2))" by simp
  from init_api_ready [OF c2] obtain v3 where v3: "init_api_instance A v2 = Some (True, v3)" by blast
  let ?w = "tick (enclave_boot w2)"
  have start: "enclave_started ?w" by (rule started_tick) simp
  have fw: "files ?w = files w" "length (volkey ?w) = VOLKEYSIZE"
    using f by (simp_all add: tick_def enclave_boot_def)
  from mount_stored [OF e st(1,3,2) S fw, of "scast (word_of_int uid :: 32 word)" "vo_key v3"] obtain w3 where
    w3: "ecall_mount_volume e E S (scast (word_of_int uid :: 32 word)) (vo_key v3) (UUID_dump (md_uuid si)) blob
        (of_nat (length blob)) ?w = Some (0, bind_inode 1 (DirObj dn) w3)"
      "host.more w3 = host.more (?w\<lparr>volkey := volkey w, superinfo := Some si\<rparr>)" by blast
  have "uu_parse A (uu_unparse A (UUID_dump (md_uuid si))) = (0, UUID_dump (md_uuid si))"
    and "b64_decode A (b64_encode A blob) = Some blob" using A(1) by (simp_all add: app_lawful_def)
  then have "mount_volume e E S A v w2 = Some (True, v3, bind_inode 1 (DirObj dn) w3)"
    using m v1(1) v2(1) v3 w3(1) A(2) by (simp add: mount_volume_def Let_def)
  with mounted_view [OF start w3(2)] show ?thesis by blast
qed

lemma create_volume_ready:
  assumes e: "env_lawful e" "host_reliable e" and A: "app_lawful A" "app_reliable A"
    and E: "ecp_lawful E" and S: "seal_lawful S"
    and c: "config_ready E A (vo_base_dir v) (js_members (vo_config v))"
    and cfg: "vo_config v = JObject ms" "distinct (map fst ms)" "js_dump A (JObject ms) \<noteq> None"
    and d: "distinct [rand_uuid e (rnd w), rand_uuid e (rnd w + 1), rand_uuid e (rnd w + 2)]"
  shows "\<exists>v' ms' t w1 si dn. create_volume e E S A v w = Some (True, v', w1) \<and> vo_config v' = JObject ms' \<and>
    distinct (map fst ms') \<and> js_dump A (JObject ms') = Some t \<and> config_ready E A (vo_base_dir v) (map_of ms') \<and>
    volume_ready e E S A (map_of ms') w1 si dn \<and> si_max_ino si = 2 \<and> dn_dirent dn = []"
proof -
  from load_pubkey_ready [OF c A(2)] obtain v1 where
    v1: "load_pubkey A v = (True, v1)" "vo_config v1 = vo_config v" "vo_base_dir v1 = vo_base_dir v"
      "ec_group_id E (kp_grp (vo_pubkey v1)) = grp_id" "ec_check_pubkey E (ecp_group E) (kp_Q (vo_pubkey v1)) = 0" by blast
  with c have c1: "config_ready E A (vo_base_dir v1) (js_members (vo_config v1))" by simp
  from init_enclave_ready [OF c1] obtain v2 where
    v2: "init_enclave A v1 w = (True, v2, enclave_boot w)" "vo_config v2 = vo_config v1" "vo_base_dir v2 = vo_base_dir v1"
      "vo_pubkey v2 = vo_pubkey v1" by blast
  with c1 have c2: "config_ready E A (vo_base_dir v2) (js_members (vo_config v2))" by simp
  from init_api_ready [OF c2] obtain v3 where v3: "init_api_instance A v2 = Some (True, v3)"
    "vo_config v3 = vo_config v2" "vo_pubkey v3 = vo_pubkey v2" by blast
  let ?w = "tick (tick (enclave_boot w))" and ?vs = "ecall_calc_volkey_size S"
  have k: "ec_group_id E (kp_grp (vo_pubkey v3)) = grp_id" "ec_check_pubkey E (ecp_group E) (kp_Q (vo_pubkey v3)) = 0"
    using v1 v2 v3 by simp_all
  have r: "rnd ?w = rnd w" by (simp add: tick_def)
  from ecall_create_volume_ok [OF e E S k, of ?w "replicate (unat ?vs) 0"] d r obtain blob w1 si ut dn where
    cr: "ecall_create_volume e E S (vo_pubkey v3) (replicate (unat ?vs) 0) ?vs ?w =
        Some (0, Some (UUID_dump (rand_uuid e (rnd w))), blob, w1)"
    and mid: "md_uuid si = rand_uuid e (rnd w)" and st: "volume_stored e E w1 si ut dn" "Usertable_storable E ut" "si_max_ino si = 2" "in_ino dn = 1" "dn_dirent dn = []"
    and b: "length blob = unat ?vs" "VOLKEYSIZE \<le> unat ?vs" "unat (ss_mac_len S blob) = length volkey_aad"
      "unat (ss_text_len S blob) = VOLKEYSIZE" "ss_unseal S blob = (True, volkey_aad, volkey w1)" by auto
  define ms' where "ms' = AList.update ''volume_key'' (JString (b64_encode A blob)) (AList.update ''uid'' (JInt 1)
    (AList.update ''superinfo'' (JString (uu_unparse A (UUID_dump (md_uuid si)))) ms))"
  have mo: "map_of ms' = (map_of ms)(''superinfo'' \<mapsto> JString (uu_unparse A (UUID_dump (md_uuid si))),
      ''uid'' \<mapsto> JInt 1, ''volume_key'' \<mapsto> JString (b64_encode A blob))"
    by (simp add: ms'_def update_conv')
  have "js_dump A (JObject ms') \<noteq> None"
    unfolding ms'_def by (intro app_lawfulD(3) [OF A(1)] cfg(3)) (simp_all add: app_lawfulD(5,7) [OF A(1)], simp_all add: ascii_def)
  then obtain t where t: "js_dump A (JObject ms') = Some t" by blast
  have "create_volume e E S A v w = Some (True, v3\<lparr>vo_config := JObject ms'\<rparr>, w1)"
    using v1(1) v2(1) v3(1) cr [folded mid] A(2) cfg(1) v1(2) v2(2) v3(2) by (simp add: create_volume_def Let_def ms'_def)
  moreover have "distinct (map fst ms')" unfolding ms'_def by (intro distinct_update cfg(2))
  moreover have "config_ready E A (vo_base_dir v) (map_of ms')"
    using c unfolding cfg(1) js_members.simps mo by (subst config_ready_cong) (auto simp: cfg(1))
  moreover have "volume_ready e E S A (map_of ms') w1 si dn"
    unfolding volume_ready_def mo using st b by (intro exI [of _ ut] exI [of _ blob] exI [of _ volkey_aad] exI [of _ 1]) simp
  ultimately show ?thesis using st(3,5) t by (intro exI conjI) (assumption | simp)+
qed

text \<open>Through the configuration file, into another process.\<close>

lemma created_volume_mounts:
  assumes e: "env_lawful e" "host_reliable e" and A: "app_lawful A" "app_reliable A"
    and E: "ecp_lawful E" and S: "seal_lawful S"
    and c: "config_ready E A (vo_base_dir v) (js_members (vo_config v))"
    and cfg: "vo_config v = JObject ms" "distinct (map fst ms)" "js_dump A (JObject ms) \<noteq> None"
    and d: "distinct [rand_uuid e (rnd w), rand_uuid e (rnd w + 1), rand_uuid e (rnd w + 2)]"
    and cf: "txt_open_w A path" "txt_open_r A path" "parent_path path = vo_base_dir v"
  shows "\<exists>v1 w1 texts1 v2 v3 w2 si. create_volume e E S A v w = Some (True, v1, w1) \<and>
    dump_config A texts path v1 = Some (True, texts1) \<and> load_config A texts1 path (Volume_ctor E) = (True, v2) \<and>
    mount_volume e E S A v2 w1 = Some (True, v3, w2) \<and>
    view w2 = [1 \<mapsto> DirNode Map.empty] \<and> superinfo w2 = Some si \<and> si_max_ino si = 2 \<and> volkey w2 = volkey w1"
proof -
  from create_volume_ready [OF e A E S c cfg d] obtain v1 ms1 t1 w1 si dn where
    v1: "create_volume e E S A v w = Some (True, v1, w1)" "vo_config v1 = JObject ms1" "distinct (map fst ms1)"
      "config_ready E A (vo_base_dir v) (map_of ms1)" "volume_ready e E S A (map_of ms1) w1 si dn"
      "si_max_ino si = 2" "dn_dirent dn = []" and t1: "js_dump A (JObject ms1) = Some t1" by blast
  from app_lawfulD(1) [OF A(1) v1(3) t1] obtain ms2 where
    ms2: "js_parse A t1 = Some (JObject ms2)" "map_of ms2 = map_of ms1" by blast
  let ?t = "texts(path \<mapsto> t1)"
  have dmp: "dump_config A texts path v1 = Some (True, ?t)" using cf(1) A(2) v1(2) t1 by (simp add: dump_config_def)
  define v2 where "v2 = (Volume_ctor E)\<lparr>vo_config := JObject ms2, vo_base_dir := parent_path path, vo_is_loaded := True\<rparr>"
  have ld: "load_config A ?t path (Volume_ctor E) = (True, v2)" using cf(2) ms2(1) by (simp add: load_config_def v2_def)
  have f2: "vo_config v2 = JObject ms2" "vo_base_dir v2 = vo_base_dir v" using cf(3) by (simp_all add: v2_def)
  have c2: "config_ready E A (vo_base_dir v2) (js_members (vo_config v2))" and
    r2: "volume_ready e E S A (js_members (vo_config v2)) w1 si dn" using v1(4,5) by (simp_all add: f2 ms2(2))
  from mount_volume_ready [OF e A c2 r2 refl] v1(7) obtain v3 w2 where
    "mount_volume e E S A v2 w1 = Some (True, v3, w2)" "view w2 = [1 \<mapsto> DirNode Map.empty]" "superinfo w2 = Some si"
    "volkey w2 = volkey w1" by (auto simp: entries_def)
  with v1(1,6) dmp ld show ?thesis by blast
qed

end
