(* ===== verification/App_Main.thy ===== *)
theory App_Main
  imports App_Volume Fuse_Replies
begin

text \<open>
  The two programs: the file system daemon (\<^verbatim>\<open>app/main.cpp\<close> with the class \<open>FuseSession\<close> of
  \<^verbatim>\<open>app/fuse_utils.cpp\<close>) and the tool that creates volumes (\<^verbatim>\<open>app/cli.cpp\<close>).

  The functions of libfuse are the parameters in \<open>fuse_lib\<close>, with their status, and so are the requests the
  session loop hands to the handlers; their calls are recorded in the session.  \<open>getopt_long\<close> is a
  parameter that gives the options it returns.  Requests are served one after the other.
\<close>

section \<open>The session\<close>

record cmdline_opts =
  fo_singlethread :: bool
  fo_foreground :: bool
  fo_debug :: int
  fo_mountpoint :: "string option"
  fo_show_version :: bool
  fo_show_help :: bool
  fo_clone_fd :: bool
  fo_max_idle_threads :: nat

datatype fuse_call = Session_new bool | Set_signal_handlers int | Session_mount "string option" int | Daemonize bool int
  | Session_loop int | Session_loop_mt bool nat int | Session_unmount | Remove_signal_handlers | Session_destroy

record secfs_options =
  op_volume_config :: "string option"
  op_writeback :: int

record fuse_lib =
  fl_parse_cmdline :: "string list \<Rightarrow> int \<times> cmdline_opts"
  fl_opt_parse :: "string list \<Rightarrow> secfs_options \<Rightarrow> int \<times> secfs_options"
  fl_session_new :: bool
  fl_set_signal_handlers :: int
  fl_session_mount :: int
  fl_daemonize :: int
  fl_session_loop :: int
  fl_requests :: "(request \<times> file_info) list"

record FuseSession =
  fs_args :: "string list"
  fs_opts :: cmdline_opts
  fs_se :: bool
  fs_signaled :: bool
  fs_mounted :: bool
  fs_calls :: "fuse_call list"

text \<open>The member \<open>opts\<close> is set by the first call.\<close>

definition FuseSession_ctor :: "string list \<Rightarrow> cmdline_opts \<Rightarrow> FuseSession" where
  "FuseSession_ctor argv junk = \<lparr>fs_args = argv, fs_opts = junk, fs_se = False, fs_signaled = False,
     fs_mounted = False, fs_calls = []\<rparr>"

definition called :: "fuse_call \<Rightarrow> FuseSession \<Rightarrow> FuseSession" where
  "called c s = s\<lparr>fs_calls := fs_calls s @ [c]\<rparr>"

definition FuseSession_parse_cmdline :: "fuse_lib \<Rightarrow> FuseSession \<Rightarrow> int \<times> FuseSession" where
  "FuseSession_parse_cmdline L s = (case fl_parse_cmdline L (fs_args s) of (r, opts) \<Rightarrow> (r, s\<lparr>fs_opts := opts\<rparr>))"

definition FuseSession_opt_parse :: "fuse_lib \<Rightarrow> secfs_options \<Rightarrow> FuseSession \<Rightarrow> int \<times> secfs_options" where
  "FuseSession_opt_parse L data s = fl_opt_parse L (fs_args s) data"

definition FuseSession_session_new :: "fuse_lib \<Rightarrow> FuseSession \<Rightarrow> bool \<times> FuseSession" where
  "FuseSession_session_new L s =
     (let se = fl_session_new L in (se, called (Session_new se) (s\<lparr>fs_se := se\<rparr>)))"

definition FuseSession_set_signal_handlers :: "fuse_lib \<Rightarrow> FuseSession \<Rightarrow> int \<times> FuseSession" where
  "FuseSession_set_signal_handlers L s =
     (let ret = fl_set_signal_handlers L; s = called (Set_signal_handlers ret) s
      in (ret, if ret = 0 then s\<lparr>fs_signaled := True\<rparr> else s))"

definition FuseSession_mount :: "fuse_lib \<Rightarrow> FuseSession \<Rightarrow> int \<times> FuseSession" where
  "FuseSession_mount L s =
     (let ret = fl_session_mount L; s = called (Session_mount (fo_mountpoint (fs_opts s)) ret) s
      in (ret, if ret = 0 then s\<lparr>fs_mounted := True\<rparr> else s))"

definition FuseSession_daemonize :: "fuse_lib \<Rightarrow> FuseSession \<Rightarrow> int \<times> FuseSession" where
  "FuseSession_daemonize L s =
     (let ret = fl_daemonize L in (ret, called (Daemonize (fo_foreground (fs_opts s)) ret) s))"

text \<open>The loop serves the requests of the kernel until the session ends.\<close>

fun serve :: "'c env \<Rightarrow> fuse_env \<Rightarrow> (request \<times> file_info) list \<Rightarrow> world \<Rightarrow> (reply list list \<times> world) option" where
  "serve e F [] w = Some ([], w)"
| "serve e F ((rq, fi) # rqs) w = do {
     (r, fi, w) \<leftarrow> secfs_oper e F rq fi w;
     (rs, w) \<leftarrow> serve e F rqs w;
     Some (r # rs, w)
   }"

definition FuseSession_enter_loop ::
    "'c env \<Rightarrow> fuse_env \<Rightarrow> fuse_lib \<Rightarrow> FuseSession \<Rightarrow> world \<Rightarrow> (int \<times> FuseSession \<times> reply list list \<times> world) option" where
  "FuseSession_enter_loop e F L s w = do {
     (rs, w) \<leftarrow> serve e F (fl_requests L) w;
     (let ret = fl_session_loop L; opts = fs_opts s;
        s = called (if fo_singlethread opts then Session_loop ret
          else Session_loop_mt (fo_clone_fd opts) (fo_max_idle_threads opts) ret) s
      in Some (ret, s, rs, w))
   }"

definition FuseSession_dtor :: "FuseSession \<Rightarrow> FuseSession" where
  "FuseSession_dtor s =
     (let s = if fs_mounted s then called Session_unmount s else s;
          s = if fs_signaled s then called Remove_signal_handlers s else s
      in if fs_se s then called Session_destroy s else s)"

section \<open>The daemon\<close>

text \<open>
  The results are the exit status, the session after its destructor, the replies sent and the world.
\<close>

definition secfs_main :: "'c env \<Rightarrow> ('g, 'q) ecp \<Rightarrow> sgx_seal \<Rightarrow> ('g, 'q) app_env \<Rightarrow> fuse_env \<Rightarrow> fuse_lib \<Rightarrow>
    (string \<rightharpoonup> bytes) \<Rightarrow> string list \<Rightarrow> cmdline_opts \<Rightarrow> world \<Rightarrow>
    (int \<times> FuseSession \<times> reply list list \<times> world) option" where
  "secfs_main e E S A F L texts argv junk w =
     (let options = \<lparr>op_volume_config = None, op_writeback = 0\<rparr>;
          exit = (\<lambda>code s rs w. Some (code, FuseSession_dtor s, rs, w)) in
      case FuseSession_parse_cmdline L (FuseSession_ctor argv junk) of (r, s) \<Rightarrow>
      if r \<noteq> 0 then exit 1 s [] w
      else if fo_show_help (fs_opts s) then exit 0 s [] w
      else if fo_show_version (fs_opts s) then exit 0 s [] w
      else if fo_mountpoint (fs_opts s) = None then exit 1 s [] w
      else case FuseSession_opt_parse L options s of (r, options) \<Rightarrow>
      if r \<noteq> 0 then exit 1 s [] w
      else case op_volume_config options of
        None \<Rightarrow> exit 1 s [] w
      | Some volume_config \<Rightarrow>
          (case load_config A texts volume_config (Volume_ctor E) of (ok, v) \<Rightarrow>
           if \<not> ok then exit 1 s [] w
           else let v = v\<lparr>vo_debug := fo_debug (fs_opts s), vo_writeback := op_writeback options\<rparr> in do {
             (ok, v, w) \<leftarrow> mount_volume e E S A v w;
             if \<not> ok then exit 1 s [] w
             else case FuseSession_session_new L s of (se, s) \<Rightarrow>
             if \<not> se then exit 1 s [] w
             else case FuseSession_set_signal_handlers L s of (r, s) \<Rightarrow>
             if r \<noteq> 0 then exit 1 s [] w
             else case FuseSession_mount L s of (r, s) \<Rightarrow>
             if r \<noteq> 0 then exit 1 s [] w
             else case FuseSession_daemonize L s of (r, s) \<Rightarrow>
             if r \<noteq> 0 then exit 1 s [] w
             else do {
               (r, s, rs, w) \<leftarrow> FuseSession_enter_loop e F L s w;
               if r \<noteq> 0 then exit 1 s rs w else exit 0 s rs w
             }
           }))"

section \<open>The command line tool\<close>

text \<open>The last option of each letter counts.\<close>

fun cli_options :: "(char \<times> string) list \<Rightarrow> string option \<times> string option \<Rightarrow> string option \<times> string option" where
  "cli_options [] (volume_config, new_volume_config) = (volume_config, new_volume_config)"
| "cli_options ((opt, optarg) # opts) (volume_config, new_volume_config) =
     cli_options opts
       (if opt = CHR ''c'' then (Some optarg, new_volume_config)
        else if opt = CHR ''n'' then (volume_config, Some optarg)
        else (volume_config, new_volume_config))"

definition cmd_create_volume :: "'c env \<Rightarrow> ('g, 'q) ecp \<Rightarrow> sgx_seal \<Rightarrow> ('g, 'q) app_env \<Rightarrow>
    (string list \<Rightarrow> (char \<times> string) list) \<Rightarrow> (string \<rightharpoonup> bytes) \<Rightarrow> string list \<Rightarrow> world \<Rightarrow>
    (int \<times> (string \<rightharpoonup> bytes) \<times> world) option" where
  "cmd_create_volume e E S A getopt texts argv w =
     (case cli_options (getopt argv) (None, None) of
        (None, _) \<Rightarrow> Some (1, texts, w)
      | (Some volume_config, new_config) \<Rightarrow>
          let new_volume_config = (case new_config of None \<Rightarrow> volume_config | Some n \<Rightarrow> n) in
          (case load_config A texts volume_config (Volume_ctor E) of (ok, v) \<Rightarrow>
           if \<not> ok then Some (1, texts, w)
           else do {
             (ok, v, w) \<leftarrow> create_volume e E S A v w;
             if \<not> ok then Some (1, texts, w)
             else do {
               (ok, texts) \<leftarrow> dump_config A texts new_volume_config v;
               Some (if \<not> ok then 1 else 0, texts, w)
             }
           }))"

text \<open>
  The arguments in memory: each is an array of characters that ends with a zero, and the pointer after
  the last one is null.  \<open>argv_at argv i\<close> is what \<open>argv[i]\<close> points to, or \<^term>\<open>None\<close> for the null pointer.
\<close>

definition argv_at :: "string list \<Rightarrow> nat \<Rightarrow> string option option" where
  "argv_at argv i =
     (if i < length argv then Some (Some (argv ! i @ [CHR 0x00])) else if i = length argv then Some None else None)"

text \<open>The characters up to the zero.\<close>

definition c_str :: "string \<Rightarrow> string" where
  "c_str cells = takeWhile (\<lambda>c. c \<noteq> CHR 0x00) cells"

text \<open>
  \<open>std::strcpy\<close> copies the characters of the source and the zero to the array its first argument points
  to and returns that pointer.  A null pointer and an array that is too short are undefined.
\<close>

definition std_strcpy :: "string option \<Rightarrow> string \<Rightarrow> string option option" where
  "std_strcpy dst src =
     (case dst of
        None \<Rightarrow> None
      | Some cells \<Rightarrow>
          let n = Suc (length src)
          in if length cells < n then None else Some (Some (src @ [CHR 0x00] @ drop n cells)))"

text \<open>The condition of \<open>main\<close> is the pointer \<open>strcpy\<close> returns.\<close>

definition cli_main :: "'c env \<Rightarrow> ('g, 'q) ecp \<Rightarrow> sgx_seal \<Rightarrow> ('g, 'q) app_env \<Rightarrow>
    (string list \<Rightarrow> (char \<times> string) list) \<Rightarrow> (string \<rightharpoonup> bytes) \<Rightarrow> string list \<Rightarrow> world \<Rightarrow>
    (int \<times> (string \<rightharpoonup> bytes) \<times> world) option" where
  "cli_main e E S A getopt texts argv w = do {
     arg \<leftarrow> argv_at argv 1;
     ret \<leftarrow> std_strcpy arg ''create'';
     (case ret of
        Some cells \<Rightarrow> cmd_create_volume e E S A getopt texts (c_str cells # drop 2 argv) w
      | None \<Rightarrow> Some (0, texts, w))
   }"

lemma cli_main_copies:
  "6 \<le> length cmd \<Longrightarrow>
   cli_main e E S A getopt texts (prog # cmd # args) w = cmd_create_volume e E S A getopt texts (''create'' # args) w"
  by (simp add: cli_main_def argv_at_def std_strcpy_def c_str_def Let_def numeral_2_eq_2)

section \<open>What a session leaves behind\<close>

text \<open>The calls made so far agree with the flags, and nothing has been released.\<close>

definition session_inv :: "FuseSession \<Rightarrow> bool" where
  "session_inv s \<longleftrightarrow> (fs_se s \<longleftrightarrow> Session_new True \<in> set (fs_calls s)) \<and>
     (fs_signaled s \<longleftrightarrow> Set_signal_handlers 0 \<in> set (fs_calls s)) \<and>
     (fs_mounted s \<longleftrightarrow> (\<exists>p. Session_mount p 0 \<in> set (fs_calls s))) \<and>
     set (fs_calls s) \<inter> {Session_unmount, Remove_signal_handlers, Session_destroy} = {}"

definition released :: "fuse_call list \<Rightarrow> bool" where
  "released cs \<longleftrightarrow>
     (\<exists>pre. cs = pre @
       (if \<exists>p. Session_mount p 0 \<in> set pre then [Session_unmount] else []) @
       (if Set_signal_handlers 0 \<in> set pre then [Remove_signal_handlers] else []) @
       (if Session_new True \<in> set pre then [Session_destroy] else []) \<and>
       set pre \<inter> {Session_unmount, Remove_signal_handlers, Session_destroy} = {})"

lemma dtor_released: "session_inv s \<Longrightarrow> released (fs_calls (FuseSession_dtor s))"
  by (auto simp: session_inv_def released_def FuseSession_dtor_def called_def Let_def intro!: exI [of _ "fs_calls s"])

lemma session_inv_ctor: "session_inv (FuseSession_ctor argv junk)"
  by (simp add: session_inv_def FuseSession_ctor_def)

definition acquired :: "fuse_call \<Rightarrow> FuseSession \<Rightarrow> FuseSession" where
  "acquired c s = called c (s\<lparr>fs_se := fs_se s \<or> c = Session_new True,
     fs_signaled := fs_signaled s \<or> c = Set_signal_handlers 0, fs_mounted := fs_mounted s \<or> (\<exists>p. c = Session_mount p 0)\<rparr>)"

lemma session_inv_acquired:
  assumes "session_inv s" and "c \<notin> {Session_unmount, Remove_signal_handlers, Session_destroy}"
  shows "session_inv (acquired c s)"
proof -
  have cs: "set (fs_calls (acquired c s)) = insert c (set (fs_calls s))" by (simp add: acquired_def called_def)
  have fl: "fs_se (acquired c s) = (fs_se s \<or> c = Session_new True)"
    "fs_signaled (acquired c s) = (fs_signaled s \<or> c = Set_signal_handlers 0)"
    "fs_mounted (acquired c s) = (fs_mounted s \<or> (\<exists>p. c = Session_mount p 0))" by (simp_all add: acquired_def called_def)
  show ?thesis
    using assms unfolding session_inv_def cs fl Int_insert_left by (cases c) auto
qed

lemma session_steps:
  "FuseSession_session_new L s = (b, s') \<Longrightarrow> \<not> fs_se s \<Longrightarrow> s' = acquired (Session_new b) s"
  "FuseSession_set_signal_handlers L s = (r, s') \<Longrightarrow> s' = acquired (Set_signal_handlers r) s"
  "FuseSession_mount L s = (r, s') \<Longrightarrow> s' = acquired (Session_mount (fo_mountpoint (fs_opts s)) r) s"
  "FuseSession_daemonize L s = (r, s') \<Longrightarrow> s' = acquired (Daemonize (fo_foreground (fs_opts s)) r) s"
  by (cases s; auto simp: FuseSession_session_new_def FuseSession_set_signal_handlers_def FuseSession_mount_def
      FuseSession_daemonize_def acquired_def called_def Let_def)+

lemma loop_step:
  assumes "FuseSession_enter_loop e F L s w = Some (r, s', rs, w')"
  shows "\<exists>c. s' = acquired c s \<and> c \<notin> {Session_unmount, Remove_signal_handlers, Session_destroy} \<and>
    serve e F (fl_requests L) w = Some (rs, w')"
proof -
  let ?c = "if fo_singlethread (fs_opts s) then Session_loop r
    else Session_loop_mt (fo_clone_fd (fs_opts s)) (fo_max_idle_threads (fs_opts s)) r"
  from assms have "s' = called ?c s" "serve e F (fl_requests L) w = Some (rs, w')"
    by (auto simp: FuseSession_enter_loop_def Let_def split: bind_splits)
  moreover have "called ?c s = acquired ?c s" by (cases s) (simp add: acquired_def called_def)
  ultimately show ?thesis by (intro exI [of _ ?c]) auto
qed

lemma session_inv_steps:
  assumes "session_inv s"
  shows "FuseSession_session_new L s = (b, s') \<Longrightarrow> \<not> fs_se s \<Longrightarrow> session_inv s'"
    and "FuseSession_set_signal_handlers L s = (r, s') \<Longrightarrow> session_inv s'"
    and "FuseSession_mount L s = (r, s') \<Longrightarrow> session_inv s'"
    and "FuseSession_daemonize L s = (r, s') \<Longrightarrow> session_inv s'"
    and "FuseSession_enter_loop e F L s w = Some (r, s', rs, w') \<Longrightarrow> session_inv s'"
  using session_inv_acquired [OF assms] by (auto dest!: session_steps loop_step)

lemma session_new_inv:
  assumes "FuseSession_parse_cmdline L (FuseSession_ctor argv junk) = (r, s)"
  shows "session_inv s" "\<not> fs_se s" "Session_new True \<notin> set (fs_calls s)"
  using assms by (auto simp: FuseSession_parse_cmdline_def FuseSession_ctor_def session_inv_def split: prod.splits)

lemma dtor_new: "Session_new b \<in> set (fs_calls (FuseSession_dtor s)) \<longleftrightarrow> Session_new b \<in> set (fs_calls s)"
  by (auto simp: FuseSession_dtor_def called_def Let_def)

lemma serve_enclave: "serve e F rqs w = Some (rs, w') \<Longrightarrow> enclave_ok w \<Longrightarrow> enclave_ok w'"
proof (induction rqs arbitrary: w rs)
  case (Cons x rqs)
  obtain rq fi where x: "x = (rq, fi)" by (rule prod.exhaust)
  with Cons.prems(1) obtain r fi' w1 rs' where o: "secfs_oper e F rq fi w = Some (r, fi', w1)"
    and t: "serve e F rqs w1 = Some (rs', w')" by (auto split: bind_splits)
  show ?case by (rule Cons.IH [OF t secfs_oper_enclave [OF Cons.prems(2) o]])
qed simp

lemma enter_loop_enclave:
  "enclave_ok w \<Longrightarrow> FuseSession_enter_loop e F L s w = Some (r, s', rs, w') \<Longrightarrow> enclave_ok w'"
  by (blast dest: loop_step serve_enclave)

text \<open>After the volume is mounted, whatever happens: the session keeps its invariant and the enclave its own.\<close>

lemma secfs_main_end:
  assumes run: "secfs_main e E S A F L texts argv junk w = Some (code, s, rs, w')"
  shows "\<exists>s1. s = FuseSession_dtor s1 \<and> session_inv s1 \<and> (fs_se s1 \<longrightarrow> enclave_ok w')"
proof -
  obtain r s0 where p: "FuseSession_parse_cmdline L (FuseSession_ctor argv junk) = (r, s0)" by (rule prod.exhaust)
  note i0 = session_new_inv [OF p]
  obtain r1 opts where op: "FuseSession_opt_parse L \<lparr>op_volume_config = None, op_writeback = 0\<rparr> s0 = (r1, opts)"
    by (rule prod.exhaust)
  show ?thesis
  proof (cases "\<exists>cfg v v1 w1. load_config A texts cfg (Volume_ctor E) = (True, v) \<and> op_volume_config opts = Some cfg \<and>
      mount_volume e E S A (v\<lparr>vo_debug := fo_debug (fs_opts s0), vo_writeback := op_writeback opts\<rparr>) w = Some (True, v1, w1) \<and>
      r = 0 \<and> \<not> fo_show_help (fs_opts s0) \<and> \<not> fo_show_version (fs_opts s0) \<and> fo_mountpoint (fs_opts s0) \<noteq> None \<and> r1 = 0")
    case False
    with run p op have "s = FuseSession_dtor s0"
      by (auto simp: secfs_main_def Let_def split: if_splits option.splits prod.splits bind_splits)
    with i0 show ?thesis by blast
  next
    case True
    then obtain cfg v v1 w1 where ld: "load_config A texts cfg (Volume_ctor E) = (True, v)" "op_volume_config opts = Some cfg"
      and m: "mount_volume e E S A (v\<lparr>vo_debug := fo_debug (fs_opts s0), vo_writeback := op_writeback opts\<rparr>) w = Some (True, v1, w1)"
      and c: "r = 0" "\<not> fo_show_help (fs_opts s0)" "\<not> fo_show_version (fs_opts s0)" "fo_mountpoint (fs_opts s0) \<noteq> None" "r1 = 0"
      by blast
    have ok: "enclave_ok w1" by (rule mount_volume_enclave [OF m])
    obtain b s2 where n: "FuseSession_session_new L s0 = (b, s2)" by (rule prod.exhaust)
    obtain r3 s3 where g: "FuseSession_set_signal_handlers L s2 = (r3, s3)" by (rule prod.exhaust)
    obtain r4 s4 where mt: "FuseSession_mount L s3 = (r4, s4)" by (rule prod.exhaust)
    obtain r5 s5 where d: "FuseSession_daemonize L s4 = (r5, s5)" by (rule prod.exhaust)
    from session_inv_steps(1) [OF i0(1) n i0(2)] have i2: "session_inv s2" .
    from session_inv_steps(2) [OF i2 g] have i3: "session_inv s3" .
    from session_inv_steps(3) [OF i3 mt] have i4: "session_inv s4" .
    from session_inv_steps(4) [OF i4 d] have i5: "session_inv s5" .
    from run p op ld m c n g mt d have "(s = FuseSession_dtor s2 \<or> s = FuseSession_dtor s3 \<or> s = FuseSession_dtor s4 \<or>
        s = FuseSession_dtor s5) \<and> w' = w1 \<or>
        (\<exists>r6 s6. FuseSession_enter_loop e F L s5 w1 = Some (r6, s6, rs, w') \<and> s = FuseSession_dtor s6)"
      by (auto simp: secfs_main_def Let_def split: if_splits bind_splits)
    then show ?thesis
    proof (elim disjE exE conjE)
      fix r6 s6
      assume l: "FuseSession_enter_loop e F L s5 w1 = Some (r6, s6, rs, w')" and s: "s = FuseSession_dtor s6"
      from session_inv_steps(5) [OF i5 l] enter_loop_enclave [OF ok l] s show ?thesis by blast
    qed (use i2 i3 i4 i5 ok in blast)+
  qed
qed

lemma secfs_main_released:
  assumes "secfs_main e E S A F L texts argv junk w = Some (code, s, rs, w')"
  shows "released (fs_calls s)" and "Session_new True \<in> set (fs_calls s) \<longrightarrow> enclave_ok w'"
proof -
  from secfs_main_end [OF assms] obtain s1 where
    s1: "s = FuseSession_dtor s1" "session_inv s1" "fs_se s1 \<longrightarrow> enclave_ok w'" by blast
  then show "released (fs_calls s)" by (simp add: dtor_released)
  from s1 show "Session_new True \<in> set (fs_calls s) \<longrightarrow> enclave_ok w'" by (simp add: dtor_new session_inv_def)
qed


section \<open>From the tool to the daemon\<close>

text \<open>The command line of a daemon that mounts the volume of the file \<open>path\<close>, when libfuse has no errors.\<close>

definition session_ready :: "fuse_lib \<Rightarrow> string list \<Rightarrow> string \<Rightarrow> bool" where
  "session_ready L argv path \<longleftrightarrow>
     (\<exists>opts wb. fl_parse_cmdline L argv = (0, opts) \<and> \<not> fo_show_help opts \<and> \<not> fo_show_version opts \<and>
        fo_mountpoint opts \<noteq> None \<and>
        fl_opt_parse L argv \<lparr>op_volume_config = None, op_writeback = 0\<rparr> =
          (0, \<lparr>op_volume_config = Some path, op_writeback = wb\<rparr>)) \<and>
     fl_session_new L \<and> fl_set_signal_handlers L = 0 \<and> fl_session_mount L = 0 \<and> fl_daemonize L = 0 \<and>
     fl_session_loop L = 0"

lemma secfs_main_ready:
  assumes L: "session_ready L argv path" and ld: "load_config A texts path (Volume_ctor E) = (True, v)"
    and m: "\<And>dbg wb. \<exists>v'. mount_volume e E S A (v\<lparr>vo_debug := dbg, vo_writeback := wb\<rparr>) w = Some (True, v', w1)"
    and sv: "serve e F (fl_requests L) w1 = Some (rs, w2)"
  shows "\<exists>s. secfs_main e E S A F L texts argv junk w = Some (0, s, rs, w2) \<and> Session_new True \<in> set (fs_calls s) \<and>
    {Session_unmount, Remove_signal_handlers, Session_destroy} \<subseteq> set (fs_calls s)"
proof -
  from L obtain opts wb where o: "fl_parse_cmdline L argv = (0, opts)" "\<not> fo_show_help opts" "\<not> fo_show_version opts"
      "fo_mountpoint opts \<noteq> None" "fl_opt_parse L argv \<lparr>op_volume_config = None, op_writeback = 0\<rparr> =
        (0, \<lparr>op_volume_config = Some path, op_writeback = wb\<rparr>)"
    and l: "fl_session_new L" "fl_set_signal_handlers L = 0" "fl_session_mount L = 0" "fl_daemonize L = 0"
      "fl_session_loop L = 0" by (auto simp: session_ready_def)
  obtain v' where m': "mount_volume e E S A (v\<lparr>vo_debug := fo_debug opts, vo_writeback := wb\<rparr>) w = Some (True, v', w1)"
    using m by blast
  show ?thesis
    using o ld m' sv l by (auto simp: secfs_main_def Let_def FuseSession_parse_cmdline_def FuseSession_ctor_def
        FuseSession_opt_parse_def FuseSession_session_new_def FuseSession_set_signal_handlers_def FuseSession_mount_def
        FuseSession_daemonize_def FuseSession_enter_loop_def FuseSession_dtor_def called_def)
qed

lemma cli_create_ready:
  assumes run: "create_volume e E S A v w = Some (True, v1, w1)" "load_config A texts path (Volume_ctor E) = (True, v)"
    and opt: "getopt (''create'' # args) = [(CHR ''c'', path)]" and cmd: "6 \<le> length cmd"
    and dmp: "dump_config A texts path v1 = Some (True, texts1)"
  shows "cli_main e E S A getopt texts (prog # cmd # args) w = Some (0, texts1, w1)"
  using run opt dmp by (simp add: cli_main_copies [OF cmd] cmd_create_volume_def Let_def)

text \<open>The user and the key do not matter to the enclave, so the world after a mount is that of the configuration.\<close>

lemma mount_world_unique:
  assumes "mount_volume e E S A v w = Some (True, a, w1)" and "mount_volume e E S A v' w = Some (True, b, w2)"
    and "vo_config v = vo_config v'"
  shows "w1 = w2"
proof -
  have eq: "ecall_mount_volume e E S uid key sp sealed n x = ecall_mount_volume e E S uid' key' sp sealed n x"
    for uid uid' key key' sp sealed n x by (simp add: ecall_mount_volume_def)
  from mount_volume_success [OF assms(1)] obtain si uid sp enc sealed key where
    1: "js_members (vo_config v) ''superinfo'' = Some (JString si)" "uu_parse A si = (0, sp)"
      "js_members (vo_config v) ''volume_key'' = Some (JString enc)" "b64_decode A enc = Some sealed"
      "ecall_mount_volume e E S (scast (word_of_int uid :: 32 word)) key sp sealed (of_nat (length sealed))
        (tick (enclave_boot w)) = Some (0, w1)" by blast
  from mount_volume_success [OF assms(2)] 1(1-4) assms(3) obtain uid' key' where
    "ecall_mount_volume e E S (scast (word_of_int uid' :: 32 word)) key' sp sealed (of_nat (length sealed))
        (tick (enclave_boot w)) = Some (0, w2)" by auto
  with 1(5) eq [of "scast (word_of_int uid :: 32 word)" key sp sealed _ _ "scast (word_of_int uid' :: 32 word)" key'] show ?thesis by simp
qed

text \<open>
  A volume made by the tool from the configuration in \<open>path\<close> is served by the daemon that is given the
  file the tool has written: the requests meet a file system with an empty root directory.
\<close>

lemma created_volume_served:
  assumes e: "env_lawful e" "host_reliable e" and A: "app_lawful A" "app_reliable A"
    and E: "ecp_lawful E" and S: "seal_lawful S"
    and t: "texts path = Some t" "js_parse A t = Some (JObject ms)" "distinct (map fst ms)"
    and c: "config_ready E A (parent_path path) (map_of ms)"
    and cf: "txt_open_w A path" "txt_open_r A path"
    and opt: "getopt (''create'' # args) = [(CHR ''c'', path)]" and cmd: "6 \<le> length cmd"
    and d: "distinct [rand_uuid e (rnd w), rand_uuid e (rnd w + 1), rand_uuid e (rnd w + 2)]"
    and L: "session_ready L argv path"
  shows "\<exists>texts1 w1 w2. cli_main e E S A getopt texts (prog # cmd # args) w = Some (0, texts1, w1) \<and>
    enclave_ok w2 \<and> view w2 = [1 \<mapsto> DirNode Map.empty] \<and>
    (\<forall>rs w3. serve e F (fl_requests L) w2 = Some (rs, w3) \<longrightarrow>
      (\<exists>s. secfs_main e E S A F L texts1 argv junk w1 = Some (0, s, rs, w3) \<and> Session_new True \<in> set (fs_calls s) \<and>
        {Session_unmount, Remove_signal_handlers, Session_destroy} \<subseteq> set (fs_calls s)))"
proof -
  define v where "v = (Volume_ctor E)\<lparr>vo_config := JObject ms, vo_base_dir := parent_path path, vo_is_loaded := True\<rparr>"
  have ld: "load_config A texts path (Volume_ctor E) = (True, v)" using cf(2) t by (simp add: load_config_def v_def)
  have fv: "vo_config v = JObject ms" "vo_base_dir v = parent_path path" by (simp_all add: v_def)
  have c1: "config_ready E A (vo_base_dir v) (js_members (vo_config v))" using c by (simp add: fv)
  from app_lawfulD(2) [OF A(1) t(2)] have "js_dump A (JObject ms) \<noteq> None" by auto
  from create_volume_ready [OF e A E S c1 fv(1) t(3) this d] obtain v1 ms1 t1 w1 si dn where
    v1: "create_volume e E S A v w = Some (True, v1, w1)" "vo_config v1 = JObject ms1" "distinct (map fst ms1)"
      "config_ready E A (vo_base_dir v) (map_of ms1)" "volume_ready e E S A (map_of ms1) w1 si dn" "dn_dirent dn = []" and t1: "js_dump A (JObject ms1) = Some t1" by blast
  from app_lawfulD(1) [OF A(1) v1(3) t1] obtain ms2 where
    ms2: "js_parse A t1 = Some (JObject ms2)" "map_of ms2 = map_of ms1" by blast
  let ?t = "texts(path \<mapsto> t1)"
  have dmp: "dump_config A texts path v1 = Some (True, ?t)" using cf(1) A(2) v1(2) t1 by (simp add: dump_config_def)
  have cli: "cli_main e E S A getopt texts (prog # cmd # args) w = Some (0, ?t, w1)"
    by (rule cli_create_ready [where getopt = getopt and args = args, OF v1(1) ld opt cmd dmp])
  define v2 where "v2 = (Volume_ctor E)\<lparr>vo_config := JObject ms2, vo_base_dir := parent_path path, vo_is_loaded := True\<rparr>"
  have ld2: "load_config A ?t path (Volume_ctor E) = (True, v2)" using cf(2) ms2(1) by (simp add: load_config_def v2_def)
  have r: "config_ready E A (vo_base_dir (v2\<lparr>vo_debug := x, vo_writeback := y\<rparr>)) (js_members (vo_config (v2\<lparr>vo_debug := x, vo_writeback := y\<rparr>)))"
    "volume_ready e E S A (js_members (vo_config (v2\<lparr>vo_debug := x, vo_writeback := y\<rparr>))) w1 si dn" for x y
    using v1(4,5) by (simp_all add: v2_def ms2(2) fv(2))
  note mount = mount_volume_ready [OF e A r refl]
  from mount [of 0 0] v1(6) obtain v0 w2 where
    m0: "mount_volume e E S A (v2\<lparr>vo_debug := 0, vo_writeback := 0\<rparr>) w1 = Some (True, v0, w2)"
    and vw: "view w2 = [1 \<mapsto> DirNode Map.empty]" by (auto simp: entries_def)
  have ok: "enclave_ok w2" by (rule mount_volume_enclave [OF m0])
  have mt: "\<exists>v'. mount_volume e E S A (v2\<lparr>vo_debug := x, vo_writeback := y\<rparr>) w1 = Some (True, v', w2)" for x y
  proof -
    from mount [of y x] obtain v' w' where m: "mount_volume e E S A (v2\<lparr>vo_debug := x, vo_writeback := y\<rparr>) w1 = Some (True, v', w')"
      by blast
    with mount_world_unique [OF m m0] show ?thesis by simp
  qed
  show ?thesis
    using cli vw ok secfs_main_ready [OF L ld2 mt] by blast
qed

end
