(* ===== verification/Volume_Claims.thy ===== *)
theory Volume_Claims
  imports App_Main Fuse_Claims "HOL-Library.Countable"
begin

text \<open>
  The properties of creating, mounting and serving a volume, from the configuration file to the session
  of the daemon, and of the table of users.
\<close>

section \<open>Samples\<close>

text \<open>A library of keys of one byte, on one curve; sealing leaves the text as it is.\<close>

definition sample_ecp :: "(bool, byte) ecp" where
  "sample_ecp = \<lparr>ec_group_init = False, ec_point_init = 0, ec_group_load = (\<lambda>_. (0, True)),
     ec_group_id = (\<lambda>g. if g then MBEDTLS_ECP_DP_SECP384R1 else MBEDTLS_ECP_DP_NONE),
     ec_point_read = (\<lambda>g b n. (0, List.hd b)), ec_point_write = (\<lambda>g q n. (0, 1, [q])),
     ec_check_pubkey = (\<lambda>g q. 0), ec_copy = (\<lambda>q. (0, q)), um_place = (\<lambda>us u. 0)\<rparr>"

definition sample_seal :: sgx_seal where
  "sample_seal = \<lparr>ss_calc_size = (\<lambda>a n. of_nat n), ss_seal = (\<lambda>t aad p n. (True, p)),
     ss_mac_len = (\<lambda>_. of_nat (length volkey_aad)), ss_text_len = (\<lambda>_. of_nat VOLKEYSIZE),
     ss_unseal = (\<lambda>b. (True, volkey_aad, b))\<rparr>"

lemma sample_ecp_lawful: "ecp_lawful sample_ecp" "ecp_group sample_ecp = True"
  by (simp_all add: ecp_lawful_def ecp_group_def sample_ecp_def grp_id_def sizeof_pubkey_def) blast

lemma sample_seal_lawful: "seal_lawful sample_seal"
  by (simp add: seal_lawful_def sample_seal_def volkey_aad_def VOLKEYSIZE_def)

text \<open>Text of bytes, two letters for each byte; the JSON value is its number.\<close>

instance json :: countable
  by countable_datatype

definition letter :: "nat \<Rightarrow> char" where
  "letter n = char_of (n + 65)"

definition sample_text :: "bytes \<Rightarrow> string" where
  "sample_text b = concat (map (\<lambda>x. [letter (unat x div 16), letter (unat x mod 16)]) b)"

fun sample_untext :: "string \<Rightarrow> bytes" where
  "sample_untext (c # d # cs) = of_nat (16 * (of_char c - 65) + (of_char d - 65)) # sample_untext cs"
| "sample_untext _ = []"

lemma of_char_letter: "n < 16 \<Longrightarrow> (of_char (letter n) :: nat) = n + 65"
  by (simp add: letter_def of_char_of)

lemma byte_digits: "unat (x :: byte) div 16 < 16" "unat x mod 16 < 16"
proof -
  have "unat x < 2 ^ LENGTH(8)" by (rule unsigned_less)
  then show "unat x div 16 < 16" "unat x mod 16 < 16" by simp_all
qed

lemma sample_untext [simp]: "sample_untext (sample_text b) = b"
proof (induction b)
  case (Cons x b)
  have "(of_nat (16 * (unat x div 16) + unat x mod 16) :: byte) = x" by (simp only: mult_div_mod_eq) simp
  with Cons show ?case by (simp add: sample_text_def of_char_letter byte_digits)
qed (simp add: sample_text_def)

lemma ascii_sample_text: "ascii (sample_text b)"
proof -
  have "unat x div 16 + 65 < 128" "unat x mod 16 + 65 < 128" for x :: byte using byte_digits [of x] by linarith+
  then show ?thesis by (auto simp: ascii_def sample_text_def of_char_letter byte_digits simp del: Num.add_numeral_left)
qed

definition sample_app :: "(bool, byte) app_env" where
  "sample_app = \<lparr>js_parse = (\<lambda>b. Some (from_nat (length b))), js_dump = (\<lambda>j. Some (replicate (to_nat j) 0)),
     txt_open_r = (\<lambda>_. True), txt_open_w = (\<lambda>_. True), txt_written = (\<lambda>n. n),
     fs_status = (\<lambda>_. (False, FT_directory)),
     pk_parse_keyfile = (\<lambda>_. (0, \<lparr>pk_eckey = True, pk_pair = \<lparr>kp_grp = True, kp_Q = 7\<rparr>, pk_d = [9]\<rparr>)),
     pk_parse_public_keyfile = (\<lambda>_. (0, \<lparr>pk_eckey = True, pk_pair = \<lparr>kp_grp = True, kp_Q = 7\<rparr>, pk_d = []\<rparr>)),
     pk_copy = (\<lambda>_. 0), b64_decode = (\<lambda>s. Some (sample_untext s)), b64_encode = sample_text,
     uu_parse = (\<lambda>s. (0, sample_untext s)), uu_unparse = sample_text,
     create_enclave = (\<lambda>_. (True, 1)), enter_ok = (\<lambda>_. True)\<rparr>"

lemma sample_app_lawful: "app_lawful sample_app" "app_reliable sample_app"
  by (auto simp: app_lawful_def app_reliable_def sample_app_def ascii_sample_text)

definition sample_config :: "(string \<times> json) list" where
  "sample_config = [(''enclave_path'', JString ''secfs.signed.so''), (''key_path'', JString ''key.pem''),
     (''public_key_path'', JString ''pub.pem''),
     (''storage'', JObject [(''type'', JString ''local''), (''config'', JObject [(''base_dir'', JString ''/data'')])])]"

lemma sample_config_ready: "config_ready sample_ecp sample_app dir (map_of sample_config)"
  by (simp add: config_ready_def sample_config_def) (simp add: sample_app_def sample_ecp_def grp_id_def)

definition sample_opts :: cmdline_opts where
  "sample_opts = \<lparr>fo_singlethread = True, fo_foreground = True, fo_debug = 0, fo_mountpoint = Some ''/mnt'',
     fo_show_version = False, fo_show_help = False, fo_clone_fd = False, fo_max_idle_threads = 10\<rparr>"

definition sample_lib :: fuse_lib where
  "sample_lib = \<lparr>fl_parse_cmdline = (\<lambda>_. (0, sample_opts)),
     fl_opt_parse = (\<lambda>_ _. (0, \<lparr>op_volume_config = Some ''/c/secfs.json'', op_writeback = 1\<rparr>)),
     fl_session_new = True, fl_set_signal_handlers = 0, fl_session_mount = 0, fl_daemonize = 0, fl_session_loop = 0,
     fl_requests = [(Req_getattr 1, sample_fi)]\<rparr>"

lemma sample_session_ready: "session_ready sample_lib argv ''/c/secfs.json''"
  by (simp add: session_ready_def sample_lib_def sample_opts_def)

lemma sample_serve: "\<exists>rs w'. serve sample_env sample_fuse (fl_requests sample_lib) w = Some (rs, w')"
  by (auto simp: sample_lib_def secfs_getattr_def ecall_def split: prod.splits)

lemma sample_uuids: "distinct [rand_uuid sample_env 0, rand_uuid sample_env 1, rand_uuid sample_env 2]"
  by code_simp

definition sample_config_text :: bytes where
  "sample_config_text = replicate (to_nat (JObject sample_config)) 0"

lemma sample_premises:
  "js_parse sample_app sample_config_text = Some (JObject sample_config)"
  "distinct (map fst sample_config)" "txt_open_w sample_app p" "txt_open_r sample_app p"
  "distinct [rand_uuid sample_env (rnd sample_world), rand_uuid sample_env (rnd sample_world + 1),
    rand_uuid sample_env (rnd sample_world + 2)]"
  using sample_uuids
  by (simp_all add: sample_app_def sample_config_text_def) (simp_all add: sample_config_def sample_world_def numeral_2_eq_2)

lemmas sample_volume = sample_env_lawful sample_env_reliable sample_app_lawful sample_ecp_lawful(1) sample_seal_lawful

section \<open>From the tool to the daemon\<close>

text \<open>
  C6.  A volume that the tool has created is served by the daemon.  The tool, run on a configuration whose
  enclave starts and whose keys and store are in order, ends with status 0 and has written the file; the
  daemon that is given this file, in another process with another enclave, mounts the volume, serves its
  requests on a file system with an empty root directory, and ends with status 0.  The word given as the
  command does not matter as long as it has six letters, since \<open>main\<close> copies \<open>create\<close> over it instead of comparing.
\<close>

theorem created_volume_is_served:
  assumes "env_lawful e" and "host_reliable e" and "app_lawful A" and "app_reliable A"
    and "ecp_lawful E" and "seal_lawful S"
    and "texts path = Some t" and "js_parse A t = Some (JObject ms)" and "distinct (map fst ms)"
    and "config_ready E A (parent_path path) (map_of ms)"
    and "txt_open_w A path" and "txt_open_r A path"
    and "getopt (''create'' # args) = [(CHR ''c'', path)]" and "6 \<le> length cmd"
    and "distinct [rand_uuid e (rnd w), rand_uuid e (rnd w + 1), rand_uuid e (rnd w + 2)]"
    and "session_ready L argv path"
  shows "\<exists>texts1 w1 w2. cli_main e E S A getopt texts (prog # cmd # args) w = Some (0, texts1, w1) \<and>
    enclave_ok w2 \<and> view w2 = [1 \<mapsto> DirNode Map.empty] \<and>
    (\<forall>rs w3. serve e F (fl_requests L) w2 = Some (rs, w3) \<longrightarrow>
      (\<exists>s. secfs_main e E S A F L texts1 argv junk w1 = Some (0, s, rs, w3)))"
  using created_volume_served [where getopt = getopt and args = args and cmd = cmd and texts = texts and path = path
      and prog = prog and F = F and junk = junk, OF assms]
  by fast

theorem created_volume_is_served_witness:
  "\<exists>texts1 w1 s rs w3. cli_main sample_env sample_ecp sample_seal sample_app (\<lambda>_. [(CHR ''c'', ''/c/secfs.json'')])
      [''/c/secfs.json'' \<mapsto> sample_config_text] [''secfs-cli'', ''create''] sample_world =
      Some (0, texts1, w1) \<and>
    secfs_main sample_env sample_ecp sample_seal sample_app sample_fuse sample_lib texts1 [''secfs''] sample_opts w1 =
      Some (0, s, rs, w3)"
proof -
  let ?t = sample_config_text
  from created_volume_is_served [where texts = "[''/c/secfs.json'' \<mapsto> ?t]" and path = "''/c/secfs.json''"
      and getopt = "\<lambda>_. [(CHR ''c'', ''/c/secfs.json'')]" and args = "[]" and cmd = "''create''" and prog = "''secfs-cli''",
      OF sample_volume _ sample_premises(1,2) sample_config_ready sample_premises(3,4) _ _ sample_premises(5) sample_session_ready [of "[''secfs'']"]]
  obtain texts1 w1 w2 where c: "cli_main sample_env sample_ecp sample_seal sample_app (\<lambda>_. [(CHR ''c'', ''/c/secfs.json'')])
      [''/c/secfs.json'' \<mapsto> ?t] [''secfs-cli'', ''create''] sample_world = Some (0, texts1, w1)"
    and s: "\<And>rs w3. serve sample_env sample_fuse (fl_requests sample_lib) w2 = Some (rs, w3) \<Longrightarrow>
      \<exists>s. secfs_main sample_env sample_ecp sample_seal sample_app sample_fuse sample_lib texts1 [''secfs''] sample_opts w1 =
        Some (0, s, rs, w3)" by fastforce
  from sample_serve [of w2] s c show ?thesis by blast
qed

text \<open>
  C23.  Whatever the command line, the files, the host and libfuse do: when the daemon has started a session, the
  volume was mounted, and after all requests the invariant of the enclave holds.
\<close>

theorem daemon_keeps_invariant:
  assumes "secfs_main e E S A F L texts argv junk w = Some (code, s, rs, w')"
    and "Session_new True \<in> set (fs_calls s)"
  shows "enclave_ok w'"
  using secfs_main_released(2) [OF assms(1)] assms(2) by blast

text \<open>A run of the daemon on a created volume.\<close>

abbreviation sample_main :: "(string \<rightharpoonup> bytes) \<Rightarrow> world \<Rightarrow> (int \<times> FuseSession \<times> reply list list \<times> world) option" where
  "sample_main texts w \<equiv>
     secfs_main sample_env sample_ecp sample_seal sample_app sample_fuse sample_lib texts [''secfs''] sample_opts w"

lemma sample_run_daemon:
  "\<exists>texts1 s rs w1 w3. sample_main texts1 w1 = Some (0, s, rs, w3) \<and> Session_new True \<in> set (fs_calls s) \<and>
    {Session_unmount, Remove_signal_handlers, Session_destroy} \<subseteq> set (fs_calls s)"
proof -
  from created_volume_served [where texts = "\<lambda>_. Some sample_config_text" and path = "''/c/secfs.json''"
      and getopt = "\<lambda>_. [(CHR ''c'', ''/c/secfs.json'')]" and cmd = "''create''" and F = sample_fuse,
      OF sample_volume refl sample_premises(1,2) sample_config_ready sample_premises(3,4) refl _ sample_premises(5) sample_session_ready [of "[''secfs'']"]] sample_serve
  show ?thesis by fastforce
qed

theorem daemon_keeps_invariant_witness:
  "\<exists>texts1 s rs w1 w3. sample_main texts1 w1 = Some (0, s, rs, w3) \<and> Session_new True \<in> set (fs_calls s) \<and> enclave_ok w3"
proof -
  from sample_run_daemon obtain texts1 s rs w1 w3 where m: "sample_main texts1 w1 = Some (0, s, rs, w3)"
    and n: "Session_new True \<in> set (fs_calls s)" by blast
  from m n daemon_keeps_invariant [OF m n] show ?thesis by blast
qed

text \<open>
  C24.  However the daemon ends, its session releases what it has acquired, in reverse order and nothing
  else: it unmounts exactly when it has mounted, removes the signal handlers exactly when it has set them, and
  destroys the session exactly when there is one.
\<close>

theorem session_released:
  assumes "secfs_main e E S A F L texts argv junk w = Some (code, s, rs, w')"
  shows "\<exists>pre. fs_calls s = pre @
      (if \<exists>p. Session_mount p 0 \<in> set pre then [Session_unmount] else []) @
      (if Set_signal_handlers 0 \<in> set pre then [Remove_signal_handlers] else []) @
      (if Session_new True \<in> set pre then [Session_destroy] else []) \<and>
    set pre \<inter> {Session_unmount, Remove_signal_handlers, Session_destroy} = {}"
  using secfs_main_released(1) [OF assms] unfolding released_def .

theorem session_released_witness:
  "\<exists>texts1 s rs w1 w3 pre. sample_main texts1 w1 = Some (0, s, rs, w3) \<and>
    fs_calls s = pre @ [Session_unmount, Remove_signal_handlers, Session_destroy]"
proof -
  from sample_run_daemon obtain texts1 s rs w1 w3 where m: "sample_main texts1 w1 = Some (0, s, rs, w3)"
    and c: "{Session_unmount, Remove_signal_handlers, Session_destroy} \<subseteq> set (fs_calls s)" by blast
  from session_released [OF m] obtain pre where p: "fs_calls s = pre @
      (if \<exists>p. Session_mount p 0 \<in> set pre then [Session_unmount] else []) @
      (if Set_signal_handlers 0 \<in> set pre then [Remove_signal_handlers] else []) @
      (if Session_new True \<in> set pre then [Session_destroy] else [])"
    and n: "set pre \<inter> {Session_unmount, Remove_signal_handlers, Session_destroy} = {}" by blast
  have "(\<exists>p. Session_mount p 0 \<in> set pre) \<and> Set_signal_handlers 0 \<in> set pre \<and> Session_new True \<in> set pre"
    using c n unfolding p by (auto split: if_splits)
  with p have "fs_calls s = pre @ [Session_unmount, Remove_signal_handlers, Session_destroy]" by auto
  with m show ?thesis by blast
qed

section \<open>Mounting on any host\<close>

lemma sealed_file:
  assumes e: "env_lawful e" and key: "length (volkey w) = VOLKEYSIZE"
    and small: "\<forall>u f. files w (UUID_unparse u) = Some f \<longrightarrow> length f < 2 ^ 32"
    and ld: "load_metadata e vload u m w = Some (True, m', w')"
  shows "\<exists>img. files w (UUID_unparse u) = Some (seal_meta e (volkey w) u img) \<and> vload m img = Some (True, m')"
    and "volkey w' = volkey w" and "files w' = files w" and "inode_map w' = inode_map w"
proof -
  have "\<exists>img. stored_meta e w u img \<and> vload m img = Some (True, m')"
    by (rule load_metadata_sound [OF e key _ ld]) (use small in blast)
  then show "\<exists>img. files w (UUID_unparse u) = Some (seal_meta e (volkey w) u img) \<and> vload m img = Some (True, m')"
    by (auto simp: stored_meta_def)
qed (use load_metadata_frame [OF ld] more_world [OF load_metadata_frame(1) [OF ld]] in simp_all)

text \<open>
  C9.  A mount that succeeds, on any host, has read authentic objects only: the superinfo, the table of users and
  the root directory it uses are those of images sealed for their UUIDs under the key that was
  unsealed.  This is all that a mount checks: no user number and no key of a user enters it.
\<close>

theorem mount_authentic:
  assumes "env_lawful e" and "ecall_mount_volume e E S uid k sp sealed vs w = Some (0, w')"
    and "ss_unseal S sealed = (True, aad, key)" and "length key = VOLKEYSIZE" and "length (volkey w) = VOLKEYSIZE"
    and "\<forall>u f. files w (UUID_unparse u) = Some f \<longrightarrow> length f < 2 ^ 32"
  shows "\<exists>si simg uimg dimg si0 ut0 ut dn0 dn.
    files w (UUID_unparse (UUID_load sp)) = Some (seal_meta e key (UUID_load sp) simg) \<and>
    Superinfo_load si0 simg = Some (True, si) \<and>
    files w (UUID_unparse (si_user_table si)) = Some (seal_meta e key (si_user_table si) uimg) \<and>
    Usertable_load E ut0 uimg = Some (True, ut) \<and>
    files w (UUID_unparse (si_root_dirnode si)) = Some (seal_meta e key (si_root_dirnode si) dimg) \<and>
    Dirnode_load dn0 dimg = Some (True, dn) \<and> in_ino dn = 1 \<and>
    volkey w' = key \<and> find_inode w' 1 = Some (next_addr w, DirObj dn)"
proof -
  have key: "wr 0 key (volkey w) = key" using assms(4,5) by (simp add: wr_def)
  from ecall_mount_volume_success [OF assms(2)] assms(3) key obtain si0 si ut0 ut dn0 dn w2 w4 w5 where
    l1: "load_metadata e Superinfo_load (UUID_load sp) si0 (w\<lparr>volkey := key, superinfo := Some si0\<rparr>) = Some (True, si, w2)"
    and l2: "load_metadata e (Usertable_load E) (si_user_table si) ut0 (w2\<lparr>superinfo := Some si\<rparr>) = Some (True, ut, w4)"
    and l3: "load_metadata e Dirnode_load (si_root_dirnode si) dn0 w4 = Some (True, dn, w5)"
    and w': "in_ino dn = 1" "w' = bind_inode 1 (DirObj dn) w5" by auto
  have k1: "length (volkey (w\<lparr>volkey := key, superinfo := Some si0\<rparr>)) = VOLKEYSIZE" using assms(4) by simp
  note s1 = sealed_file [OF assms(1) k1 _ l1] load_metadata_frame [OF l1]
  have f2: "files w2 = files w" "volkey w2 = key" using s1(2,3) assms(6) by auto
  have k2: "length (volkey (w2\<lparr>superinfo := Some si\<rparr>)) = VOLKEYSIZE" using f2 assms(4) by simp
  note s2 = sealed_file [OF assms(1) k2 _ l2]
  have f4: "files w4 = files w" "volkey w4 = key" using s2(2,3) f2 assms(6) by auto
  have k4: "length (volkey w4) = VOLKEYSIZE" using f4 assms(4) by simp
  note s3 = sealed_file [OF assms(1) k4 _ l3]
  have n5: "next_addr w5 = next_addr w"
    using more_world [OF load_metadata_frame(1) [OF l3]] more_world [OF load_metadata_frame(1) [OF l2]]
      more_world [OF load_metadata_frame(1) [OF l1]] by simp
  have "volkey w' = key" "find_inode w' 1 = Some (next_addr w, DirObj dn)"
    using s3(2) f4 assms(6) n5 by (simp_all add: w' bind_inode_def Let_def find_inode_def)
  moreover obtain simg where "files w (UUID_unparse (UUID_load sp)) = Some (seal_meta e key (UUID_load sp) simg)"
    "Superinfo_load si0 simg = Some (True, si)" using s1(1) assms(6) by auto
  moreover obtain uimg where "files w (UUID_unparse (si_user_table si)) = Some (seal_meta e key (si_user_table si) uimg)"
    "Usertable_load E ut0 uimg = Some (True, ut)" using s2(1) f2 assms(6) by auto
  moreover obtain dimg where "files w (UUID_unparse (si_root_dirnode si)) = Some (seal_meta e key (si_root_dirnode si) dimg)"
    "Dirnode_load dn0 dimg = Some (True, dn)" using s3(1) f4 assms(6) by auto
  ultimately show ?thesis using w'(1) by blast
qed


text \<open>A store that holds a volume with an empty root directory and no users, sealed under the zero key.\<close>

definition zero_key :: bytes where
  "zero_key = replicate VOLKEYSIZE 0"

lemma length_seal_sample:
  assumes "length img < 2 ^ 31"
  shows "length (seal_meta sample_env zero_key u img) < 2 ^ 32"
proof -
  have "gcm_params zero_key zero_iv (UUID_dump u) img"
    using assms by (intro gcm_params_meta) (simp_all add: zero_key_def)
  then show ?thesis
    using assms by (simp add: seal_meta_def sample_cipher_lawful gcm.length_ct gcm.length_tg)
qed

lemma sample_sealed_volume:
  "\<exists>w w' k. ecall_mount_volume sample_env sample_ecp sample_seal 1 k (UUID_dump 102) zero_key (of_nat VOLKEYSIZE) w =
      Some (0, w') \<and> length (volkey w) = VOLKEYSIZE \<and>
    (\<forall>u f. files w (UUID_unparse u) = Some f \<longrightarrow> length f < 2 ^ 32)"
proof -
  let ?ut = "Usertable_ctor 103 :: (bool, byte) Usertable" and ?dn = "root_new 100 0"
  have ut: "Usertable_storable sample_ecp ?ut" "md_uuid ?ut = 103" "Usertable_bytes ?ut = 8"
    by (simp_all add: Usertable_storable_def sample_ecp_lawful Usertable_ctor_def Metadata_ctor_def metadata.defs
        Usertable_bytes_def sizeof_usertable_buffer_def)
  have dn: "Dirnode_bytes ?dn = 272" by (simp add: Dirnode_bytes_def sizeof_dirnode_buffer_def)
  have si: "md_uuid sample_super = 102" "si_user_table sample_super = 103" "si_root_dirnode sample_super = 100"
    by (simp_all add: sample_super_def)
  obtain simg where s: "length simg = 104" "\<forall>m0. Superinfo_fresh m0 sample_super \<longrightarrow> Superinfo_load m0 simg = Some (True, sample_super)"
    using superinfo.dump_load [OF TrueI, of "replicate 104 0" sample_super] by (auto simp: sizeof_superinfo_def)
  obtain uimg where u: "length uimg = 8" "\<forall>m0. Usertable_fresh m0 ?ut \<longrightarrow> Usertable_load sample_ecp m0 uimg = Some (True, ?ut)"
    using usertable.dump_load [OF ut(1), of "replicate 8 0"] ut(3) by auto
  obtain dimg where d: "length dimg = 272" "\<forall>m0. Dirnode_fresh m0 ?dn \<longrightarrow> Dirnode_load m0 dimg = Some (True, ?dn)"
    using dirnode.dump_load [OF root_new_simps(5), of "replicate 272 0" 100 0] dn by auto
  define w where "w = sample_world\<lparr>files := [UUID_unparse 102 \<mapsto> seal_meta sample_env zero_key 102 simg,
    UUID_unparse 103 \<mapsto> seal_meta sample_env zero_key 103 uimg, UUID_unparse 100 \<mapsto> seal_meta sample_env zero_key 100 dimg]\<rparr>"
  have key: "volkey w = zero_key" "length zero_key = VOLKEYSIZE" by (simp_all add: w_def sample_world_def zero_key_def)
  have "stored_meta sample_env w 102 simg" "stored_meta sample_env w 103 uimg" "stored_meta sample_env w 100 dimg"
    using s(1) u(1) d(1) by (simp_all add: stored_meta_def key) (simp_all add: w_def UUID_unparse_inject)
  with s(2) u(2) d(2) have vol: "volume_stored sample_env sample_ecp w sample_super ?ut ?dn"
    by (auto simp: volume_stored_def si ut(2))
  have n: "VOLKEYSIZE \<le> unat (of_nat VOLKEYSIZE :: size_t)" by (simp add: VOLKEYSIZE_def)
  have S: "unat (ss_mac_len sample_seal zero_key) = length volkey_aad" "unat (ss_text_len sample_seal zero_key) = VOLKEYSIZE"
    "ss_unseal sample_seal zero_key = (True, volkey_aad, volkey w)"
    by (simp_all add: sample_seal_def key volkey_aad_def VOLKEYSIZE_def)
  have "length (volkey w) = VOLKEYSIZE" using key by simp
  from mount_stored [OF sample_env_lawful sample_env_reliable vol root_new_simps(2) ut(1) S n refl this, of 1 "keypair_init sample_ecp"]
  obtain w3 where "ecall_mount_volume sample_env sample_ecp sample_seal 1 (keypair_init sample_ecp) (UUID_dump 102) zero_key
      (of_nat VOLKEYSIZE) w = Some (0, bind_inode 1 (DirObj ?dn) w3)" by (auto simp: si)
  moreover have "length f < 2 ^ 32" if "files w (UUID_unparse v) = Some f" for v f
    using that s(1) u(1) d(1) length_seal_sample [of simg 102] length_seal_sample [of uimg 103] length_seal_sample [of dimg 100]
    by (auto simp: w_def split: if_splits)
  ultimately show ?thesis using key by metis
qed

theorem mount_authentic_witness:
  "\<exists>w w' k dn. ecall_mount_volume sample_env sample_ecp sample_seal 1 k (UUID_dump 102) zero_key (of_nat VOLKEYSIZE) w =
      Some (0, w') \<and> volkey w' = zero_key \<and> find_inode w' 1 = Some (next_addr w, DirObj dn)"
proof -
  from sample_sealed_volume obtain w w' k where
    m: "ecall_mount_volume sample_env sample_ecp sample_seal 1 k (UUID_dump 102) zero_key (of_nat VOLKEYSIZE) w = Some (0, w')"
    and w: "length (volkey w) = VOLKEYSIZE" "\<forall>u f. files w (UUID_unparse u) = Some f \<longrightarrow> length f < 2 ^ 32" by blast
  have "ss_unseal sample_seal zero_key = (True, volkey_aad, zero_key)" "length zero_key = VOLKEYSIZE"
    by (simp_all add: sample_seal_def zero_key_def)
  from mount_authentic [OF sample_env_lawful m this w] m show ?thesis by blast
qed

section \<open>The table of users\<close>

text \<open>
  C34.  A table with no user or one is saved and loaded unchanged, through \<open>save_metadata\<close> and
  \<open>load_metadata\<close> with the virtual functions of \<open>Usertable\<close>.
\<close>

theorem usertable_saved_loaded:
  assumes "env_lawful e" and "host_reliable e" and "length (volkey w) = VOLKEYSIZE"
    and "Usertable_storable E ut" and "save_metadata e (Usertable_dump E) (md_uuid ut) ut w = (ok, w1)"
  shows "ok \<and> (\<exists>w2. load_metadata e (Usertable_load E) (md_uuid ut) (Usertable_ctor (md_uuid ut)) w1 = Some (True, ut, w2))"
proof -
  have "Usertable_fresh (Usertable_ctor (md_uuid ut)) ut"
    by (simp add: Usertable_fresh_def Usertable_ctor_def Metadata_ctor_def metadata.defs)
  from usertable.load_saved [OF assms this] show ?thesis by blast
qed

definition sample_owner :: "(bool, byte) Userinfo" where
  "sample_owner = \<lparr>ui_is_owner = True, ui_pubkey = \<lparr>kp_grp = True, kp_Q = 7\<rparr>\<rparr>"

definition sample_users :: "(bool, byte) Usertable" where
  "sample_users = \<lparr>md_uuid = 103, ut_usermap = [(1, sample_owner)]\<rparr>"

lemma sample_users_storable: "Usertable_storable sample_ecp sample_users" "user_ok sample_ecp sample_owner"
  by (simp_all add: Usertable_storable_def sample_users_def user_ok_def sample_owner_def sample_ecp_lawful)
    (simp_all add: sample_ecp_def)

theorem usertable_saved_loaded_witness:
  "\<exists>w1 w2. save_metadata sample_env (Usertable_dump sample_ecp) 103 sample_users sample_world = (True, w1) \<and>
    load_metadata sample_env (Usertable_load sample_ecp) 103 (Usertable_ctor 103) w1 = Some (True, sample_users, w2)"
proof -
  obtain ok w1 where sv: "save_metadata sample_env (Usertable_dump sample_ecp) 103 sample_users sample_world = (ok, w1)"
    by (rule prod.exhaust)
  have "md_uuid sample_users = 103" by (simp add: sample_users_def)
  moreover have "length (volkey sample_world) = VOLKEYSIZE" by (simp add: sample_world_def)
  ultimately show ?thesis
    using usertable_saved_loaded [OF sample_env_lawful sample_env_reliable, of sample_world sample_ecp sample_users ok w1]
      sample_users_storable(1) sv by auto
qed

text \<open>
  C35.  With more users the table is lost (lines 37 to 41 of \<^verbatim>\<open>usertable.cpp\<close>): all are written over the first
  entry, and the bytes of the other entries, from 280 on, stay what the buffer held, which the caller
  allocates without initialising it.
\<close>

theorem usertable_keeps_one_user:
  assumes "ecp_lawful E" and "\<And>u ui. (u, ui) \<in> set (ut_usermap ut) \<Longrightarrow> user_ok E ui"
    and "280 \<le> length obuf" and "Usertable_dump E ut (Some obuf) n = (r, Some img)"
  shows "drop 280 img = drop 280 obuf"
proof -
  have "drop 280 (wr 0 (le_bytes 8 (of_nat (length (ut_usermap ut)) :: size_t)) obuf) = drop 280 obuf"
    using assms(3) by (intro drop_wr_before) simp_all
  moreover have "280 \<le> length (wr 0 (le_bytes 8 (of_nat (length (ut_usermap ut)) :: size_t)) obuf)"
    using assms(3) by (simp add: buf_simps)
  ultimately show ?thesis
    using Usertable_dump_entries_tail [OF assms(1), of "ut_usermap ut"] assms(2,4)
    by (fastforce simp: Usertable_dump_def Let_def split: if_splits)
qed

theorem usertable_keeps_one_user_witness:
  "\<exists>r img. Usertable_dump sample_ecp (sample_users\<lparr>ut_usermap := [(1, sample_owner), (2, sample_owner)]\<rparr>)
      (Some (replicate 552 0xAA)) 552 = (r, Some img) \<and> r = 552 \<and> drop 280 img = replicate 272 0xAA"
proof -
  let ?ut = "sample_users\<lparr>ut_usermap := [(1, sample_owner), (2, sample_owner)]\<rparr>"
  obtain r img where d: "Usertable_dump sample_ecp ?ut (Some (replicate 552 0xAA)) 552 = (r, Some img)" and r: "r = 552"
    by (simp add: Usertable_dump_def sizeof_usertable_buffer_def sizeof_userinfo_def Let_def)
  have "user_ok sample_ecp ui" if "(u, ui) \<in> set (ut_usermap ?ut)" for u ui
    using that sample_users_storable(2) by auto
  from usertable_keeps_one_user [OF sample_ecp_lawful(1) this _ d] d r show ?thesis by simp
qed

end
