(* ===== verification/Spec2Isabelle.thy ===== *)
theory Spec2Isabelle
  imports Write_Shortcut App_Cache Data_Claims Truncate Namespace_Claims Fuse_Claims Volume_Claims
begin

text \<open>
  Verification library of sgx-secfs, a FUSE file system whose data is encrypted inside an SGX enclave.

  \<^bold>\<open>The program.\<close>  The enclave (\<^verbatim>\<open>enclave/\<close>) keeps a table of inodes, directories and files in memory, and
  a cache of file chunks.  Metadata objects and chunks are encrypted with a volume key and kept as files named
  by UUIDs in an untrusted store (\<^verbatim>\<open>app/backend/\<close>), which the enclave reaches by calls out of it
  (\<^verbatim>\<open>app/ocall.cpp\<close>).  The application around it answers the kernel's FUSE requests by calls into the enclave
  (\<^verbatim>\<open>app/fuse_operations.cpp\<close>), reads a configuration and starts the enclave (\<^verbatim>\<open>app/volume.cpp\<close>), and consists of
  a daemon (\<^verbatim>\<open>app/main.cpp\<close>) and a tool that creates volumes (\<^verbatim>\<open>app/cli.cpp\<close>).

  \<^bold>\<open>The model.\<close>  A \<open>world\<close> (theory \<open>Storage\<close>) is the state of enclave and host together: the files of the store,
  a clock that counts calls and numbers the draws of random bytes, the inode table, a heap of objects, the superinfo,
  the volume key and the chunk cache.  A function of the program becomes a function from a world to its result and the
  new world; \<^term>\<open>None\<close> is what the language leaves undefined or an exception nothing catches, and
  errors the program handles are values.  Machine integers are words.  What is not in the repository is a
  parameter: the record \<open>env\<close> (cipher, random bytes, memory, the host's files and transitions), \<open>fuse_env\<close>,
  \<open>ecp\<close>, \<open>sgx_seal\<close>, \<open>app_env\<close> and \<open>fuse_lib\<close>.  Predicates such as \<open>env_lawful\<close>, \<open>host_reliable\<close>, \<open>ecp_lawful\<close>
  or \<open>app_lawful\<close> state what their documentation promises, and concrete instances that satisfy them evaluate the
  closed examples.

  \<^bold>\<open>Theories.\<close>
  \<^item> \<open>Secfs_Prelude\<close>: bytes, words, reads and writes of raw memory, C strings.
  \<^item> \<open>Uuid\<close>, \<open>Metadata\<close>, \<open>Superinfo\<close>, \<open>Dirnode\<close>, \<open>Filenode\<close>, \<open>Usertable\<close>: the classes of the same names, with
    \<open>load\<close> and \<open>dump\<close>; the locale \<open>metadata_codec\<close> is the contract of the two, interpreted for each class.
  \<^item> \<open>Crypto\<close>: \<open>encrypt_buffer\<close> and \<open>decrypt_buffer\<close>, with the locale of authenticated encryption.
  \<^item> \<open>Host\<close>: the local backend and the calls out of the enclave, with the locale of the store.
  \<^item> \<open>Keyed_List\<close>, \<open>Chunk_Store\<close>, \<open>App_Cache\<close>: the list with a map of iterators behind both classes \<open>ChunkStore\<close>,
    and its refinement of a queue.
  \<^item> \<open>Storage\<close>, \<open>Metadata_Io\<close>: loading and saving of metadata and chunks, and the eviction loop.
  \<^item> \<open>Ecall_Fs\<close>: the handlers of \<^verbatim>\<open>enclave/ecall_fs.cpp\<close>, one definition each.
  \<^item> \<open>Chunk_Path\<close>, \<open>File_Segments\<close>, \<open>File_Read\<close>, \<open>File_Write\<close>, \<open>File_Flush\<close>, \<open>Write_Shortcut\<close>: the data path.
    A chunk's contents are its cached bytes, or the authentic plaintext of its file, or zeros; \<open>holds\<close> says which bytes
    a file has, and reading, writing and flushing are proved against it.
  \<^item> \<open>Namespace\<close>, \<open>Dir_Ops\<close>: the name space as an abstract map, and the calls on names.
  \<^item> \<open>Reachable\<close>: the relation of all steps of the enclave, with the host free to do anything in between, and the
    invariant \<open>enclave_ok\<close>.
  \<^item> \<open>Ecall_Volume\<close>: creating and mounting inside the enclave.
  \<^item> \<open>Fuse_Operations\<close>, \<open>Fuse_Replies\<close>: the FUSE handlers and the replies they send.
  \<^item> \<open>App_Volume\<close>, \<open>App_Main\<close>: the class \<open>Volume\<close> of the application, the FUSE session, and the two programs.
  \<^item> \<open>Sample_Env\<close>, \<open>Sample_World\<close>: a concrete environment and a small volume.
  \<^item> \<open>Truncate\<close>: opening a file with \<open>O_TRUNC\<close>, and the chunks it leaves in the cache.
  \<^item> \<open>Data_Claims\<close>, \<open>Namespace_Claims\<close>, \<open>Fuse_Claims\<close>, \<open>Volume_Claims\<close> and this theory hold the properties, each
    with a closed example of its use.

  \<^bold>\<open>What is shown.\<close>  With a reliable host: a write overlays the file's bytes and nothing else (but for one
  length), a read that begins inside the file returns them, a flush makes them durable across a restart, \<open>create\<close> and \<open>mkdir\<close>
  refine an insertion into the name space, \<open>unlink\<close> and \<open>rmdir\<close> remove exactly what belongs to the name, and a
  volume the tool has created is served by the daemon.  With any host: metadata and chunks that are accepted are authentic,
  a mount reads authentic objects only, the enclave's invariant holds after any sequence of calls and in any
  run of the daemon, the cache is bounded, and the eviction loop ends.  Opening with
  \<open>O_TRUNC\<close> empties a file none of whose chunks is cached.  Of the
  FUSE interface: one answer to each request but \<open>opendir\<close>, listings complete and within their pages.  Some properties
  state defects of the code: the lost last byte, reads past the end, cached chunks of a truncated file, the table of
  users, the double answer, the out-of-bounds entry.

  \<^bold>\<open>Bounds.\<close>  Recursion is over lists or the length of the cache, with no fuel, except for \<open>list_directory\<close>, the
  kernel's side of a listing, for which one step more than there are entries is shown to be enough.  File sizes
  stay a chunk below \<open>2 ^ 63\<close>, the range of \<open>off_t\<close>; objects and buffers of the cipher below \<open>2 ^ 32\<close>
  bytes, names below 256 characters.

  \<^bold>\<open>Not modelled.\<close>  Concurrency: every call is one step, as if calls into the enclave did not overlap, and the
  session's requests are served in turn.  Printing, debug output and help texts; the release of memory and of library
  resources, except for the session's; failing allocations; the message table of \<^verbatim>\<open>app/enclave.cpp\<close>; the
  code that the SGX tools generate from \<^verbatim>\<open>enclave.edl\<close>, of which the model has only that a transition may
  fail and that output buffers are zeroed; tests and build files.
\<close>

section \<open>File data\<close>

lemma replicate_three: "replicate 3 x = [x, x, x]"
  by (simp add: numeral_eq_Suc)

text \<open>
  C1.  A write replaces the requested range of the file and nothing else: \<open>ecall_fs_write\<close> returns 0,
  the file then holds its old bytes overlaid with the new ones (a gap after the old end reads as
  zeros), every other file holds what it held, and the state is again one the data path accepts.  It
  needs UUIDs that are new and excludes the one length the code handles wrongly, which a property of its own states.
\<close>

theorem write_overlays:
  assumes "env_lawful e" and "host_reliable e" and "data_ok e w"
    and "find_inode w ino = Some (a, FileObj fn)" and "holds e w a bs"
    and "request_ok offset sz" and "unat sz \<le> length buf"
    and "fresh_uuids e w (unat (end_chunk offset sz))"
    and "unat offset + unat sz + 1 \<noteq> length bs"
  shows "\<exists>w' fn'. ecall_fs_write e ino buf offset sz w = Some (RC_OK, sz, w') \<and> data_ok e w' \<and>
    find_inode w' ino = Some (a, FileObj fn') \<and> in_ino fn' = in_ino fn \<and>
    holds e w' a (overlay (unat offset) (take (unat sz) buf) bs) \<and>
    (\<forall>b bs'. b \<noteq> a \<longrightarrow> holds e w b bs' \<longrightarrow> holds e w' b bs')"
  using ecall_fs_write_ok [OF assms] by blast

theorem write_overlays_witness:
  "\<exists>w' fn'. ecall_fs_write sample_env 5 [104, 105] 2 2 sample_world = Some (RC_OK, 2, w') \<and>
    data_ok sample_env w' \<and> find_inode w' 5 = Some (1, FileObj fn') \<and>
    holds sample_env w' 1 [0, 0, 104, 105]"
proof -
  have "fresh_uuids sample_env sample_world (unat (end_chunk 2 2))"
    using sample_fresh by (simp add: end_chunk_def CHUNKSIZE_def)
  note write_overlays [OF sample_env_lawful sample_env_reliable sample_data_ok sample_find(1) sample_holds _ _ this,
      of "[104, 105]"]
  moreover have "overlay 2 [104, 105] (replicate 3 (0 :: byte)) = [0, 0, 104, 105]"
    by (simp add: overlay_def replicate_three)
  ultimately show ?thesis by (simp add: request_ok_def CHUNKSIZE_def) blast
qed

text \<open>
  C2.  A read that begins inside the file or at its end returns the requested part, cut at the end:
  \<open>ecall_fs_read\<close> returns 0, leaves the number of bytes in \<open>*size\<close> and the bytes at the start of the buffer,
  and changes the contents of no file although it moves chunks between cache and store.  An offset past the
  end is excluded: there the size is not cut, which a property of its own states.
\<close>

theorem read_returns_contents:
  assumes "env_lawful e" and "host_reliable e" and "data_ok e w"
    and "find_inode w ino = Some (a, FileObj fn)" and "holds e w a bs"
    and "unat offset \<le> length bs" and "unat sz \<le> length buf"
  shows "\<exists>w'. ecall_fs_read e ino buf offset sz w =
      Some (RC_OK, of_nat (length (rd (unat offset) (unat sz) bs)), wr 0 (rd (unat offset) (unat sz) bs) buf, w') \<and>
    data_ok e w' \<and> inode_map w' = inode_map w \<and> (\<forall>b bs'. holds e w b bs' \<longrightarrow> holds e w' b bs')"
proof -
  have h: "heap w a = Some (FileObj fn)" using find_inode_heap [OF assms(4)] by simp
  with assms(5) have "file_wf fn" and "length bs = unat (fn_size fn)" by (auto elim!: holdsD)
  then obtain w' where "ecall_fs_read e ino buf offset sz w =
      Some (RC_OK, of_nat (length (rd (unat offset) (unat sz) bs)), wr 0 (rd (unat offset) (unat sz) bs) buf, w')"
    and sc: "same_contents e w w'" and "data_ok e w'"
    using ecall_fs_read_ok [OF assms(1-4) _ holds_file_bytes [OF assms(5)] _ assms(7)] assms(6) by metis
  with same_contents_holds [OF sc] same_contentsD(2) [OF sc] show ?thesis
    by (auto simp: frame_eq_def)
qed

theorem read_returns_contents_witness:
  "\<exists>w'. ecall_fs_read sample_env 5 [7, 7, 7, 7] 1 4 sample_world = Some (RC_OK, 2, [0, 0, 7, 7], w') \<and>
    data_ok sample_env w' \<and> holds sample_env w' 1 (replicate 3 0)"
proof -
  have r: "rd (unat (1 :: off_t)) (unat (4 :: size_t)) (replicate 3 (0 :: byte)) = [0, 0]"
    by (simp add: rd_def replicate_three)
  show ?thesis
    using read_returns_contents [OF sample_env_lawful sample_env_reliable sample_data_ok sample_find(1)
        sample_holds, of 1 4 "[7, 7, 7, 7]"] sample_holds
    unfolding r by (auto simp: wr_def)
qed

text \<open>
  C17.  Reading back what was written gives it, through all layers in between.
\<close>

theorem read_after_write:
  assumes "env_lawful e" and "host_reliable e" and "data_ok e w"
    and "find_inode w ino = Some (a, FileObj fn)" and "holds e w a bs"
    and "request_ok offset sz" and "unat sz \<le> length buf" and "unat sz \<le> length out"
    and "fresh_uuids e w (unat (end_chunk offset sz))"
    and "unat offset + unat sz + 1 \<noteq> length bs"
  shows "\<exists>w1 w2. ecall_fs_write e ino buf offset sz w = Some (RC_OK, sz, w1) \<and>
    ecall_fs_read e ino out offset sz w1 = Some (RC_OK, sz, wr 0 (take (unat sz) buf) out, w2)"
proof -
  from ecall_fs_write_ok [OF assms(1-7,9,10)] obtain w1 fn' where
    w1: "ecall_fs_write e ino buf offset sz w = Some (RC_OK, sz, w1)" "data_ok e w1"
      "find_inode w1 ino = Some (a, FileObj fn')"
    and hd: "holds e w1 a (overlay (unat offset) (take (unat sz) buf) bs)" by blast
  let ?new = "overlay (unat offset) (take (unat sz) buf) bs"
  have lt: "length (take (unat sz) buf) = unat sz" using assms(7) by simp
  have rd: "rd (unat offset) (unat sz) ?new = take (unat sz) buf"
    using rd_overlay [of "unat offset" "take (unat sz) buf" bs] unfolding lt .
  have h: "heap w1 a = Some (FileObj fn')" using find_inode_heap [OF w1(3)] by simp
  with hd have wf: "file_wf fn'" and len: "length ?new = unat (fn_size fn')" by (auto elim!: holdsD)
  have "unat offset \<le> length ?new" unfolding length_overlay by simp
  from ecall_fs_read_ok [OF assms(1,2) w1(2,3) wf holds_file_bytes [OF hd] this [unfolded len] assms(8)] lt
  show ?thesis using w1(1) unfolding rd by auto
qed

theorem read_after_write_witness:
  "\<exists>w1 w2. ecall_fs_write sample_env 5 [104, 105] 2 2 sample_world = Some (RC_OK, 2, w1) \<and>
    ecall_fs_read sample_env 5 [7, 7] 2 2 w1 = Some (RC_OK, 2, [104, 105], w2)"
proof -
  have "fresh_uuids sample_env sample_world (unat (end_chunk 2 2))"
    using sample_fresh by (simp add: end_chunk_def CHUNKSIZE_def)
  from read_after_write [OF sample_env_lawful sample_env_reliable sample_data_ok sample_find(1) sample_holds
      _ _ _ this, of "[104, 105]" "[7, 7]"]
  show ?thesis by (auto simp: request_ok_def CHUNKSIZE_def wr_def)
qed

text \<open>
  C3.  Flush makes a file durable.  After \<open>ecall_fs_flush\<close> has returned 0, an enclave that starts on the
  same store with the same volume key, an empty cache and no file open finds the file by loading its
  directory entry, with the contents it had before the flush.
\<close>

theorem flush_survives_restart:
  assumes "env_lawful e" and "host_reliable e" and "data_ok e w"
    and "find_inode w ino = Some (a, FileObj fn)" and "holds e w a bs"
    and "Filenode_bytes fn < 2 ^ 32"
    and "\<And>b k. map_option ck_uuid (chunk_at w b k) \<noteq> Some (md_uuid fn)"
    and "de_type dent = T_DT_REG" and "de_uuid dent = md_uuid fn"
  shows "\<exists>w1. ecall_fs_flush e ino w = Some (RC_OK, w1) \<and> data_ok e w1 \<and> holds e w1 a bs \<and>
    (\<exists>b w2 w3. lookup_fetch e dent (w1\<lparr>inode_map := Map.empty, heap := Map.empty, local_cache := ChunkStore_empty\<rparr>) =
        Some (Inr b, w2) \<and> find_inode w2 (de_ino dent) = Some b \<and> data_ok e w2 \<and> holds e w2 (fst b) bs)"
proof -
  from ecall_fs_flush_ok [OF assms(1-6)] assms(7) obtain w1 fn1 where
    w1: "ecall_fs_flush e ino w = Some (RC_OK, w1)" "data_ok e w1" "holds e w1 a bs" "durable e w1 fn1 bs"
    and u: "md_uuid fn1 = md_uuid fn" by blast
  let ?w = "w1\<lparr>inode_map := Map.empty, heap := Map.empty, local_cache := ChunkStore_empty\<rparr>"
  have "chunk_at ?w b k = None" for b k by (simp add: chunk_at_def)
  from durable_lookup [OF assms(1,2) w1(4), of ?w dent] this assms(8,9) u w1(1-3) show ?thesis
    by (auto simp: find_inode_def)
qed

theorem flush_survives_restart_witness:
  "\<exists>w1. ecall_fs_flush sample_env 5 sample_world = Some (RC_OK, w1) \<and>
    (\<exists>b w2. lookup_fetch sample_env \<lparr>de_ino = 5, de_name = ''a.txt'', de_type = T_DT_REG, de_uuid = 101\<rparr>
        (w1\<lparr>inode_map := Map.empty, heap := Map.empty, local_cache := ChunkStore_empty\<rparr>) = Some (Inr b, w2) \<and>
      holds sample_env w2 (fst b) (replicate 3 0))"
proof -
  let ?d = "\<lparr>de_ino = 5, de_name = ''a.txt'', de_type = T_DT_REG, de_uuid = 101\<rparr>"
  have "map_option ck_uuid (chunk_at sample_world b k) \<noteq> Some (md_uuid sample_file)" for b k
    by (simp add: sample_chunk_at Chunk_zero_def UUID_zero_def sample_file_def)
  moreover have "Filenode_bytes sample_file < 2 ^ 32"
    by (simp add: sample_file_def Filenode_bytes_def sizeof_filenode_buffer_def sizeof_chunk_def)
  moreover have "de_uuid ?d = md_uuid sample_file" by (simp add: sample_file_def)
  ultimately obtain w1 b w2 where "ecall_fs_flush sample_env 5 sample_world = Some (RC_OK, w1)"
    and "lookup_fetch sample_env ?d (w1\<lparr>inode_map := Map.empty, heap := Map.empty,
      local_cache := ChunkStore_empty\<rparr>) = Some (Inr b, w2)" and "holds sample_env w2 (fst b) (replicate 3 0)"
    using flush_survives_restart [OF sample_env_lawful sample_env_reliable sample_data_ok sample_find(1)
        sample_holds, of ?d] by auto
  then show ?thesis by blast
qed


text \<open>
  C30.  The shortcut for chunks a write covers completely loses data (lines 311, 321 and 327 of
  \<^verbatim>\<open>ecall_fs.cpp\<close>).  In a file of one chunk, a write of all bytes but the last
  returns 0 and sets the last byte to zero, although the request does not reach it.
\<close>

theorem write_loses_last_byte:
  assumes "env_lawful e" and "host_reliable e" and "data_ok e w"
    and "find_inode w ino = Some (a, FileObj fn)" and "holds e w a bs"
    and "fn_chunks fn = [ck]" and "ck_uuid ck \<noteq> UUID_zero"
    and "1 < length bs" and "length bs \<le> CHUNKSIZE" and "unat sz + 1 = length bs"
    and "unat sz \<le> length buf"
  shows "\<exists>w'. ecall_fs_write e ino buf 0 sz w = Some (RC_OK, sz, w') \<and> holds e w' a (take (unat sz) buf @ [0])"
  using assms by (rule write_shortcut)

theorem write_loses_last_byte_witness:
  "\<exists>w'. ecall_fs_write sample_env 5 [120, 121] 0 2 sample_cached_world = Some (RC_OK, 2, w') \<and>
    holds sample_env sample_cached_world 1 [97, 98, 99] \<and> holds sample_env w' 1 [120, 121, 0]"
  using write_loses_last_byte [OF sample_env_lawful sample_env_reliable sample_cached_data_ok sample_cached_find
      sample_cached_holds, of sample_chunk 2 "[120, 121]"] sample_cached_holds
  by (simp add: sample_cached_file_def sample_chunk_def UUID_zero_def CHUNKSIZE_def)

section \<open>Storage\<close>

text \<open>
  C16.  \<open>save_chunk\<close> puts the chunk's bytes in place and nothing else: the cache is back at no more than
  \<open>MAX_CACHE_NUM\<close> chunks, whatever had to be written out for that, and every other chunk of every file
  has the contents it had, in the cache or in the store.
\<close>

theorem save_chunk_contents:
  assumes "env_lawful e" and "host_reliable e" and "data_inv e w"
    and "chunk_at w (cc_filenode c) (unat (cc_idx c)) = Some ck" and "ck_uuid ck \<noteq> UUID_zero"
    and "length (cc_data c) = CHUNKSIZE" and "cc_modified c"
  shows "\<exists>w'. save_chunk e c w = Some (True, w') \<and> data_inv e w' \<and>
    length (cs_items (local_cache w')) \<le> MAX_CACHE_NUM \<and>
    (\<forall>b j. loc_content e w' b j = (if b = cc_filenode c \<and> j = unat (cc_idx c)
       then Some (ck_uuid ck, Some (cc_data c)) else loc_content e w b j))"
  using save_chunk_ok [OF assms(1-6)] assms(7) by (auto simp: content_upd_def)

theorem save_chunk_contents_witness:
  "\<exists>w'. save_chunk sample_env (sample_cache\<lparr>cc_data := replicate CHUNKSIZE 1\<rparr>) sample_cached_world = Some (True, w') \<and>
    loc_content sample_env w' 1 0 = Some (200, Some (replicate CHUNKSIZE 1))"
proof -
  have "data_inv sample_env sample_cached_world" by (rule data_okD [OF sample_cached_data_ok])
  from save_chunk_contents [OF sample_env_lawful sample_env_reliable this,
      of "sample_cache\<lparr>cc_data := replicate CHUNKSIZE 1\<rparr>" sample_chunk]
  show ?thesis
    by (auto simp: sample_cached_chunk_at sample_cache_def sample_chunk_def UUID_zero_def)
qed

text \<open>
  C7.  Authenticity of metadata, on any host: if \<open>load_metadata\<close> accepts, the file in the store is the
  sealed form, for this UUID and under the volume key, of an image that \<open>load\<close> accepts, and the object
  is the one that image describes.
\<close>

theorem load_metadata_authentic:
  assumes "env_lawful e" and "length (volkey w) = VOLKEYSIZE"
    and "\<And>f. files w (UUID_unparse u) = Some f \<Longrightarrow> length f < 2 ^ 32"
    and "load_metadata e vload u m w = Some (True, m', w')"
  shows "\<exists>img. files w (UUID_unparse u) = Some (seal_meta e (volkey w) u img) \<and> vload m img = Some (True, m')"
  using load_metadata_sound [OF assms] by (auto simp: stored_meta_def)

theorem load_metadata_authentic_witness:
  "\<exists>m' w'. load_metadata sample_env Superinfo_load 102 sample_super (sample_world\<lparr>files := [UUID_unparse 102 \<mapsto>
      seal_meta sample_env (replicate VOLKEYSIZE 0) 102 (replicate 104 0)]\<rparr>) = Some (True, m', w') \<and>
    (\<exists>img. seal_meta sample_env (replicate VOLKEYSIZE 0) 102 (replicate 104 0) =
        seal_meta sample_env (replicate VOLKEYSIZE 0) 102 img \<and> Superinfo_load sample_super img = Some (True, m'))"
proof -
  let ?f = "seal_meta sample_env (replicate VOLKEYSIZE 0) 102 (replicate 104 0)"
  let ?w = "sample_world\<lparr>files := [UUID_unparse 102 \<mapsto> ?f]\<rparr>"
  have key: "volkey ?w = replicate VOLKEYSIZE 0" by (simp add: sample_world_def)
  have st: "stored_meta sample_env ?w 102 (replicate 104 0)" by (simp add: stored_meta_def key)
  obtain m' where m': "Superinfo_load sample_super (replicate 104 0) = Some (True, m')"
    by (simp add: Superinfo_load_def sizeof_superinfo_def)
  from load_metadata_stored [OF sample_env_lawful sample_env_reliable st, where vload = Superinfo_load and
      m = sample_super, unfolded m'] obtain w' where
    ld: "load_metadata sample_env Superinfo_load 102 sample_super ?w = Some (True, m', w')" by auto
  have "gcm_params (replicate VOLKEYSIZE 0) zero_iv (UUID_dump 102) (replicate 104 0)"
    by (rule gcm_params_meta) simp_all
  then have "length ?f = 120"
    by (simp add: seal_meta_def sample_cipher_lawful gcm.length_ct gcm.length_tg)
  with load_metadata_authentic [OF sample_env_lawful _ _ ld] ld show ?thesis
    by (auto simp: key)
qed

text \<open>
  C36.  Saving a directory and loading it again gives the same directory: \<open>save_metadata\<close> and
  \<open>load_metadata\<close> with the virtual functions of \<open>Dirnode\<close>, for names that fit the fixed-size fields.
\<close>

theorem dirnode_saved_loaded:
  assumes "env_lawful e" and "host_reliable e" and "length (volkey w) = VOLKEYSIZE"
    and "Dirnode_storable dn" and "save_metadata e Dirnode_dump (md_uuid dn) dn w = (ok, w1)"
  shows "ok \<and> (\<exists>w2. load_metadata e Dirnode_load (md_uuid dn)
      ((Dirnode_ctor (md_uuid dn) junk)\<lparr>in_refcount := in_refcount dn\<rparr>) w1 = Some (True, dn, w2))"
proof -
  have "Dirnode_fresh ((Dirnode_ctor (md_uuid dn) junk)\<lparr>in_refcount := in_refcount dn\<rparr>) dn"
    by (simp add: Dirnode_fresh_def Dirnode_ctor_def Inode_ctor_def Metadata_ctor_def metadata.defs inode.defs)
  from dirnode.load_saved [OF assms this] show ?thesis by blast
qed

theorem dirnode_saved_loaded_witness:
  "\<exists>w1 w2. save_metadata sample_env Dirnode_dump 100 sample_root sample_world = (True, w1) \<and>
    load_metadata sample_env Dirnode_load 100 ((Dirnode_ctor 100 77)\<lparr>in_refcount := 1\<rparr>) w1 = Some (True, sample_root, w2)"
proof -
  obtain ok w1 where sv: "save_metadata sample_env Dirnode_dump 100 sample_root sample_world = (ok, w1)"
    by (rule prod.exhaust)
  have "Dirnode_storable sample_root"
    by (simp add: sample_root_def Dirnode_storable_def Dirent_storable_def Dirnode_bytes_def
        sizeof_dirnode_buffer_def sizeof_dirent_def fs_consts no_nul_def)
  moreover have "length (volkey sample_world) = VOLKEYSIZE" by (simp add: sample_world_def)
  moreover have "md_uuid sample_root = 100" "in_refcount sample_root = 1" by (simp_all add: sample_root_def)
  ultimately show ?thesis
    using dirnode_saved_loaded [OF sample_env_lawful sample_env_reliable, of sample_world sample_root ok w1 77] sv
    by auto
qed

text \<open>
  C37.  The same for a file's metadata, when its number of chunks fits its size, which \<open>Filenode::load\<close>
  insists on.
\<close>

theorem filenode_saved_loaded:
  assumes "env_lawful e" and "host_reliable e" and "length (volkey w) = VOLKEYSIZE"
    and "Filenode_storable fn" and "save_metadata e Filenode_dump (md_uuid fn) fn w = (ok, w1)"
  shows "ok \<and> (\<exists>w2. load_metadata e Filenode_load (md_uuid fn)
      ((Filenode_ctor (md_uuid fn) j1 j2)\<lparr>in_refcount := in_refcount fn\<rparr>) w1 = Some (True, fn, w2))"
proof -
  have "Filenode_fresh ((Filenode_ctor (md_uuid fn) j1 j2)\<lparr>in_refcount := in_refcount fn\<rparr>) fn"
    by (simp add: Filenode_fresh_def Filenode_ctor_def Inode_ctor_def Metadata_ctor_def metadata.defs inode.defs)
  from filenode.load_saved [OF assms this] show ?thesis by blast
qed

theorem filenode_saved_loaded_witness:
  "\<exists>w1 w2. save_metadata sample_env Filenode_dump 101 sample_file sample_world = (True, w1) \<and>
    load_metadata sample_env Filenode_load 101 ((Filenode_ctor 101 77 78)\<lparr>in_refcount := 1\<rparr>) w1 = Some (True, sample_file, w2)"
proof -
  obtain ok w1 where sv: "save_metadata sample_env Filenode_dump 101 sample_file sample_world = (ok, w1)"
    by (rule prod.exhaust)
  have "unat (chunks_for 3) = 1" by code_simp
  then have "Filenode_storable sample_file"
    by (simp add: sample_file_def Filenode_storable_def Filenode_bytes_def sizeof_filenode_buffer_def sizeof_chunk_def)
  moreover have "length (volkey sample_world) = VOLKEYSIZE" by (simp add: sample_world_def)
  moreover have "md_uuid sample_file = 101" "in_refcount sample_file = 1" by (simp_all add: sample_file_def)
  ultimately show ?thesis
    using filenode_saved_loaded [OF sample_env_lawful sample_env_reliable, of sample_world sample_file ok w1 77 78] sv
    by auto
qed

text \<open>
  C39.  The file name of a UUID, 36 characters of hexadecimal digits and dashes, determines the UUID:
  no two objects share a file in the store.
\<close>

theorem uuid_file_names: "length (UUID_unparse u) = 36 \<and> (UUID_unparse u = UUID_unparse v \<longleftrightarrow> u = v)"
  by (simp add: UUID_unparse_inject)

text \<open>
  C38.  What \<open>encrypt_buffer\<close> has sealed \<open>decrypt_buffer\<close> opens, and with any other tag it fails.
\<close>

theorem decrypt_after_encrypt:
  assumes "gcm_lawful M" and "length key = VOLKEYSIZE" and "length iv = 12" and "length aad = 16"
    and "length src < 2 ^ 32" and "length src \<le> length dst" and "length src = length out"
    and "length tag0 = 16" and "length t = 16"
    and "encrypt_buffer M key iv aad src out tag0 = (ok, ct, tag)"
  shows "ok \<and> length ct = length src \<and> fst (decrypt_buffer M key iv aad ct dst t) = (t = tag) \<and>
    snd (decrypt_buffer M key iv aad ct dst t) = wr 0 src dst"
proof -
  have p: "gcm_params key iv aad src" using assms(2-5) by (simp add: gcm_params_def)
  have l: "length (gcm_ct M key iv aad src) = length src" by (rule gcm.length_ct [OF assms(1) p])
  from assms(10) have "ok" "ct = gcm_ct M key iv aad src" "tag = gcm_tag M key iv aad src"
    using gcm.seal_eq [OF assms(1) p, of out tag0] assms(7,8) l by auto
  moreover from this l have "gcm_params key iv aad ct" using p by (simp add: gcm_params_def)
  ultimately show ?thesis
    using gcm.unseal_eq [OF assms(1), of key iv aad ct dst t] assms(6,9) l gcm.pt_ct [OF assms(1) p] by simp
qed

theorem decrypt_after_encrypt_witness:
  "\<exists>ct tag. encrypt_buffer sample_cipher (replicate VOLKEYSIZE 3) (replicate 12 0) (replicate 16 5) [1, 2, 3]
      [0, 0, 0] (replicate 16 0) = (True, ct, tag) \<and>
    decrypt_buffer sample_cipher (replicate VOLKEYSIZE 3) (replicate 12 0) (replicate 16 5) ct [9, 9, 9] tag =
      (True, [1, 2, 3])"
proof -
  obtain ok ct tag where enc: "encrypt_buffer sample_cipher (replicate VOLKEYSIZE 3) (replicate 12 0)
      (replicate 16 5) [1, 2, 3] [0, 0, 0] (replicate 16 0) = (ok, ct, tag)"
    by (rule prod_cases3)
  have "gcm_params (replicate VOLKEYSIZE 3) (replicate 12 0) (replicate 16 5) [1, 2, 3]"
    by (simp add: gcm_params_def)
  from gcm.seal_eq [OF sample_cipher_lawful this, of "[0, 0, 0]" "replicate 16 0"]
    gcm.length_tg [OF sample_cipher_lawful this] enc
  have "length tag = 16" by simp
  with decrypt_after_encrypt [OF sample_cipher_lawful _ _ _ _ _ _ _ _ enc, of "[9, 9, 9]" tag] enc show ?thesis
    by (intro exI [of _ ct] exI [of _ tag]) (simp add: prod_eq_iff)
qed

text \<open>
  C29.  The cache is a queue without duplicates: pushing a chunk removes an older copy and appends, the
  oldest chunk is popped, and taking by UUID finds the chunk of that UUID and removes it.  The
  assertions in the code hold and no iterator is invalid.
\<close>

theorem chunk_store_queue:
  assumes "cs_inv st"
  shows "(\<exists>it st'. ChunkStore_push_get_back u c st = Some (it, st') \<and> cs_inv st' \<and>
      cs_items st' = filter (\<lambda>x. cc_uuid x \<noteq> u) (cs_items st) @ [c\<lparr>cc_uuid := u\<rparr>]) \<and>
    (\<exists>st'. ChunkStore_get_erase_by_key u st = Some (cs_lookup u st, st') \<and> cs_inv st' \<and>
      cs_items st' = filter (\<lambda>x. cc_uuid x \<noteq> u) (cs_items st)) \<and>
    (\<forall>d ds. cs_items st = d # ds \<longrightarrow>
      (\<exists>st'. ChunkStore_get_pop_front st = Some (d, st') \<and> cs_inv st' \<and> cs_items st' = ds))"
proof (intro conjI allI impI)
  from push_get_back_eq [OF assms] obtain it st' where
    p: "ChunkStore_push_get_back u c st = Some (it, st')" by blast
  then have "ChunkStore_push (c\<lparr>cc_uuid := u\<rparr>) st = Some st'"
    using push_get_back_push [of u c st] by simp
  with p cs.push_ok [OF assms, of "c\<lparr>cc_uuid := u\<rparr>"]
  show "\<exists>it st'. ChunkStore_push_get_back u c st = Some (it, st') \<and> cs_inv st' \<and>
      cs_items st' = filter (\<lambda>x. cc_uuid x \<noteq> u) (cs_items st) @ [c\<lparr>cc_uuid := u\<rparr>]" by auto
  show "\<exists>st'. ChunkStore_get_erase_by_key u st = Some (cs_lookup u st, st') \<and> cs_inv st' \<and>
      cs_items st' = filter (\<lambda>x. cc_uuid x \<noteq> u) (cs_items st)"
    using cs.take_ok [OF assms] unfolding cs_lookup_def .
  show "\<exists>st'. ChunkStore_get_pop_front st = Some (d, st') \<and> cs_inv st' \<and> cs_items st' = ds"
    if "cs_items st = d # ds" for d ds
    using get_pop_front_eq [OF assms that] .
qed

theorem chunk_store_queue_witness:
  "\<exists>st'. ChunkStore_get_pop_front (local_cache sample_cached_world) = Some (sample_cache, st') \<and> cs_items st' = []"
  using chunk_store_queue [of "local_cache sample_cached_world"]
    data_invD(1) [OF data_okD [OF sample_cached_data_ok]] by (auto simp: sample_cached_items)

end
